(* ===== verification/Stream_Prelude.thy ===== *)
theory Stream_Prelude
  imports Main "HOL-Library.Word"
begin

text \<open>
  Shared vocabulary of the development: Python values that travel through the streams (bytes
  and text), the exceptions the code raises or lets through, and stateful computations that may
  raise (\<open>('s, 'a) io\<close>).  An \<open>async\<close> method is modelled by the effect of awaiting it to
  completion: the state it leaves behind and the value it returns or the exception it raises.
  The lemmas about \<open>io_bind\<close> and \<open>io_map\<close> carry the component proofs.
\<close>

named_theorems io_defs \<open>definitions that evaluate a computation on a state\<close>

section \<open>Values\<close>

type_synonym byte = "8 word"
type_synonym bytes = "byte list"

text \<open>A Python \<open>str\<close> is a sequence of code points.\<close>

type_synonym pstr = "nat list"

datatype pydata = Bytes bytes | Str pstr

fun data_len :: "pydata \<Rightarrow> nat" where
  "data_len (Bytes b) = length b"
| "data_len (Str t) = length t"

text \<open>Truth value of a \<open>bytes\<close> or \<open>str\<close> object (\<open>if not chunk\<close>): false iff empty.\<close>

definition truthy :: "pydata \<Rightarrow> bool" where
  "truthy d = (data_len d \<noteq> 0)"

lemma truthy_simps [simp]: "truthy (Bytes b) = (b \<noteq> [])" "truthy (Str t) = (t \<noteq> [])"
  by (simp_all add: truthy_def)

section \<open>Exceptions\<close>

text \<open>
  \<open>io.UnsupportedOperation\<close> derives from both \<open>OSError\<close> and \<open>ValueError\<close>, and the
  Unicode errors derive from \<open>ValueError\<close>: \<open>caught_type_value\<close> is the filter of an
  \<open>except (TypeError, ValueError)\<close> clause.
\<close>

datatype py_error =
    RuntimeError string
  | ValueError string
  | TypeError string
  | OSError string
  | FileNotFoundError string
  | FileExistsError string
  | AttributeError string
  | NotImplementedError string
  | UnsupportedOperation string
  | UnicodeEncodeError
  | UnicodeDecodeError

fun caught_type_value :: "py_error \<Rightarrow> bool" where
  "caught_type_value (TypeError _) = True"
| "caught_type_value (ValueError _) = True"
| "caught_type_value (UnsupportedOperation _) = True"
| "caught_type_value UnicodeEncodeError = True"
| "caught_type_value UnicodeDecodeError = True"
| "caught_type_value _ = False"

section \<open>Stateful computations that may raise\<close>

type_synonym ('s, 'a) io = "'s \<Rightarrow> (py_error + 'a) \<times> 's"

text \<open>Calls that may never return: \<open>None\<close> is a call that blocks or loops for ever.\<close>

type_synonym ('s, 'a) blocking_io = "'s \<Rightarrow> ((py_error + 'a) \<times> 's) option"

definition io_return :: "'a \<Rightarrow> ('s, 'a) io" where
  "io_return a = (\<lambda>s. (Inr a, s))"

definition io_raise :: "py_error \<Rightarrow> ('s, 'a) io" where
  "io_raise e = (\<lambda>s. (Inl e, s))"

definition io_bind :: "('s, 'a) io \<Rightarrow> ('a \<Rightarrow> ('s, 'b) io) \<Rightarrow> ('s, 'b) io" where
  "io_bind m f = (\<lambda>s. case m s of (Inl e, s') \<Rightarrow> (Inl e, s') | (Inr a, s') \<Rightarrow> f a s')"

text \<open>\<open>try: m except E: h\<close>, where \<open>p\<close> says which exceptions \<open>E\<close> covers.\<close>

definition io_catch :: "(py_error \<Rightarrow> bool) \<Rightarrow> ('s, 'a) io \<Rightarrow> ('s, 'a) io \<Rightarrow> ('s, 'a) io" where
  "io_catch p m h = (\<lambda>s. case m s of
      (Inl e, s') \<Rightarrow> (if p e then h s' else (Inl e, s'))
    | (Inr a, s') \<Rightarrow> (Inr a, s'))"

text \<open>A list comprehension \<open>[await f(x) for x in xs]\<close>: left to right, stopping at an exception.\<close>

fun io_map :: "('a \<Rightarrow> ('s, 'b) io) \<Rightarrow> 'a list \<Rightarrow> ('s, 'b list) io" where
  "io_map f [] = io_return []"
| "io_map f (x # xs) =
     io_bind (f x) (\<lambda>y. io_bind (io_map f xs) (\<lambda>ys. io_return (y # ys)))"

text \<open>Access to an attribute that may be missing.\<close>

definition attr_call :: "string \<Rightarrow> 'f option \<Rightarrow> ('f \<Rightarrow> ('s, 'a) io) \<Rightarrow> ('s, 'a) io" where
  "attr_call nm fo k = (case fo of None \<Rightarrow> io_raise (AttributeError nm) | Some f \<Rightarrow> k f)"

text \<open>A computation on one of two objects, seen on the pair of both.\<close>

definition on_fst :: "('s, 'a) io \<Rightarrow> ('s \<times> 't, 'a) io" where
  "on_fst m = (\<lambda>(s, t). case m s of (r, s') \<Rightarrow> (r, (s', t)))"

definition on_snd :: "('t, 'a) io \<Rightarrow> ('s \<times> 't, 'a) io" where
  "on_snd m = (\<lambda>(s, t). case m t of (r, t') \<Rightarrow> (r, (s, t')))"

lemma io_return_apply [io_defs]: "io_return a s = (Inr a, s)"
  by (simp add: io_return_def)

lemma io_raise_apply [io_defs]: "io_raise e s = (Inl e, s)"
  by (simp add: io_raise_def)

lemma io_bind_apply [io_defs]:
  "io_bind m f s = (case m s of (Inl e, s') \<Rightarrow> (Inl e, s') | (Inr a, s') \<Rightarrow> f a s')"
  by (simp add: io_bind_def)

lemma io_bind_Inr [simp]: "m s = (Inr a, s') \<Longrightarrow> io_bind m f s = f a s'"
  by (simp add: io_bind_def)

lemma io_bind_Inl [simp]: "m s = (Inl e, s') \<Longrightarrow> io_bind m f s = (Inl e, s')"
  by (simp add: io_bind_def)

lemma io_bind_return_left [simp]: "io_bind (io_return a) f = f a"
  by (simp add: io_bind_def io_return_def)

lemma io_bind_raise_left [simp]: "io_bind (io_raise e) f = io_raise e"
  by (simp add: io_bind_def io_raise_def)

text \<open>The same laws where the simplifier has already unfolded a return or a raise.\<close>

lemma io_bind_Pair_left [simp]:
  "io_bind (Pair (Inr a)) f = f a"
  "io_bind (Pair (Inl e)) f = Pair (Inl e)"
  by (simp_all add: io_bind_def)

lemma io_bind_Pair_right [simp]: "io_bind m (\<lambda>a. Pair (Inr a)) = m"
  by (rule ext) (simp add: io_bind_def split: prod.split sum.split)

lemma io_bind_return_right [simp]: "io_bind m io_return = m"
  by (rule ext) (simp add: io_bind_def io_return_def split: prod.split sum.split)

lemma io_bind_assoc: "io_bind (io_bind m f) g = io_bind m (\<lambda>x. io_bind (f x) g)"
  by (rule ext) (simp add: io_bind_def split: prod.split sum.split)

lemma io_bind_cong:
  "m = m' \<Longrightarrow> (\<And>a. f a = f' a) \<Longrightarrow> io_bind m f = io_bind m' f'"
  by (simp add: io_bind_def cong: prod.case_cong sum.case_cong)

lemma io_catch_apply [io_defs]:
  "io_catch p m h s = (case m s of
      (Inl e, s') \<Rightarrow> (if p e then h s' else (Inl e, s')) | (Inr a, s') \<Rightarrow> (Inr a, s'))"
  by (simp add: io_catch_def)

lemma io_catch_Inr [simp]: "m s = (Inr a, s') \<Longrightarrow> io_catch p m h s = (Inr a, s')"
  by (simp add: io_catch_def)

lemma io_catch_Inl [simp]:
  "m s = (Inl e, s') \<Longrightarrow> io_catch p m h s = (if p e then h s' else (Inl e, s'))"
  by (simp add: io_catch_def)

lemma attr_call_simps [simp]:
  "attr_call nm (Some f) k = k f"
  "attr_call nm None k = io_raise (AttributeError nm)"
  by (simp_all add: attr_call_def)

lemma on_fst_apply [simp, io_defs]:
  "on_fst m (s, t) = (case m s of (r, s') \<Rightarrow> (r, (s', t)))"
  by (simp add: on_fst_def)

lemma on_snd_apply [simp, io_defs]:
  "on_snd m (s, t) = (case m t of (r, t') \<Rightarrow> (r, (s, t')))"
  by (simp add: on_snd_def)

lemma io_map_append:
  "io_map f (xs @ ys) =
     io_bind (io_map f xs) (\<lambda>as. io_bind (io_map f ys) (\<lambda>bs. io_return (as @ bs)))"
  by (induction xs) (simp_all add: io_bind_assoc)

lemma io_map_length: "io_map f xs s = (Inr ys, s') \<Longrightarrow> length ys = length xs"
  by (induction xs arbitrary: s ys s')
    (auto simp: io_defs split: prod.splits sum.splits)

lemma io_map_cong:
  "(\<And>x. x \<in> set xs \<Longrightarrow> f x = g x) \<Longrightarrow> io_map f xs = io_map g xs"
  by (induction xs) simp_all

lemma io_map_map: "io_map f (map g xs) = io_map (\<lambda>x. f (g x)) xs"
  by (induction xs) simp_all

section \<open>Buffers\<close>

text \<open>
  Writing \<open>bs\<close> at offset \<open>p\<close> of a buffer: a gap beyond the end is filled with \<open>z\<close>, what
  \<open>bs\<close> covers is replaced, the rest stays.
\<close>

definition overwrite :: "'b \<Rightarrow> nat \<Rightarrow> 'b list \<Rightarrow> 'b list \<Rightarrow> 'b list" where
  "overwrite z p bs buf =
     take p buf @ replicate (p - length buf) z @ bs @ drop (p + length bs) buf"

lemma length_overwrite: "length (overwrite z p bs buf) = max (length buf) (p + length bs)"
  by (simp add: overwrite_def)

lemma overwrite_at_end [simp]: "overwrite z (length buf) bs buf = buf @ bs"
  by (simp add: overwrite_def)

lemma read_back_overwrite: "take (length bs) (drop p (overwrite z p bs buf)) = bs"
  by (cases "p \<le> length buf") (simp_all add: overwrite_def)

lemma take_overwrite: "p \<le> length buf \<Longrightarrow> take p (overwrite z p bs buf) = take p buf"
  by (simp add: overwrite_def)

lemma drop_overwrite: "drop (p + length bs) (overwrite z p bs buf) = drop (p + length bs) buf"
  by (cases "p \<le> length buf") (simp_all add: overwrite_def)

lemma overwrite_append:
  "overwrite z (p + length as) bs (overwrite z p as buf) = overwrite z p (as @ bs) buf"
proof -
  have "take (p + length as) (overwrite z p as buf) =
          take p buf @ replicate (p - length buf) z @ as"
    by (cases "p \<le> length buf") (simp_all add: overwrite_def)
  moreover have "p + length as - length (overwrite z p as buf) = 0"
    by (simp add: length_overwrite)
  moreover have "drop (p + length as + length bs) (overwrite z p as buf) =
                   drop (p + length as + length bs) buf"
    by (cases "p \<le> length buf") (simp_all add: overwrite_def add.commute add.left_commute)
  ultimately show ?thesis
    by (simp add: overwrite_def [of z "p + length as"] overwrite_def [of z p "as @ bs"] add.assoc)
qed

end
