(* ===== verification/Stream_Core.thy ===== *)
theory Stream_Core
  imports Stream_Prelude
begin

text \<open>
  The stream interface of \<open>py_native_io/base.py\<close>: what an object offers (\<open>target_ops\<close>,
  \<open>stream\<close>; a missing attribute is \<open>None\<close>), the methods \<open>AsyncIOBase\<close> defines in terms
  of it (\<open>base_*\<close>), the dispatch between the sync and the async half of a method pair
  (\<open>run_sync\<close>, \<open>run_async\<close>), and the contracts of byte sources and sinks as locales, with
  the facts about batches and splices that every provider inherits.
\<close>

section \<open>Objects\<close>

text \<open>
  The part of an object that a splice looks at, and the rest of the interface.  The first
  argument of a sync method says whether an event loop is running in the calling thread
  (\<open>asyncio.to_thread\<close> calls it in a worker thread, where none is).
\<close>

record 's target_ops =
  s_write :: "(bool \<Rightarrow> pydata \<Rightarrow> ('s, int) io) option"
  s_awrite :: "(pydata \<Rightarrow> ('s, int) io) option"
  s_fileno :: "('s, int) io option"

datatype 's splice_target = FdTarget int | ObjTarget "'s target_ops"

text \<open>An element of the \<open>specs\<close> of a batch read: a size, or an \<open>(offset, size)\<close> tuple.\<close>

datatype read_spec = Size int | OffsetSize int int

record 's stream = "'s target_ops" +
  s_read :: "(bool \<Rightarrow> int \<Rightarrow> ('s, pydata) io) option"
  s_close :: "('s, unit) io option"
  s_flush :: "('s, unit) io option"
  s_aread :: "(int \<Rightarrow> ('s, pydata) io) option"
  s_aclose :: "('s, unit) io option"
  s_aflush :: "('s, unit) io option"
  s_aread_batch :: "(read_spec list \<Rightarrow> ('s, pydata list) io) option"
  s_awrite_batch :: "(pydata list \<Rightarrow> ('s, int list) io) option"
  s_asplice :: "('s splice_target \<Rightarrow> int \<Rightarrow> ('s, int) io) option"

text \<open>
  The file-like operations that wrappers pass through.  \<open>readinto\<close> is given the length of the
  buffer and returns the bytes it puts at its front.
\<close>

record 's file_stream = "'s stream" +
  s_readinto :: "(nat \<Rightarrow> ('s, bytes) io) option"
  s_seek :: "(int \<Rightarrow> int \<Rightarrow> ('s, int) io) option"
  s_tell :: "('s, int) io option"
  s_readable :: "('s, bool) io option"
  s_writable :: "('s, bool) io option"
  s_seekable :: "('s, bool) io option"
  s_isatty :: "('s, bool) io option"
  s_closed :: "('s, bool) io option"

text \<open>
  \<open>isinstance(x, AsyncIOStream)\<close> for the runtime-checkable protocol: the object has all five
  members.
\<close>

definition is_async_stream :: "('s, 'x) stream_scheme \<Rightarrow> bool" where
  "is_async_stream x = (s_aread x \<noteq> None \<and> s_awrite x \<noteq> None \<and> s_aclose x \<noteq> None \<and>
     s_aflush x \<noteq> None \<and> s_asplice x \<noteq> None)"

section \<open>The methods of AsyncIOBase\<close>

text \<open>\<open>await asyncio.to_thread(self.m, ...)\<close>.\<close>

definition base_aread :: "('s, 'x) stream_scheme \<Rightarrow> int \<Rightarrow> ('s, pydata) io" where
  "base_aread self sz = attr_call ''read'' (s_read self) (\<lambda>f. f False sz)"

definition base_awrite :: "('s, 'x) stream_scheme \<Rightarrow> pydata \<Rightarrow> ('s, int) io" where
  "base_awrite self b = attr_call ''write'' (s_write self) (\<lambda>f. f False b)"

definition base_aclose :: "('s, 'x) stream_scheme \<Rightarrow> ('s, unit) io" where
  "base_aclose self = attr_call ''close'' (s_close self) (\<lambda>f. f)"

definition base_aflush :: "('s, 'x) stream_scheme \<Rightarrow> ('s, unit) io" where
  "base_aflush self = attr_call ''flush'' (s_flush self) (\<lambda>f. f)"

text \<open>\<open>sz if isinstance(sz, int) else sz[1]\<close>\<close>

fun spec_size :: "read_spec \<Rightarrow> int" where
  "spec_size (Size n) = n"
| "spec_size (OffsetSize off n) = n"

text \<open>The list comprehensions that the base class, the metaclass and the adapter share.\<close>

definition loop_aread :: "(int \<Rightarrow> ('s, pydata) io) \<Rightarrow> read_spec list \<Rightarrow> ('s, pydata list) io" where
  "loop_aread ar specs = io_map (\<lambda>sz. ar (spec_size sz)) specs"

definition loop_awrite :: "(pydata \<Rightarrow> ('s, int) io) \<Rightarrow> pydata list \<Rightarrow> ('s, int list) io" where
  "loop_awrite aw chunks = io_map aw chunks"

text \<open>\<open>ext\<close> is the value of \<open>getattr(self, "_ext_aread_batch", None)\<close> where it is callable.\<close>

definition base_aread_batch ::
  "(read_spec list \<Rightarrow> ('s, pydata list) io) option \<Rightarrow> ('s, 'x) stream_scheme \<Rightarrow> read_spec list
     \<Rightarrow> ('s, pydata list) io" where
  "base_aread_batch ext self specs =
     (case ext of
        Some f \<Rightarrow> f specs
      | None \<Rightarrow> loop_aread (\<lambda>n. attr_call ''aread'' (s_aread self) (\<lambda>f. f n)) specs)"

definition base_awrite_batch ::
  "(pydata list \<Rightarrow> ('s, int list) io) option \<Rightarrow> ('s, 'x) stream_scheme \<Rightarrow> pydata list
     \<Rightarrow> ('s, int list) io" where
  "base_awrite_batch ext self chunks =
     (case ext of
        Some f \<Rightarrow> f chunks
      | None \<Rightarrow> loop_awrite (\<lambda>c. attr_call ''awrite'' (s_awrite self) (\<lambda>f. f c)) chunks)"

text \<open>The descriptor of a splice target: the integer itself, \<open>target.fileno()\<close>, or \<open>-1\<close>.\<close>

fun target_fd :: "'s splice_target \<Rightarrow> ('s, int) io" where
  "target_fd (FdTarget n) = io_return n"
| "target_fd (ObjTarget t) = (case s_fileno t of Some f \<Rightarrow> f | None \<Rightarrow> io_return (-1))"

text \<open>How a chunk reaches an object with \<open>awrite\<close>, else \<open>write\<close>; otherwise \<open>k\<close>.\<close>

fun deliver :: "'s splice_target \<Rightarrow> ('s, int) io \<Rightarrow> pydata \<Rightarrow> ('s, int) io" where
  "deliver (FdTarget n) k chunk = k"
| "deliver (ObjTarget t) k chunk =
     (case s_awrite t of
        Some aw \<Rightarrow> aw chunk
      | None \<Rightarrow> (case s_write t of Some w \<Rightarrow> w False chunk | None \<Rightarrow> k))"

definition chunk_size :: "int \<Rightarrow> int" where
  "chunk_size sz = (if sz > 0 then sz else 65536)"

text \<open>\<open>asplice\<close> without the descriptor paths, as the memory streams and \<open>patch_stream\<close> have it.\<close>

definition plain_asplice ::
  "(int \<Rightarrow> ('s, pydata) io) \<Rightarrow> 's splice_target \<Rightarrow> int \<Rightarrow> ('s, int) io" where
  "plain_asplice ar target sz =
     io_bind (ar (chunk_size sz)) (\<lambda>chunk.
       if \<not> truthy chunk then io_return 0
       else deliver target (io_return 0) chunk)"

text \<open>
  \<open>AsyncIOBase.asplice\<close>; \<open>ext\<close> is \<open>_ext_asplice\<close> where callable, \<open>os_write\<close> is
  \<open>os.write\<close> of the operating system.
\<close>

definition base_asplice ::
  "(int \<Rightarrow> pydata \<Rightarrow> ('s, int) io) \<Rightarrow> (int \<Rightarrow> int \<Rightarrow> ('s, int) io) option \<Rightarrow>
   (int \<Rightarrow> ('s, pydata) io) \<Rightarrow> 's splice_target \<Rightarrow> int \<Rightarrow> ('s, int) io" where
  "base_asplice os_write ext ar target sz =
     io_bind (target_fd target) (\<lambda>fd.
       if ext \<noteq> None \<and> fd \<noteq> -1 then the ext fd sz
       else
         io_bind (ar (chunk_size sz)) (\<lambda>chunk.
           if \<not> truthy chunk then io_return 0
           else deliver target
                  (if fd \<noteq> -1 then os_write fd chunk else io_return 0) chunk))"

section \<open>Sync and async halves calling each other\<close>

text \<open>
  \<open>AsyncIOBase\<close> defines \<open>read\<close> through \<open>aread\<close> and \<open>aread\<close> through \<open>read\<close> (and
  \<open>write\<close>/\<open>awrite\<close> alike).  \<open>ov_sync\<close> and \<open>ov_async\<close> are what a subclass overrides;
  \<open>None\<close> is the method of \<open>AsyncIOBase\<close> itself.  A sync call on a running loop raises; off
  the loop it runs the async half on a fresh loop, which calls the sync half in a thread.
  The first argument is fuel: \<open>None\<close> means that many nested calls were not enough.
\<close>

record ('s, 'a, 'b) halves =
  ov_sync :: "(bool \<Rightarrow> 'a \<Rightarrow> ('s, 'b) io) option"
  ov_async :: "('a \<Rightarrow> ('s, 'b) io) option"

fun run_sync :: "string \<Rightarrow> nat \<Rightarrow> ('s, 'a, 'b) halves \<Rightarrow> bool \<Rightarrow> 'a \<Rightarrow> 's
                   \<Rightarrow> ((py_error + 'b) \<times> 's) option"
and run_async :: "string \<Rightarrow> nat \<Rightarrow> ('s, 'a, 'b) halves \<Rightarrow> 'a \<Rightarrow> 's
                   \<Rightarrow> ((py_error + 'b) \<times> 's) option" where
  "run_sync msg 0 ov loop x s = None"
| "run_sync msg (Suc k) ov loop x s =
     (case ov_sync ov of
        Some f \<Rightarrow> Some (f loop x s)
      | None \<Rightarrow>
          if loop then Some (Inl (RuntimeError msg), s)
          else run_async msg k ov x s)"
| "run_async msg 0 ov x s = None"
| "run_async msg (Suc k) ov x s =
     (case ov_async ov of
        Some g \<Rightarrow> Some (g x s)
      | None \<Rightarrow> run_sync msg k ov False x s)"

definition base_read ::
  "nat \<Rightarrow> ('s, int, pydata) halves \<Rightarrow> bool \<Rightarrow> int \<Rightarrow> 's \<Rightarrow> ((py_error + pydata) \<times> 's) option" where
  "base_read = run_sync
     ''Cannot call sync read() inside an active event loop. Use 'await aread()'.''"

definition base_write ::
  "nat \<Rightarrow> ('s, pydata, int) halves \<Rightarrow> bool \<Rightarrow> pydata \<Rightarrow> 's \<Rightarrow> ((py_error + int) \<times> 's) option" where
  "base_write = run_sync
     ''Cannot call sync write() inside an active event loop. Use 'await awrite()'.''"

lemma run_sync_mono:
  "run_sync msg k ov l x s = Some r \<Longrightarrow> run_sync msg (k + m) ov l x s = Some r"
  and run_async_mono:
  "run_async msg k ov x s = Some r \<Longrightarrow> run_async msg (k + m) ov x s = Some r"
  by (induction msg k ov l x s and msg k ov x s rule: run_sync_run_async.induct)
    (auto split: option.splits)

lemma run_diverges:
  assumes "ov_sync ov = None" and "ov_async ov = None"
  shows "run_sync msg k ov False x s = None" and "run_async msg k ov x s = None"
proof -
  have "run_sync msg k ov False x s = None \<and> run_async msg k ov x s = None"
    by (induction k) (simp_all add: assms)
  then show "run_sync msg k ov False x s = None" and "run_async msg k ov x s = None"
    by auto
qed

lemma run_sync_returns:
  "ov_sync ov \<noteq> None \<or> ov_async ov \<noteq> None \<Longrightarrow> run_sync msg (Suc (Suc k)) ov l x s \<noteq> None"
  by (auto split: option.splits)

lemma run_async_returns:
  "ov_sync ov \<noteq> None \<or> ov_async ov \<noteq> None \<Longrightarrow> run_async msg (Suc (Suc k)) ov x s \<noteq> None"
  by (auto split: option.splits)

end
