(* ===== verification/Class_Model.thy ===== *)
theory Class_Model
  imports Stream_Core "HOL-Library.AList"
begin

text \<open>
  Class creation: what \<open>AsyncIOBaseMeta.__new__\<close> adds to a class body, Python's C3 method
  resolution order, and the class table of \<open>py_native_io\<close> (its headers and bodies as in
  \<open>base.py\<close>, \<open>file.py\<close>, \<open>memory.py\<close>, \<open>buffered.py\<close>, \<open>socket.py\<close> and \<open>patch.py\<close>, over the
  method tables of CPython's \<open>_io\<close> classes restricted to the names the library looks up).
  Attribute lookup on an instance is computed from it.
\<close>

section \<open>Class bodies and the metaclass\<close>

text \<open>Class names (of CPython and of the library; others are \<open>UserClass\<close>) and member names.\<close>

datatype cname =
    PyObject | C_IOBase | IOBase | C_RawIOBase | C_BufferedIOBase
  | C_TextIOBase | RawIOBase | BytesIO | StringIO | BufferedReader
  | BufferedWriter | BufferedRandom | TextIOWrapper | AsyncIOBase | AsyncBufferedReader
  | AsyncBufferedWriter | AsyncBufferedRandom | AsyncTextIOWrapper | DummyNativeFileIO | FallbackFileIO
  | AsyncBytesIO | AsyncStringIO | AsyncSocketIO | AsyncStreamAdapter
  | NativeFileIO | LinuxURingFileIO | WindowsIoRingFileIO | MacOSKQueueFileIO
  | UserClass string

datatype mname =
    M_init | M_read | M_write | M_close | M_flush | M_aread
  | M_aread_batch | M_awrite | M_awrite_batch | M_aclose | M_aflush | M_asplice
  | M_readinto | M_closed | M_seek | M_tell | M_readable | M_writable
  | M_seekable | M_fileno | M_isatty
  | M_other string

text \<open>
  What a name of a class is bound to: a function written in the body of class \<open>c\<close>
  (\<open>Def c m\<close>, also used for C-implemented methods), or one of the wrappers the metaclass
  synthesizes; those for \<open>read\<close>, \<open>write\<close>, \<open>close\<close> and \<open>flush\<close> capture the function of the
  body they wrap.
\<close>

datatype meth =
    Def cname mname
  | AutoAread meth
  | AutoAreadBatch
  | AutoAwrite meth
  | AutoAwriteBatch
  | AutoAclose meth
  | AutoAflush meth

type_synonym namespace = "(mname \<times> meth) list"

text \<open>
  One step of \<open>__new__\<close>: \<open>if src in namespace and tgt not in namespace\<close>.  The test is on the
  class body, the assignment goes to the class, and the name is recorded.
\<close>

definition synth ::
  "namespace \<Rightarrow> mname \<Rightarrow> mname \<Rightarrow> (meth \<Rightarrow> meth) \<Rightarrow> namespace \<times> mname list
     \<Rightarrow> namespace \<times> mname list"
where
  "synth ns src tgt wrap acc =
     (case map_of ns src of
        Some f \<Rightarrow>
          if map_of ns tgt = None
          then (AList.update tgt (wrap f) (fst acc), snd acc @ [tgt]) else acc
      | None \<Rightarrow> acc)"

definition meta_new :: "namespace \<Rightarrow> namespace \<times> mname list" where
  "meta_new ns =
     (let a0 = (ns, []);
          a1 = synth ns M_read M_aread AutoAread a0;
          a2 = synth ns M_aread M_aread_batch (\<lambda>_. AutoAreadBatch) a1;
          a3 = synth ns M_write M_awrite AutoAwrite a2;
          a4 = synth ns M_awrite M_awrite_batch (\<lambda>_. AutoAwriteBatch) a3;
          a5 = synth ns M_close M_aclose AutoAclose a4;
          a6 = synth ns M_flush M_aflush AutoAflush a5
      in a6)"

section \<open>Method resolution order\<close>

text \<open>
  C3 linearization: the next class is the first list head that occurs in no list's tail.
  \<open>None\<close> is the \<open>TypeError\<close> of an inconsistent hierarchy.
\<close>

definition good_head :: "cname list list \<Rightarrow> cname \<Rightarrow> bool" where
  "good_head ls h = list_all (\<lambda>l. h \<notin> set (tl l)) ls"

definition c3_pick :: "cname list list \<Rightarrow> cname option" where
  "c3_pick ls = find (good_head ls) (map hd ls)"

definition c3_drop :: "cname \<Rightarrow> cname list list \<Rightarrow> cname list list" where
  "c3_drop h ls = map (\<lambda>l. if l \<noteq> [] \<and> hd l = h then tl l else l) ls"

lemma c3_drop_less:
  assumes "h \<in> hd ` set ls" and "\<forall>l \<in> set ls. l \<noteq> []"
  shows "sum_list (map length (c3_drop h ls)) < sum_list (map length ls)"
  using assms
proof (induction ls)
  case Nil
  then show ?case by simp
next
  case (Cons l ls)
  have le: "sum_list (map length (c3_drop h ls)) \<le> sum_list (map length ls)"
    unfolding c3_drop_def map_map by (rule sum_list_mono) auto
  show ?case
  proof (cases "hd l = h")
    case True
    with le Cons.prems(2) show ?thesis by (cases l) (auto simp: c3_drop_def)
  next
    case False
    with Cons show ?thesis by (auto simp: c3_drop_def)
  qed
qed

lemma c3_pick_in: "c3_pick ls = Some h \<Longrightarrow> h \<in> hd ` set ls"
  unfolding c3_pick_def by (auto simp: find_Some_iff intro!: imageI nth_mem)

function c3_merge :: "cname list list \<Rightarrow> cname list option" where
  "c3_merge ls =
     (let ne = filter (\<lambda>l. l \<noteq> []) ls in
      if ne = [] then Some []
      else (case c3_pick ne of
              None \<Rightarrow> None
            | Some h \<Rightarrow> map_option (Cons h) (c3_merge (c3_drop h ne))))"
  by pat_completeness auto
termination
proof (relation "measure (\<lambda>ls. sum_list (map length ls))")
  fix ls ne :: "cname list list" and h
  assume ne: "ne = filter (\<lambda>l. l \<noteq> []) ls" and h: "c3_pick ne = Some h"
  have "sum_list (map length (c3_drop h ne)) < sum_list (map length ne)"
    using c3_pick_in [OF h] ne by (intro c3_drop_less) auto
  also have "sum_list (map length ne) \<le> sum_list (map length ls)"
    unfolding ne by (induction ls) auto
  finally show "(c3_drop h ne, ls) \<in> measure (\<lambda>ls. sum_list (map length ls))" by simp
qed simp

declare c3_merge.simps [simp del]

text \<open>A class is its name, its method resolution order and its own dictionary.\<close>

record pyclass =
  cls_name :: cname
  cls_mro :: "cname list"
  cls_dict :: namespace

type_synonym classes = "pyclass list"

definition find_class :: "classes \<Rightarrow> cname \<Rightarrow> pyclass option" where
  "find_class cs c = find (\<lambda>k. cls_name k = c) cs"

definition mro_of :: "classes \<Rightarrow> cname \<Rightarrow> cname list" where
  "mro_of cs c = (case find_class cs c of Some k \<Rightarrow> cls_mro k | None \<Rightarrow> [])"

definition dict_of :: "classes \<Rightarrow> cname \<Rightarrow> namespace" where
  "dict_of cs c = (case find_class cs c of Some k \<Rightarrow> cls_dict k | None \<Rightarrow> [])"

text \<open>A class statement under \<open>type\<close> (\<open>False\<close>) or under \<open>AsyncIOBaseMeta\<close> (\<open>True\<close>).\<close>

definition class_stmt :: "bool \<Rightarrow> cname \<Rightarrow> cname list \<Rightarrow> namespace \<Rightarrow> classes \<Rightarrow> classes" where
  "class_stmt meta c bases body cs =
     (case c3_merge (map (mro_of cs) bases @ [bases]) of
        None \<Rightarrow> cs
      | Some m \<Rightarrow>
          cs @ [\<lparr>cls_name = c, cls_mro = c # m,
                 cls_dict = (if meta then fst (meta_new body) else body)\<rparr>])"

text \<open>Attribute lookup on a class (or an instance with no attributes of its own).\<close>

fun lookup_in :: "classes \<Rightarrow> cname list \<Rightarrow> mname \<Rightarrow> meth option" where
  "lookup_in cs [] m = None"
| "lookup_in cs (c # mro) m =
     (case map_of (dict_of cs c) m of Some f \<Rightarrow> Some f | None \<Rightarrow> lookup_in cs mro m)"

definition resolve :: "classes \<Rightarrow> cname \<Rightarrow> mname \<Rightarrow> meth option" where
  "resolve cs c m = lookup_in cs (mro_of cs c) m"

definition conforms :: "classes \<Rightarrow> cname \<Rightarrow> bool" where
  "conforms cs c = list_all (\<lambda>m. resolve cs c m \<noteq> None)
     [M_aread, M_awrite, M_aclose, M_aflush, M_asplice]"

section \<open>The class table\<close>

definition body :: "cname \<Rightarrow> mname list \<Rightarrow> namespace" where
  "body c ms = map (\<lambda>m. (m, Def c m)) ms"

text \<open>CPython's \<open>io\<close> hierarchy (names the library looks up only).\<close>

definition io_classes :: classes where
  "io_classes =
     (class_stmt False TextIOWrapper [C_TextIOBase]
        (body TextIOWrapper [M_write, M_read, M_flush, M_close, M_fileno])
    \<circ> class_stmt False BufferedRandom [C_BufferedIOBase]
        (body BufferedRandom [M_close, M_fileno, M_flush, M_read, M_write])
    \<circ> class_stmt False BufferedWriter [C_BufferedIOBase]
        (body BufferedWriter [M_close, M_fileno, M_write, M_flush])
    \<circ> class_stmt False BufferedReader [C_BufferedIOBase]
        (body BufferedReader [M_flush, M_close, M_fileno, M_read])
    \<circ> class_stmt False StringIO [C_TextIOBase]
        (body StringIO [M_read, M_write, M_close])
    \<circ> class_stmt False BytesIO [C_BufferedIOBase]
        (body BytesIO [M_write, M_close, M_flush, M_read])
    \<circ> class_stmt False RawIOBase [C_RawIOBase, IOBase] []
    \<circ> class_stmt False C_TextIOBase [C_IOBase]
        (body C_TextIOBase [M_read, M_write])
    \<circ> class_stmt False C_BufferedIOBase [C_IOBase]
        (body C_BufferedIOBase [M_read, M_write])
    \<circ> class_stmt False C_RawIOBase [C_IOBase]
        (body C_RawIOBase [M_read])
    \<circ> class_stmt False IOBase [C_IOBase] []
    \<circ> class_stmt False C_IOBase [PyObject]
        (body C_IOBase [M_flush, M_close, M_fileno])
    \<circ> class_stmt False PyObject [] []) []"

definition asynciobase_body :: namespace where
  "asynciobase_body = body AsyncIOBase
     [M_init, M_aread, M_aread_batch, M_awrite, M_awrite_batch, M_aclose,
      M_aflush, M_asplice, M_read, M_write]"

definition fallbackfileio_body :: namespace where
  "fallbackfileio_body = body FallbackFileIO
     [M_init, M_read, M_readinto, M_write, M_close, M_flush, M_closed,
      M_seek, M_tell, M_readable, M_writable, M_seekable, M_fileno, M_isatty]"

definition dummynativefileio_body :: namespace where
  "dummynativefileio_body = body DummyNativeFileIO [M_init]"

definition asyncbytesio_body :: namespace where
  "asyncbytesio_body = body AsyncBytesIO
     [M_aread, M_awrite, M_aclose, M_aflush, M_asplice]"

definition asyncstringio_body :: namespace where
  "asyncstringio_body = body AsyncStringIO
     [M_aread, M_awrite, M_aclose, M_aflush, M_asplice]"

definition asyncbufferedreader_body :: namespace where
  "asyncbufferedreader_body = body AsyncBufferedReader [M_aread, M_aread_batch]"

definition asyncbufferedwriter_body :: namespace where
  "asyncbufferedwriter_body = body AsyncBufferedWriter [M_awrite, M_awrite_batch]"

definition asyncbufferedrandom_body :: namespace where
  "asyncbufferedrandom_body = body AsyncBufferedRandom
     [M_aread, M_aread_batch, M_awrite, M_awrite_batch]"

definition asynctextiowrapper_body :: namespace where
  "asynctextiowrapper_body = body AsyncTextIOWrapper [M_aread, M_awrite]"

definition asyncsocketio_body :: namespace where
  "asyncsocketio_body = body AsyncSocketIO
     [M_init, M_read, M_readinto, M_write, M_close, M_closed, M_readable,
      M_writable, M_seekable, M_fileno]"

definition asyncstreamadapter_body :: namespace where
  "asyncstreamadapter_body = body AsyncStreamAdapter
     [M_init, M_read, M_write, M_close, M_flush, M_seek, M_tell, M_readable,
      M_writable, M_seekable, M_closed, M_aread, M_aread_batch, M_awrite,
      M_awrite_batch, M_aclose, M_aflush]"

text \<open>The whole table, in the order in which importing the package creates the classes.\<close>

definition lib_classes :: classes where
  "lib_classes =
     (class_stmt True AsyncStreamAdapter [AsyncIOBase] asyncstreamadapter_body
    \<circ> class_stmt True AsyncSocketIO [RawIOBase, AsyncIOBase] asyncsocketio_body
    \<circ> class_stmt True AsyncStringIO [StringIO, AsyncIOBase] asyncstringio_body
    \<circ> class_stmt True AsyncBytesIO [BytesIO, AsyncIOBase] asyncbytesio_body
    \<circ> class_stmt True FallbackFileIO [AsyncIOBase] fallbackfileio_body
    \<circ> class_stmt True DummyNativeFileIO [AsyncIOBase] dummynativefileio_body
    \<circ> class_stmt True AsyncTextIOWrapper [TextIOWrapper, AsyncIOBase]
        asynctextiowrapper_body
    \<circ> class_stmt True AsyncBufferedRandom [BufferedRandom, AsyncIOBase]
        asyncbufferedrandom_body
    \<circ> class_stmt True AsyncBufferedWriter [BufferedWriter, AsyncIOBase]
        asyncbufferedwriter_body
    \<circ> class_stmt True AsyncBufferedReader [BufferedReader, AsyncIOBase]
        asyncbufferedreader_body
    \<circ> class_stmt True AsyncIOBase [IOBase] asynciobase_body) io_classes"

section \<open>What the metaclass does to any class body\<close>

text \<open>The pairs \<open>__new__\<close> looks at, in its order.\<close>

definition synth_pairs :: "(mname \<times> mname) list" where
  "synth_pairs = [(M_read, M_aread), (M_aread, M_aread_batch), (M_write, M_awrite),
     (M_awrite, M_awrite_batch), (M_close, M_aclose), (M_flush, M_aflush)]"

fun synth_value :: "mname \<Rightarrow> meth \<Rightarrow> meth" where
  "synth_value M_aread f = AutoAread f"
| "synth_value M_aread_batch f = AutoAreadBatch"
| "synth_value M_awrite f = AutoAwrite f"
| "synth_value M_awrite_batch f = AutoAwriteBatch"
| "synth_value M_aclose f = AutoAclose f"
| "synth_value M_aflush f = AutoAflush f"
| "synth_value m f = f"

definition synth_source :: "mname \<Rightarrow> mname option" where
  "synth_source tgt = map_option fst (find (\<lambda>p. snd p = tgt) synth_pairs)"

lemma synth_own:
  "\<lbrakk>map_of ns m = Some f; map_of (fst acc) m = Some f\<rbrakk>
   \<Longrightarrow> map_of (fst (synth ns src tgt w acc)) m = Some f"
  by (auto simp: synth_def update_conv' split: option.split)

lemma synth_other: "m \<noteq> tgt \<Longrightarrow> map_of (fst (synth ns src tgt w acc)) m = map_of (fst acc) m"
  by (auto simp: synth_def update_conv' split: option.split)

lemma synth_same:
  "\<lbrakk>map_of ns tgt = None; map_of (fst acc) tgt = None\<rbrakk>
   \<Longrightarrow> map_of (fst (synth ns src tgt w acc)) tgt = map_option w (map_of ns src)"
  by (auto simp: synth_def update_conv' split: option.split)

lemma synth_snd:
  "snd (synth ns src tgt w acc) =
     snd acc @ (if map_of ns src \<noteq> None \<and> map_of ns tgt = None then [tgt] else [])"
  by (auto simp: synth_def split: option.splits)

lemma map_snd_filter:
  "map snd (filter P (x # xs)) = (if P x then [snd x] else []) @ map snd (filter P xs)"
  by simp

lemma meta_new_names:
  "snd (meta_new ns) =
     map snd (filter (\<lambda>(src, tgt). map_of ns src \<noteq> None \<and> map_of ns tgt = None) synth_pairs)"
  by (simp only: meta_new_def Let_def synth_snd synth_pairs_def map_snd_filter snd_conv
      filter.simps(1) list.map(1) prod.case append_Nil append_assoc append_Nil2)

lemma meta_new_own: "map_of ns m = Some f \<Longrightarrow> map_of (fst (meta_new ns)) m = Some f"
  by (simp add: meta_new_def Let_def synth_own)

lemma synth_value_eta:
  "synth_value M_aread = AutoAread" "synth_value M_aread_batch = (\<lambda>_. AutoAreadBatch)"
  "synth_value M_awrite = AutoAwrite" "synth_value M_awrite_batch = (\<lambda>_. AutoAwriteBatch)"
  "synth_value M_aclose = AutoAclose" "synth_value M_aflush = AutoAflush"
  by (rule ext, simp)+

lemma meta_new_added:
  assumes "map_of ns m = None"
  shows "map_of (fst (meta_new ns)) m =
     (case synth_source m of
        None \<Rightarrow> None
      | Some src \<Rightarrow> map_option (synth_value m) (map_of ns src))"
  using assms
  by (cases m)
    (simp_all add: meta_new_def Let_def synth_other synth_same synth_source_def synth_pairs_def
      synth_value_eta)

section \<open>The stream classes of the library\<close>

definition stream_classes :: "cname list" where
  "stream_classes = [FallbackFileIO, AsyncBytesIO, AsyncStringIO, AsyncBufferedReader,
     AsyncBufferedWriter, AsyncBufferedRandom, AsyncTextIOWrapper, AsyncSocketIO,
     AsyncStreamAdapter]"

text \<open>
  The overrides that an instance of \<open>c\<close> brings to a method pair, with \<open>f\<close> and \<open>g\<close> as
  the behaviour of the methods found, where these are not those of \<open>AsyncIOBase\<close>.
\<close>

definition halves_of ::
  "cname \<Rightarrow> mname \<Rightarrow> mname \<Rightarrow> (bool \<Rightarrow> 'a \<Rightarrow> ('s, 'b) io) \<Rightarrow> ('a \<Rightarrow> ('s, 'b) io)
     \<Rightarrow> ('s, 'a, 'b) halves" where
  "halves_of c ms ma f g =
     \<lparr>ov_sync = (if resolve lib_classes c ms = Some (Def AsyncIOBase ms) then None else Some f),
      ov_async = (if resolve lib_classes c ma = Some (Def AsyncIOBase ma) then None else Some g)\<rparr>"

text \<open>What the interface members of the library's classes resolve to.\<close>

definition interface_members :: "mname list" where
  "interface_members = [M_read, M_write, M_aread, M_awrite, M_aclose, M_aflush, M_asplice,
     M_aread_batch, M_awrite_batch]"

definition resolution_table :: "classes \<Rightarrow> (cname \<times> meth option list) list" where
  "resolution_table cs =
     map (\<lambda>c. (c, map (resolve cs c) interface_members)) (AsyncIOBase # stream_classes)"

text \<open>
  Which function each interface member of each stream class of the package resolves to: for
  instance \<open>FallbackFileIO\<close> and \<open>AsyncSocketIO\<close> read asynchronously through a synthesized
  wrapper around their own \<open>read\<close>, \<open>AsyncBufferedReader\<close> through its own \<open>aread\<close>, and the
  memory and text classes take the synthesized batch methods instead of those of
  \<open>AsyncIOBase\<close>.
\<close>

lemma resolution_facts:
  "resolution_table lib_classes =
   [(AsyncIOBase,
       [Some (Def AsyncIOBase M_read), Some (Def AsyncIOBase M_write),
        Some (Def AsyncIOBase M_aread), Some (Def AsyncIOBase M_awrite),
        Some (Def AsyncIOBase M_aclose), Some (Def AsyncIOBase M_aflush),
        Some (Def AsyncIOBase M_asplice), Some (Def AsyncIOBase M_aread_batch),
        Some (Def AsyncIOBase M_awrite_batch)]),
      (FallbackFileIO,
       [Some (Def FallbackFileIO M_read), Some (Def FallbackFileIO M_write),
        Some (AutoAread (Def FallbackFileIO M_read)),
        Some (AutoAwrite (Def FallbackFileIO M_write)),
        Some (AutoAclose (Def FallbackFileIO M_close)),
        Some (AutoAflush (Def FallbackFileIO M_flush)),
        Some (Def AsyncIOBase M_asplice), Some (Def AsyncIOBase M_aread_batch),
        Some (Def AsyncIOBase M_awrite_batch)]),
      (AsyncBytesIO,
       [Some (Def BytesIO M_read), Some (Def BytesIO M_write),
        Some (Def AsyncBytesIO M_aread), Some (Def AsyncBytesIO M_awrite),
        Some (Def AsyncBytesIO M_aclose), Some (Def AsyncBytesIO M_aflush),
        Some (Def AsyncBytesIO M_asplice), Some AutoAreadBatch,
        Some AutoAwriteBatch]),
      (AsyncStringIO,
       [Some (Def StringIO M_read), Some (Def StringIO M_write),
        Some (Def AsyncStringIO M_aread), Some (Def AsyncStringIO M_awrite),
        Some (Def AsyncStringIO M_aclose), Some (Def AsyncStringIO M_aflush),
        Some (Def AsyncStringIO M_asplice), Some AutoAreadBatch,
        Some AutoAwriteBatch]),
      (AsyncBufferedReader,
       [Some (Def BufferedReader M_read), Some (Def C_BufferedIOBase M_write),
        Some (Def AsyncBufferedReader M_aread), Some (Def AsyncIOBase M_awrite),
        Some (Def AsyncIOBase M_aclose), Some (Def AsyncIOBase M_aflush),
        Some (Def AsyncIOBase M_asplice),
        Some (Def AsyncBufferedReader M_aread_batch),
        Some (Def AsyncIOBase M_awrite_batch)]),
      (AsyncBufferedWriter,
       [Some (Def C_BufferedIOBase M_read), Some (Def BufferedWriter M_write),
        Some (Def AsyncIOBase M_aread), Some (Def AsyncBufferedWriter M_awrite),
        Some (Def AsyncIOBase M_aclose), Some (Def AsyncIOBase M_aflush),
        Some (Def AsyncIOBase M_asplice), Some (Def AsyncIOBase M_aread_batch),
        Some (Def AsyncBufferedWriter M_awrite_batch)]),
      (AsyncBufferedRandom,
       [Some (Def BufferedRandom M_read), Some (Def BufferedRandom M_write),
        Some (Def AsyncBufferedRandom M_aread),
        Some (Def AsyncBufferedRandom M_awrite),
        Some (Def AsyncIOBase M_aclose), Some (Def AsyncIOBase M_aflush),
        Some (Def AsyncIOBase M_asplice),
        Some (Def AsyncBufferedRandom M_aread_batch),
        Some (Def AsyncBufferedRandom M_awrite_batch)]),
      (AsyncTextIOWrapper,
       [Some (Def TextIOWrapper M_read), Some (Def TextIOWrapper M_write),
        Some (Def AsyncTextIOWrapper M_aread),
        Some (Def AsyncTextIOWrapper M_awrite), Some (Def AsyncIOBase M_aclose),
        Some (Def AsyncIOBase M_aflush), Some (Def AsyncIOBase M_asplice),
        Some AutoAreadBatch, Some AutoAwriteBatch]),
      (AsyncSocketIO,
       [Some (Def AsyncSocketIO M_read), Some (Def AsyncSocketIO M_write),
        Some (AutoAread (Def AsyncSocketIO M_read)),
        Some (AutoAwrite (Def AsyncSocketIO M_write)),
        Some (AutoAclose (Def AsyncSocketIO M_close)),
        Some (Def AsyncIOBase M_aflush), Some (Def AsyncIOBase M_asplice),
        Some (Def AsyncIOBase M_aread_batch),
        Some (Def AsyncIOBase M_awrite_batch)]),
      (AsyncStreamAdapter,
       [Some (Def AsyncStreamAdapter M_read),
        Some (Def AsyncStreamAdapter M_write),
        Some (Def AsyncStreamAdapter M_aread),
        Some (Def AsyncStreamAdapter M_awrite),
        Some (Def AsyncStreamAdapter M_aclose),
        Some (Def AsyncStreamAdapter M_aflush),
        Some (Def AsyncIOBase M_asplice),
        Some (Def AsyncStreamAdapter M_aread_batch),
        Some (Def AsyncStreamAdapter M_awrite_batch)])]"
  by code_simp

lemmas resolve_lib =
  resolution_facts [unfolded resolution_table_def stream_classes_def interface_members_def
    list.map list.inject prod.inject, simplified]

lemma halves_of_stream_class:
  assumes "c \<in> set stream_classes"
  shows "ov_sync (halves_of c M_read M_aread f g) \<noteq> None \<or>
         ov_async (halves_of c M_read M_aread f g) \<noteq> None"
    and "ov_sync (halves_of c M_write M_awrite f' g') \<noteq> None \<or>
         ov_async (halves_of c M_write M_awrite f' g') \<noteq> None"
  using assms by (auto simp: stream_classes_def halves_of_def resolve_lib)

lemma halves_of_asynciobase:
  "ov_sync (halves_of AsyncIOBase M_read M_aread f g) = None"
  "ov_async (halves_of AsyncIOBase M_read M_aread f g) = None"
  "ov_sync (halves_of AsyncIOBase M_write M_awrite f' g') = None"
  "ov_async (halves_of AsyncIOBase M_write M_awrite f' g') = None"
  by (simp_all add: halves_of_def resolve_lib)

section \<open>Properties\<close>

text \<open>
  C6: the metaclass, for every class body: a name the body binds keeps the body's function; a
  name the body lacks is bound exactly if it is the async counterpart of a function the body
  binds (\<open>aread\<close> of \<open>read\<close>, \<open>aread_batch\<close> of an \<open>aread\<close> written in the body, and so on),
  and then to the wrapper around that function; the log lists exactly the names added.
\<close>

theorem metaclass_functional:
  "map_of (fst (meta_new ns)) m =
     (case map_of ns m of
        Some f \<Rightarrow> Some f
      | None \<Rightarrow> (case synth_source m of
                   None \<Rightarrow> None
                 | Some src \<Rightarrow> map_option (synth_value m) (map_of ns src))) \<and>
   snd (meta_new ns) =
     map snd (filter (\<lambda>(src, tgt). map_of ns src \<noteq> None \<and> map_of ns tgt = None) synth_pairs)"
  using meta_new_own [of ns m] meta_new_added [of ns m] meta_new_names [of ns]
  by (cases "map_of ns m") simp_all

text \<open>
  Every stream class of the package satisfies the \<open>AsyncIOStream\<close> protocol: its instances
  have \<open>aread\<close>, \<open>awrite\<close>, \<open>aclose\<close>, \<open>aflush\<close> and \<open>asplice\<close>, own, synthesized or inherited.
\<close>

lemma library_classes_conform: "list_all (conforms lib_classes) stream_classes"
  by (simp add: stream_classes_def conforms_def resolve_lib)


text \<open>
  For an instance of \<open>AsyncIOBase\<close> itself, or of a subclass that overrides neither half,
  a sync \<open>read\<close> or \<open>write\<close> off the event loop never returns: no number of nested calls
  suffices.  On a running loop it raises \<open>RuntimeError\<close> at once.
\<close>

lemma asynciobase_read_diverges:
  "base_read k (halves_of AsyncIOBase M_read M_aread f g) False n s = None \<and>
   base_write k (halves_of AsyncIOBase M_write M_awrite f' g') False d s = None \<and>
   base_read (Suc k) (halves_of AsyncIOBase M_read M_aread f g) True n s =
     Some (Inl (RuntimeError
       ''Cannot call sync read() inside an active event loop. Use 'await aread()'.''), s)"
  by (simp add: base_read_def base_write_def run_diverges halves_of_asynciobase)

end
