(* ===== verification/Stream_Contracts.thy ===== *)
theory Stream_Contracts
  imports Stream_Core
begin

text \<open>
  The contracts between the streams and the code that drives them.  A \<open>chunk_source\<close> hands
  out what is left of its data in order, possibly less than asked (a socket); an
  \<open>exact_source\<close> hands out exactly what is asked as long as there is data (memory, files).
  A \<open>chunk_sink\<close> appends a non-empty prefix of what it is given and says how much; an
  \<open>exact_sink\<close> takes everything.  \<open>mk\<close> is the kind of data: \<open>Bytes\<close> or \<open>Str\<close>.  \<open>pipe\<close> and \<open>exact_pipe\<close> put a source and a sink together,
  as a splice does.
\<close>

section \<open>Sources\<close>

text \<open>Cutting data into the pieces that a list of sizes asks for.\<close>

fun cut :: "nat list \<Rightarrow> 'b list \<Rightarrow> 'b list list" where
  "cut [] xs = []"
| "cut (n # ns) xs = take n xs # cut ns (drop n xs)"

lemma concat_cut: "concat (cut ns xs) = take (sum_list ns) xs"
  by (induction ns xs rule: cut.induct) (simp_all add: take_add)

locale chunk_source =
  fixes mk :: "'b list \<Rightarrow> pydata"
    and rd :: "int \<Rightarrow> ('s, pydata) io"
    and rest :: "'s \<Rightarrow> 'b list"
    and src_ok :: "'s \<Rightarrow> bool"
  assumes rd_law: "src_ok s \<Longrightarrow> 0 \<le> n \<Longrightarrow>
      \<exists>k s'. rd n s = (Inr (mk (take k (rest s))), s') \<and> k \<le> nat n \<and>
             (0 < n \<longrightarrow> rest s \<noteq> [] \<longrightarrow> 0 < k) \<and> rest s' = drop k (rest s) \<and> src_ok s'"
begin

text \<open>A batch read hands out consecutive pieces, none longer than asked, none lost.\<close>

lemma loop_aread_concat:
  assumes "src_ok s" and "\<forall>sp \<in> set specs. 0 \<le> spec_size sp"
  shows "\<exists>ds s'. loop_aread rd specs s = (Inr (map mk ds), s') \<and>
           list_all2 (\<lambda>d sp. length d \<le> nat (spec_size sp)) ds specs \<and>
           concat ds @ rest s' = rest s \<and> src_ok s'"
  using assms
proof (induction specs arbitrary: s)
  case Nil
  then show ?case by (simp add: loop_aread_def io_defs)
next
  case (Cons sp specs)
  then obtain k s1 where one: "rd (spec_size sp) s = (Inr (mk (take k (rest s))), s1)"
    "k \<le> nat (spec_size sp)" "rest s1 = drop k (rest s)" "src_ok s1"
    using rd_law [of s "spec_size sp"] by auto
  from Cons.IH [OF one(4)] Cons.prems obtain ds s' where
    more: "loop_aread rd specs s1 = (Inr (map mk ds), s')"
    "list_all2 (\<lambda>d sp. length d \<le> nat (spec_size sp)) ds specs"
    "concat ds @ rest s' = rest s1" "src_ok s'"
    by auto
  have "loop_aread rd (sp # specs) s = (Inr (map mk (take k (rest s) # ds)), s')"
    using one(1) more(1) by (simp add: loop_aread_def io_defs)
  then show ?case
    using one more by (intro exI [of _ "take k (rest s) # ds"] exI [of _ s']) auto
qed

end

locale exact_source = chunk_source +
  assumes mk_inj: "mk a = mk b \<Longrightarrow> a = b"
    and rd_exact: "src_ok s \<Longrightarrow> 0 \<le> n \<Longrightarrow> fst (rd n s) = Inr (mk (take (nat n) (rest s)))"
begin

lemma rd_exact_step:
  assumes "src_ok s" and "0 \<le> n"
  shows "\<exists>s'. rd n s = (Inr (mk (take (nat n) (rest s))), s') \<and>
              rest s' = drop (nat n) (rest s) \<and> src_ok s'"
proof -
  from rd_law [OF assms] obtain k s' where k:
    "rd n s = (Inr (mk (take k (rest s))), s')" "rest s' = drop k (rest s)" "src_ok s'"
    by auto
  with rd_exact [OF assms] have eq: "take k (rest s) = take (nat n) (rest s)"
    by (auto dest: mk_inj)
  then have "drop k (rest s) = drop (nat n) (rest s)"
    by (metis append_take_drop_id same_append_eq)
  with k eq show ?thesis by auto
qed

lemma loop_aread_cut:
  assumes "src_ok s" and "\<forall>sp \<in> set specs. 0 \<le> spec_size sp"
  shows "\<exists>s'. loop_aread rd specs s =
             (Inr (map mk (cut (map (nat \<circ> spec_size) specs) (rest s))), s') \<and>
           rest s' = drop (sum_list (map (nat \<circ> spec_size) specs)) (rest s) \<and> src_ok s'"
  using assms
proof (induction specs arbitrary: s)
  case Nil
  then show ?case by (simp add: loop_aread_def io_defs)
next
  case (Cons sp specs)
  then obtain s1 where one:
    "rd (spec_size sp) s = (Inr (mk (take (nat (spec_size sp)) (rest s))), s1)"
    "rest s1 = drop (nat (spec_size sp)) (rest s)" "src_ok s1"
    using rd_exact_step [of s "spec_size sp"] by auto
  from Cons.IH [OF one(3)] Cons.prems one(1,2) show ?case
    by (auto simp: loop_aread_def io_defs add.commute)
qed

end

section \<open>Sinks\<close>

locale chunk_sink =
  fixes mk :: "'b list \<Rightarrow> pydata"
    and wr :: "pydata \<Rightarrow> ('t, int) io"
    and out :: "'t \<Rightarrow> 'b list"
    and snk_ok :: "'t \<Rightarrow> bool"
  assumes wr_law: "snk_ok t \<Longrightarrow>
      \<exists>k t'. wr (mk b) t = (Inr (int k), t') \<and> k \<le> length b \<and> (b \<noteq> [] \<longrightarrow> 0 < k) \<and>
             out t' = out t @ take k b \<and> snk_ok t'"

locale exact_sink = chunk_sink +
  assumes wr_exact: "snk_ok t \<Longrightarrow> fst (wr (mk b) t) = Inr (int (length b))"
begin

lemma wr_exact_step:
  "snk_ok t \<Longrightarrow> \<exists>t'. wr (mk b) t = (Inr (int (length b)), t') \<and> out t' = out t @ b \<and> snk_ok t'"
  using wr_law [of t b] wr_exact [of t b] by auto

lemma loop_awrite_concat:
  assumes "snk_ok t"
  shows "\<exists>t'. loop_awrite wr (map mk chunks) t = (Inr (map (int \<circ> length) chunks), t') \<and>
              out t' = out t @ concat chunks \<and> snk_ok t'"
  using assms
proof (induction chunks arbitrary: t)
  case Nil
  then show ?case by (simp add: loop_awrite_def io_defs)
next
  case (Cons c chunks)
  then obtain t1 where one: "wr (mk c) t = (Inr (int (length c)), t1)"
    "out t1 = out t @ c" "snk_ok t1"
    using wr_exact_step [of t c] by auto
  from Cons.IH [OF one(3)] one(1,2) show ?case
    by (auto simp: loop_awrite_def io_defs)
qed

end

section \<open>A source and a sink\<close>

text \<open>
  One \<open>asplice\<close> consumes a chunk of the source and appends a prefix of that chunk to the
  target: all of it when the sink is exact.  It returns 0 exactly at the end of the source.
\<close>

locale pipe = src: chunk_source mk rd rest src_ok + snk: chunk_sink mk wr out snk_ok
  for mk :: "'b list \<Rightarrow> pydata" and rd :: "int \<Rightarrow> ('s, pydata) io" and rest src_ok
    and wr :: "pydata \<Rightarrow> ('t, int) io" and out snk_ok +
  assumes mk_truthy: "truthy (mk b) = (b \<noteq> [])"
begin

lemma plain_transfer:
  assumes "src_ok s" and "snk_ok t" and tgt: "s_awrite tgt = Some (\<lambda>d. on_snd (wr d))"
  shows "\<exists>k m s' t'. plain_asplice (\<lambda>n. on_fst (rd n)) (ObjTarget tgt) sz (s, t) =
             (Inr (int m), (s', t')) \<and>
           m \<le> k \<and> k \<le> nat (chunk_size sz) \<and> k \<le> length (rest s) \<and>
           rest s' = drop k (rest s) \<and> out t' = out t @ take m (rest s) \<and>
           (m = 0) = (rest s = []) \<and> src_ok s' \<and> snk_ok t'"
proof -
  have pos: "0 < chunk_size sz" by (simp add: chunk_size_def)
  then obtain k0 s' where rd: "rd (chunk_size sz) s = (Inr (mk (take k0 (rest s))), s')"
    "k0 \<le> nat (chunk_size sz)" "rest s \<noteq> [] \<longrightarrow> 0 < k0" "rest s' = drop k0 (rest s)" "src_ok s'"
    using src.rd_law [OF assms(1), of "chunk_size sz"] by auto
  define k where "k = min k0 (length (rest s))"
  have k: "take k0 (rest s) = take k (rest s)" "drop k0 (rest s) = drop k (rest s)"
    "k \<le> nat (chunk_size sz)" "k \<le> length (rest s)" "rest s \<noteq> [] \<longrightarrow> 0 < k"
    using rd(2,3) by (auto simp: k_def min_def)
  show ?thesis
  proof (cases "rest s = []")
    case True
    with rd assms(2) show ?thesis
      by (intro exI [of _ 0] exI [of _ 0] exI [of _ s'] exI [of _ t])
        (simp add: plain_asplice_def io_defs mk_truthy)
  next
    case False
    with k obtain m t' where wr: "wr (mk (take k (rest s))) t = (Inr (int m), t')"
      "m \<le> k" "0 < m" "out t' = out t @ take m (take k (rest s))" "snk_ok t'"
      using snk.wr_law [OF assms(2), of "take k (rest s)"] by auto
    have ne: "take k (rest s) \<noteq> []" using False k(5) by simp
    have "plain_asplice (\<lambda>n. on_fst (rd n)) (ObjTarget tgt) sz (s, t) = (Inr (int m), (s', t'))"
      using rd(1) wr(1) k(1) tgt ne by (simp add: plain_asplice_def io_defs mk_truthy)
    with rd(4,5) k wr False show ?thesis
      by (intro exI [of _ k] exI [of _ m] exI [of _ s'] exI [of _ t']) (simp add: min_def)
  qed
qed

end

locale exact_pipe = pipe + snk: exact_sink mk wr out snk_ok
begin

lemma plain_transfer_exact:
  assumes "src_ok s" and "snk_ok t" and tgt: "s_awrite tgt = Some (\<lambda>d. on_snd (wr d))"
  shows "\<exists>m s' t'. plain_asplice (\<lambda>n. on_fst (rd n)) (ObjTarget tgt) sz (s, t) =
             (Inr (int m), (s', t')) \<and> m \<le> nat (chunk_size sz) \<and>
           rest s' = drop m (rest s) \<and> out t' @ rest s' = out t @ rest s \<and>
           (m = 0) = (rest s = []) \<and> src_ok s' \<and> snk_ok t'"
proof -
  have pos: "0 < chunk_size sz" by (simp add: chunk_size_def)
  then obtain k s' where rd: "rd (chunk_size sz) s = (Inr (mk (take k (rest s))), s')"
    "k \<le> nat (chunk_size sz)" "rest s \<noteq> [] \<longrightarrow> 0 < k" "rest s' = drop k (rest s)" "src_ok s'"
    using src.rd_law [OF assms(1), of "chunk_size sz"] by auto
  let ?c = "take k (rest s)"
  show ?thesis
  proof (cases "rest s = []")
    case True
    with rd assms(2) show ?thesis
      by (intro exI [of _ 0] exI [of _ s'] exI [of _ t]) (simp add: plain_asplice_def io_defs mk_truthy)
  next
    case False
    obtain t' where wr: "wr (mk ?c) t = (Inr (int (length ?c)), t')" "out t' = out t @ ?c"
      "snk_ok t'"
      using snk.wr_exact_step [OF assms(2), of ?c] by auto
    have ne: "?c \<noteq> []" using False rd(3) by simp
    have "plain_asplice (\<lambda>n. on_fst (rd n)) (ObjTarget tgt) sz (s, t) =
            (Inr (int (length ?c)), (s', t'))"
      using rd(1) wr(1) tgt ne by (simp add: plain_asplice_def io_defs mk_truthy)
    with rd wr False show ?thesis
      by (intro exI [of _ "length ?c"] exI [of _ s'] exI [of _ t']) (auto simp: min_def)
  qed
qed

end

end
