(* ===== verification/Memory_Streams.thy ===== *)
theory Memory_Streams
  imports Stream_Contracts
begin

text \<open>
  \<open>py_native_io/memory.py\<close>: \<open>AsyncBytesIO\<close> and \<open>AsyncStringIO\<close>, over a model of the
  standard library's \<open>io.BytesIO\<close> and \<open>io.StringIO\<close> (buffer, position, closed flag).  The
  async methods run the sync ones in place; both classes are exact sources, and exact sinks
  while positioned at their end.
\<close>

section \<open>io.BytesIO and io.StringIO\<close>

record 'b memfile =
  m_buf :: "'b list"
  m_pos :: nat
  m_closed :: bool

type_synonym bytesio = "byte memfile"
type_synonym stringio = "nat memfile"

definition new_memfile :: "'b list \<Rightarrow> 'b memfile" where
  "new_memfile b = \<lparr>m_buf = b, m_pos = 0, m_closed = False\<rparr>"

text \<open>Every operation but \<open>close\<close> first checks that the stream is open.\<close>

definition mem_open ::
  "(('b, 'x) memfile_scheme, 'a) io \<Rightarrow> (('b, 'x) memfile_scheme, 'a) io" where
  "mem_open m = (\<lambda>s. if m_closed s then (Inl (ValueError ''I/O operation on closed file.''), s)
                     else m s)"

definition mem_rest :: "('b, 'x) memfile_scheme \<Rightarrow> 'b list" where
  "mem_rest s = drop (m_pos s) (m_buf s)"

definition mem_take ::
  "('b list \<Rightarrow> pydata) \<Rightarrow> int \<Rightarrow> (('b, 'x) memfile_scheme, pydata) io" where
  "mem_take mk n = (\<lambda>s.
     let out = (if n < 0 then mem_rest s else take (nat n) (mem_rest s))
     in (Inr (mk out), s\<lparr>m_pos := m_pos s + length out\<rparr>))"

text \<open>A write of nothing changes nothing, not even when the position is beyond the end.\<close>

definition mem_put :: "'b \<Rightarrow> 'b list \<Rightarrow> (('b, 'x) memfile_scheme, int) io" where
  "mem_put z b = (\<lambda>s.
     if b = [] then (Inr 0, s)
     else (Inr (int (length b)),
           s\<lparr>m_buf := overwrite z (m_pos s) b (m_buf s), m_pos := m_pos s + length b\<rparr>))"

definition bytesio_read :: "int \<Rightarrow> (bytesio, pydata) io" where
  "bytesio_read n = mem_open (mem_take Bytes n)"

fun bytesio_write :: "pydata \<Rightarrow> (bytesio, int) io" where
  "bytesio_write (Bytes b) = mem_open (mem_put 0 b)"
| "bytesio_write (Str t) =
     mem_open (io_raise (TypeError ''a bytes-like object is required, not 'str' ''))"

definition stringio_read :: "int \<Rightarrow> (stringio, pydata) io" where
  "stringio_read n = mem_open (mem_take Str n)"

fun stringio_write :: "pydata \<Rightarrow> (stringio, int) io" where
  "stringio_write (Str t) = mem_open (mem_put 0 t)"
| "stringio_write (Bytes b) = io_raise (TypeError ''string argument expected, got 'bytes' '')"

definition mem_close :: "('b memfile, unit) io" where
  "mem_close = (\<lambda>s. (Inr (), s\<lparr>m_buf := [], m_closed := True\<rparr>))"

definition mem_flush :: "('b memfile, unit) io" where
  "mem_flush = mem_open (io_return ())"

definition mem_getvalue :: "('b list \<Rightarrow> pydata) \<Rightarrow> ('b memfile, pydata) io" where
  "mem_getvalue mk = mem_open (\<lambda>s. (Inr (mk (m_buf s)), s))"

text \<open>\<open>BytesIO.seek\<close> clamps relative targets at 0; \<open>StringIO.seek\<close> refuses relative offsets.\<close>

definition bytesio_seek :: "int \<Rightarrow> int \<Rightarrow> (bytesio, int) io" where
  "bytesio_seek off whence = mem_open (\<lambda>s.
     if whence = 0 then
       (if off < 0 then (Inl (ValueError ''negative seek value''), s)
        else (Inr off, s\<lparr>m_pos := nat off\<rparr>))
     else if whence = 1 then
       (let p = max 0 (int (m_pos s) + off) in (Inr p, s\<lparr>m_pos := nat p\<rparr>))
     else if whence = 2 then
       (let p = max 0 (int (length (m_buf s)) + off) in (Inr p, s\<lparr>m_pos := nat p\<rparr>))
     else (Inl (ValueError ''invalid whence''), s))"

definition stringio_seek :: "int \<Rightarrow> int \<Rightarrow> (stringio, int) io" where
  "stringio_seek off whence = mem_open (\<lambda>s.
     if whence \<noteq> 0 \<and> whence \<noteq> 1 \<and> whence \<noteq> 2 then (Inl (ValueError ''Invalid whence''), s)
     else if off < 0 \<and> whence = 0 then (Inl (ValueError ''Negative seek position''), s)
     else if whence \<noteq> 0 \<and> off \<noteq> 0 then
       (Inl (OSError ''Can't do nonzero cur-relative seeks''), s)
     else
       (let p = (if whence = 0 then nat off else if whence = 1 then m_pos s
                 else length (m_buf s))
        in (Inr (int p), s\<lparr>m_pos := p\<rparr>)))"

section \<open>AsyncBytesIO and AsyncStringIO\<close>

definition abytesio_aread :: "int \<Rightarrow> (bytesio, pydata) io" where
  "abytesio_aread sz = bytesio_read sz"

definition abytesio_awrite :: "pydata \<Rightarrow> (bytesio, int) io" where
  "abytesio_awrite b = bytesio_write b"

definition abytesio_aclose :: "(bytesio, unit) io" where
  "abytesio_aclose = mem_close"

definition abytesio_aflush :: "(bytesio, unit) io" where
  "abytesio_aflush = mem_flush"

definition astringio_aread :: "int \<Rightarrow> (stringio, pydata) io" where
  "astringio_aread sz = stringio_read sz"

definition astringio_awrite :: "pydata \<Rightarrow> (stringio, int) io" where
  "astringio_awrite t = stringio_write t"

definition astringio_aclose :: "(stringio, unit) io" where
  "astringio_aclose = mem_close"

definition astringio_aflush :: "(stringio, unit) io" where
  "astringio_aflush = mem_flush"

text \<open>
  \<open>asplice\<close> of the two classes: the stream itself is the first component of the state, the
  target lives in the whole of it.
\<close>

definition abytesio_asplice ::
  "(bytesio \<times> 't) splice_target \<Rightarrow> int \<Rightarrow> (bytesio \<times> 't, int) io" where
  "abytesio_asplice target sz = plain_asplice (\<lambda>n. on_fst (abytesio_aread n)) target sz"

definition astringio_asplice ::
  "(stringio \<times> 't) splice_target \<Rightarrow> int \<Rightarrow> (stringio \<times> 't, int) io" where
  "astringio_asplice target sz = plain_asplice (\<lambda>n. on_fst (astringio_aread n)) target sz"

text \<open>
  How the two classes look as the target of a splice from another object.  \<open>fileno\<close> is
  inherited from \<open>io.IOBase\<close> and raises.
\<close>

definition abytesio_target :: "('s \<times> bytesio) target_ops" where
  "abytesio_target = \<lparr>
     s_write = Some (\<lambda>_ b. on_snd (bytesio_write b)),
     s_awrite = Some (\<lambda>b. on_snd (abytesio_awrite b)),
     s_fileno = Some (io_raise (UnsupportedOperation ''fileno''))\<rparr>"

definition astringio_target :: "('s \<times> stringio) target_ops" where
  "astringio_target = \<lparr>
     s_write = Some (\<lambda>_ b. on_snd (stringio_write b)),
     s_awrite = Some (\<lambda>b. on_snd (astringio_awrite b)),
     s_fileno = Some (io_raise (UnsupportedOperation ''fileno''))\<rparr>"

text \<open>The two classes as stream objects on their own.\<close>

definition abytesio_stream :: "bytesio stream" where
  "abytesio_stream = \<lparr>
     s_write = Some (\<lambda>_. bytesio_write), s_awrite = Some abytesio_awrite,
     s_fileno = Some (io_raise (UnsupportedOperation ''fileno'')),
     s_read = Some (\<lambda>_. bytesio_read), s_close = Some mem_close, s_flush = Some mem_flush,
     s_aread = Some abytesio_aread, s_aclose = Some abytesio_aclose,
     s_aflush = Some abytesio_aflush,
     s_aread_batch = Some (loop_aread abytesio_aread),
     s_awrite_batch = Some (loop_awrite abytesio_awrite),
     s_asplice = Some (plain_asplice abytesio_aread)\<rparr>"

definition astringio_stream :: "stringio stream" where
  "astringio_stream = \<lparr>
     s_write = Some (\<lambda>_. stringio_write), s_awrite = Some astringio_awrite,
     s_fileno = Some (io_raise (UnsupportedOperation ''fileno'')),
     s_read = Some (\<lambda>_. stringio_read), s_close = Some mem_close, s_flush = Some mem_flush,
     s_aread = Some astringio_aread, s_aclose = Some astringio_aclose,
     s_aflush = Some astringio_aflush,
     s_aread_batch = Some (loop_aread astringio_aread),
     s_awrite_batch = Some (loop_awrite astringio_awrite),
     s_asplice = Some (plain_asplice astringio_aread)\<rparr>"

lemmas mem_defs = mem_open_def mem_take_def mem_put_def mem_rest_def mem_close_def mem_flush_def
  mem_getvalue_def bytesio_read_def stringio_read_def bytesio_seek_def stringio_seek_def
  abytesio_aread_def abytesio_awrite_def abytesio_aclose_def abytesio_aflush_def
  astringio_aread_def astringio_awrite_def astringio_aclose_def astringio_aflush_def

section \<open>Invariant and contracts\<close>

text \<open>A closed memory stream holds no data; every operation keeps it closed.\<close>

definition mem_inv :: "'b memfile \<Rightarrow> bool" where
  "mem_inv s = (m_closed s \<longrightarrow> m_buf s = [])"

definition mem_at_end :: "('b, 'x) memfile_scheme \<Rightarrow> bool" where
  "mem_at_end s = (\<not> m_closed s \<and> m_pos s = length (m_buf s))"

definition mem_is_open :: "('b, 'x) memfile_scheme \<Rightarrow> bool" where
  "mem_is_open s = (\<not> m_closed s)"

lemma mem_take_exact:
  assumes "0 \<le> n"
  shows "\<exists>s'. mem_take mk n s = (Inr (mk (take (nat n) (mem_rest s))), s') \<and>
              mem_rest s' = drop (nat n) (mem_rest s) \<and> m_closed s' = m_closed s"
  using assms
  by (auto simp: mem_take_def mem_rest_def Let_def min_def not_less add.commute)

interpretation bytes_src: exact_source Bytes abytesio_aread mem_rest mem_is_open
proof
  fix s :: bytesio and n :: int
  assume ok: "mem_is_open s" and n: "0 \<le> n"
  from mem_take_exact [OF n, of Bytes s] obtain s' where s':
    "mem_take Bytes n s = (Inr (Bytes (take (nat n) (mem_rest s))), s')"
    "mem_rest s' = drop (nat n) (mem_rest s)" "m_closed s' = m_closed s" by blast
  have rd: "abytesio_aread n s = mem_take Bytes n s"
    using ok by (simp add: abytesio_aread_def bytesio_read_def mem_open_def mem_is_open_def)
  show "\<exists>k s'. abytesio_aread n s = (Inr (Bytes (take k (mem_rest s))), s') \<and> k \<le> nat n \<and>
          (0 < n \<longrightarrow> mem_rest s \<noteq> [] \<longrightarrow> 0 < k) \<and> mem_rest s' = drop k (mem_rest s) \<and>
          mem_is_open s'"
    using rd s' ok by (intro exI [of _ "nat n"] exI [of _ s']) (simp add: mem_is_open_def)
  show "fst (abytesio_aread n s) = Inr (Bytes (take (nat n) (mem_rest s)))"
    using rd s' by simp
qed simp

interpretation text_src: exact_source Str astringio_aread mem_rest mem_is_open
proof
  fix s :: stringio and n :: int
  assume ok: "mem_is_open s" and n: "0 \<le> n"
  from mem_take_exact [OF n, of Str s] obtain s' where s':
    "mem_take Str n s = (Inr (Str (take (nat n) (mem_rest s))), s')"
    "mem_rest s' = drop (nat n) (mem_rest s)" "m_closed s' = m_closed s" by blast
  have rd: "astringio_aread n s = mem_take Str n s"
    using ok by (simp add: astringio_aread_def stringio_read_def mem_open_def mem_is_open_def)
  show "\<exists>k s'. astringio_aread n s = (Inr (Str (take k (mem_rest s))), s') \<and> k \<le> nat n \<and>
          (0 < n \<longrightarrow> mem_rest s \<noteq> [] \<longrightarrow> 0 < k) \<and> mem_rest s' = drop k (mem_rest s) \<and>
          mem_is_open s'"
    using rd s' ok by (intro exI [of _ "nat n"] exI [of _ s']) (simp add: mem_is_open_def)
  show "fst (astringio_aread n s) = Inr (Str (take (nat n) (mem_rest s)))"
    using rd s' by simp
qed simp

lemma mem_put_at_end:
  assumes "mem_at_end s"
  shows "\<exists>s'. mem_open (mem_put z b) s = (Inr (int (length b)), s') \<and>
              m_buf s' = m_buf s @ b \<and> mem_at_end s'"
  using assms by (cases "b = []") (auto simp: mem_open_def mem_put_def mem_at_end_def)

interpretation bytes_snk: exact_sink Bytes abytesio_awrite m_buf mem_at_end
proof
  fix t :: bytesio and b :: bytes
  assume "mem_at_end t"
  from mem_put_at_end [OF this, of 0 b] obtain t' where t':
    "abytesio_awrite (Bytes b) t = (Inr (int (length b)), t')"
    "m_buf t' = m_buf t @ b" "mem_at_end t'" by (auto simp: abytesio_awrite_def)
  then show "\<exists>k t'. abytesio_awrite (Bytes b) t = (Inr (int k), t') \<and> k \<le> length b \<and>
               (b \<noteq> [] \<longrightarrow> 0 < k) \<and> m_buf t' = m_buf t @ take k b \<and> mem_at_end t'"
    by (intro exI [of _ "length b"] exI [of _ t']) simp
  from t' show "fst (abytesio_awrite (Bytes b) t) = Inr (int (length b))" by simp
qed

interpretation text_snk: exact_sink Str astringio_awrite m_buf mem_at_end
proof
  fix t :: stringio and b :: pstr
  assume "mem_at_end t"
  from mem_put_at_end [OF this, of 0 b] obtain t' where t':
    "astringio_awrite (Str b) t = (Inr (int (length b)), t')"
    "m_buf t' = m_buf t @ b" "mem_at_end t'" by (auto simp: astringio_awrite_def)
  then show "\<exists>k t'. astringio_awrite (Str b) t = (Inr (int k), t') \<and> k \<le> length b \<and>
               (b \<noteq> [] \<longrightarrow> 0 < k) \<and> m_buf t' = m_buf t @ take k b \<and> mem_at_end t'"
    by (intro exI [of _ "length b"] exI [of _ t']) simp
  from t' show "fst (astringio_awrite (Str b) t) = Inr (int (length b))" by simp
qed

interpretation bytes_pipe: exact_pipe Bytes abytesio_aread mem_rest mem_is_open
  abytesio_awrite m_buf mem_at_end
  by unfold_locales simp

interpretation text_pipe: exact_pipe Str astringio_aread mem_rest mem_is_open
  astringio_awrite m_buf mem_at_end
  by unfold_locales simp

section \<open>Properties\<close>

text \<open>
  A write to an open \<open>AsyncBytesIO\<close> at any position, even beyond the end, can be read back
  after seeking to where it began; the position ends behind it, the bytes before and behind it
  are what they were, and a gap is filled with zeros.
\<close>

lemma bytesio_write_seek_read:
  assumes "mem_is_open s" and "b \<noteq> []"
  shows "\<exists>s1 s2.
     abytesio_awrite (Bytes b) s = (Inr (int (length b)), s1) \<and>
     m_pos s1 = m_pos s + length b \<and>
     m_buf s1 = take (m_pos s) (m_buf s) @ replicate (m_pos s - length (m_buf s)) 0 @ b @
                drop (m_pos s + length b) (m_buf s) \<and>
     bytesio_seek (int (m_pos s)) 0 s1 = (Inr (int (m_pos s)), s2) \<and>
     fst (abytesio_aread (int (length b)) s2) = Inr (Bytes b)"
proof -
  let ?s1 = "s\<lparr>m_buf := overwrite 0 (m_pos s) b (m_buf s), m_pos := m_pos s + length b\<rparr>"
  have "abytesio_awrite (Bytes b) s = (Inr (int (length b)), ?s1)"
    using assms by (simp add: mem_defs mem_is_open_def)
  moreover have "bytesio_seek (int (m_pos s)) 0 ?s1 = (Inr (int (m_pos s)), ?s1\<lparr>m_pos := m_pos s\<rparr>)"
    using assms by (simp add: mem_defs mem_is_open_def)
  moreover have "fst (abytesio_aread (int (length b)) (?s1\<lparr>m_pos := m_pos s\<rparr>)) = Inr (Bytes b)"
    using assms by (simp add: mem_defs mem_is_open_def read_back_overwrite)
  ultimately show ?thesis
    by (intro exI [of _ ?s1] exI [of _ "?s1\<lparr>m_pos := m_pos s\<rparr>"]) (simp add: overwrite_def)
qed

text \<open>
  A batch read of an \<open>AsyncBytesIO\<close> returns consecutive pieces of what is left, of the
  sizes asked for, in order.  The offset of an \<open>(offset, size)\<close> element has no effect: the
  batch is that of the sizes alone.
\<close>

lemma bytesio_batch_read:
  assumes "mem_is_open s" and "list_all (\<lambda>sp. 0 \<le> spec_size sp) specs"
  shows "\<exists>s'. loop_aread abytesio_aread specs s =
             (Inr (map Bytes (cut (map (nat \<circ> spec_size) specs) (mem_rest s))), s') \<and>
           mem_rest s' = drop (sum_list (map (nat \<circ> spec_size) specs)) (mem_rest s) \<and>
           loop_aread abytesio_aread (map (Size \<circ> spec_size) specs) s =
             loop_aread abytesio_aread specs s"
proof -
  have "loop_aread abytesio_aread (map (Size \<circ> spec_size) specs) s = loop_aread abytesio_aread specs s"
    by (simp add: loop_aread_def io_map_map)
  with bytes_src.loop_aread_cut [OF assms(1), of specs] assms(2) show ?thesis
    by (auto simp: list_all_iff)
qed

text \<open>
  A batch write to an \<open>AsyncBytesIO\<close> at its end appends the concatenation of the chunks and
  returns their lengths, so that it leaves what one write of the whole would leave.
\<close>

lemma bytesio_batch_write:
  assumes "mem_at_end s"
  shows "\<exists>s'. loop_awrite abytesio_awrite (map Bytes chunks) s =
             (Inr (map (int \<circ> length) chunks), s') \<and>
           m_buf s' = m_buf s @ concat chunks \<and>
           m_buf s' = m_buf (snd (abytesio_awrite (Bytes (concat chunks)) s))"
proof -
  from bytes_snk.loop_awrite_concat [OF assms, of chunks] obtain s' where s':
    "loop_awrite abytesio_awrite (map Bytes chunks) s = (Inr (map (int \<circ> length) chunks), s')"
    "m_buf s' = m_buf s @ concat chunks" by blast
  from bytes_snk.wr_exact_step [OF assms, of "concat chunks"] s' show ?thesis by auto
qed

text \<open>
  C8: \<open>AsyncBytesIO.asplice\<close> to another \<open>AsyncBytesIO\<close> at its end moves one chunk and conserves
  the data: what the target holds followed by what is left in the source is unchanged; it
  moves at most the size asked for (64 KiB for a size that is not positive) and returns how
  many bytes it moved, 0 exactly if the source is at its end.
\<close>

theorem bytesio_asplice_conserves:
  assumes "mem_is_open s" and "mem_at_end t"
  shows "\<exists>m s' t'. abytesio_asplice (ObjTarget abytesio_target) sz (s, t) = (Inr (int m), (s', t')) \<and>
           m \<le> nat (chunk_size sz) \<and> mem_rest s' = drop m (mem_rest s) \<and>
           m_buf t' @ mem_rest s' = m_buf t @ mem_rest s \<and> (m = 0) = (mem_rest s = [])"
  using bytes_pipe.plain_transfer_exact [OF assms, of abytesio_target sz]
  by (auto simp: abytesio_asplice_def abytesio_target_def)

theorem bytesio_asplice_conserves_witness:
  "\<exists>m s' t'. abytesio_asplice (ObjTarget abytesio_target) 2 (new_memfile [1, 2, 3], new_memfile []) =
     (Inr (int m), (s', t')) \<and> m \<le> 2 \<and> m \<noteq> 0 \<and> m_buf t' @ mem_rest s' = [1, 2, 3]"
proof -
  have "mem_is_open (new_memfile [1, 2, 3 :: byte])" "mem_at_end (new_memfile ([] :: byte list))"
    by (simp_all add: mem_is_open_def mem_at_end_def new_memfile_def)
  from bytesio_asplice_conserves [OF this, of 2] obtain m s' t' where m:
    "abytesio_asplice (ObjTarget abytesio_target) 2 (new_memfile [1, 2, 3], new_memfile []) =
       (Inr (int m), (s', t'))"
    "m \<le> nat (chunk_size 2)"
    "m_buf t' @ mem_rest s' = m_buf (new_memfile []) @ mem_rest (new_memfile [1, 2, 3])"
    "(m = 0) = (mem_rest (new_memfile [1, 2, 3 :: byte]) = [])" by blast
  have "m_buf (new_memfile []) @ mem_rest (new_memfile [1, 2, 3 :: byte]) = [1, 2, 3]"
    "nat (chunk_size 2) = 2"
    by (simp_all add: new_memfile_def mem_rest_def chunk_size_def)
  with m show ?thesis
    by (intro exI [of _ m] exI [of _ s'] exI [of _ t'])
      (simp add: new_memfile_def mem_rest_def)
qed

text \<open>
  A memory stream as the target of a splice.  \<open>AsyncIOBase.asplice\<close> of any source asks for
  its \<open>fileno\<close>, which memory streams inherit and which raises: the splice fails with
  \<open>UnsupportedOperation\<close> before anything is read, although the target has \<open>awrite\<close>.
\<close>

lemma base_asplice_memory_target_raises:
  "base_asplice osw ext ar (ObjTarget abytesio_target) sz st =
     (Inl (UnsupportedOperation ''fileno''), st) \<and>
   base_asplice osw' ext' ar' (ObjTarget astringio_target) sz st' =
     (Inl (UnsupportedOperation ''fileno''), st')"
  by (simp add: base_asplice_def abytesio_target_def astringio_target_def io_defs)

text \<open>
  \<open>AsyncBytesIO.asplice\<close> to a file descriptor, or to an object with neither \<open>awrite\<close> nor
  \<open>write\<close>, takes the chunk out of the source, delivers it nowhere and returns 0, the value
  that stands for the end of the source.
\<close>

lemma bytesio_asplice_loses_chunk:
  assumes "mem_is_open s" and "case target of FdTarget n \<Rightarrow> True
                               | ObjTarget t \<Rightarrow> s_awrite t = None \<and> s_write t = None"
  shows "\<exists>s'. abytesio_asplice target sz (s, t) = (Inr 0, (s', t)) \<and>
              mem_rest s' = drop (nat (chunk_size sz)) (mem_rest s)"
proof -
  have "0 \<le> chunk_size sz" by (simp add: chunk_size_def)
  from bytes_src.rd_exact_step [OF assms(1) this] obtain s' where
    "abytesio_aread (chunk_size sz) s = (Inr (Bytes (take (nat (chunk_size sz)) (mem_rest s))), s')"
    "mem_rest s' = drop (nat (chunk_size sz)) (mem_rest s)" by blast
  with assms(2) show ?thesis
    by (cases target) (auto simp: abytesio_asplice_def plain_asplice_def io_defs)
qed

text \<open>
  After \<open>aclose\<close> an \<open>AsyncBytesIO\<close> holds no data, and every further operation raises
  \<open>ValueError\<close> and changes nothing; only another \<open>aclose\<close> succeeds.
\<close>

lemma bytesio_closed_refuses:
  "let c = snd (abytesio_aclose s); closed = ValueError ''I/O operation on closed file.''
   in m_buf c = [] \<and> abytesio_aread n c = (Inl closed, c) \<and> abytesio_awrite d c = (Inl closed, c) \<and>
      abytesio_aflush c = (Inl closed, c) \<and> bytesio_seek off whence c = (Inl closed, c) \<and>
      abytesio_asplice target sz (c, t) = (Inl closed, (c, t)) \<and> abytesio_aclose c = (Inr (), c)"
  by (cases d) (simp_all add: mem_defs abytesio_asplice_def plain_asplice_def io_defs)

end
