(* ===== verification/Socket_Stream.thy ===== *)
theory Socket_Stream
  imports Stream_Contracts
begin

text \<open>
  \<open>py_native_io/socket.py\<close>: \<open>AsyncSocketIO\<close> over a stream socket of the standard library.
  The socket is what the peer sends (segments in order of arrival, possibly an orderly end),
  what has been sent to the peer, and how much each further \<open>send\<close> accepts.  A receive that
  waits for data that never comes does not return: \<open>None\<close>.
\<close>

section \<open>The socket\<close>

record sock =
  sk_in :: "bytes list"
  sk_eof :: bool
  sk_sent :: bytes
  sk_room :: "nat list"
  sk_fd :: int

definition sock_wf :: "sock \<Rightarrow> bool" where
  "sock_wf s = ([] \<notin> set (sk_in s))"

definition sock_recv :: "int \<Rightarrow> (sock, bytes) blocking_io" where
  "sock_recv n = (\<lambda>s.
     if n < 0 then Some (Inl (ValueError ''negative buffersize in recv''), s)
     else if sk_fd s = -1 then Some (Inl (OSError ''Bad file descriptor''), s)
     else if n = 0 then Some (Inr [], s)
     else (case sk_in s of
         [] \<Rightarrow> if sk_eof s then Some (Inr [], s) else None
       | seg # segs \<Rightarrow>
           let left = drop (nat n) seg in
           Some (Inr (take (nat n) seg),
                 s\<lparr>sk_in := (if left = [] then segs else left # segs)\<rparr>)))"

definition sock_send :: "pydata \<Rightarrow> (sock, int) io" where
  "sock_send d = (\<lambda>s.
     case d of
       Str _ \<Rightarrow> (Inl (TypeError ''a bytes-like object is required, not 'str' ''), s)
     | Bytes b \<Rightarrow>
         if sk_fd s = -1 then (Inl (OSError ''Bad file descriptor''), s)
         else
           let k = (case sk_room s of [] \<Rightarrow> length b | r # _ \<Rightarrow> min (max 1 r) (length b)) in
           (Inr (int k), s\<lparr>sk_sent := sk_sent s @ take k b, sk_room := tl (sk_room s)\<rparr>))"

definition sock_close :: "(sock, unit) io" where
  "sock_close = (\<lambda>s. (Inr (), s\<lparr>sk_fd := -1\<rparr>))"

section \<open>AsyncSocketIO\<close>

record asocket =
  as_sock :: sock
  as_mode :: string
  as_is_read :: bool
  as_is_write :: bool

definition asocket_init :: "sock \<Rightarrow> string \<Rightarrow> asocket" where
  "asocket_init sk mode =
     \<lparr>as_sock = sk, as_mode = mode,
      as_is_read = (CHR ''r'' \<in> set mode \<or> CHR ''+'' \<in> set mode),
      as_is_write = (CHR ''w'' \<in> set mode \<or> CHR ''a'' \<in> set mode \<or> CHR ''+'' \<in> set mode)\<rparr>"

text \<open>The loop of \<open>read\<close> with a negative size; \<open>bufs\<close> is the list it collects.\<close>

lemma sock_recv_shrinks:
  assumes "sock_recv n s = Some (Inr c, s')" and "c \<noteq> []"
  shows "length (concat (sk_in s')) < length (concat (sk_in s))"
proof (cases "sk_in s")
  case Nil
  with assms show ?thesis by (auto simp: sock_recv_def split: if_splits)
next
  case (Cons seg segs)
  with assms have "0 < nat n" "seg \<noteq> []"
    by (auto simp: sock_recv_def Let_def split: if_splits)
  with assms Cons show ?thesis by (auto simp: sock_recv_def Let_def split: if_splits)
qed

function recv_loop :: "sock \<Rightarrow> bytes list \<Rightarrow> ((py_error + bytes) \<times> sock) option" where
  "recv_loop s bufs =
     (case sock_recv 65536 s of
        None \<Rightarrow> None
      | Some (Inl e, s') \<Rightarrow> Some (Inl e, s')
      | Some (Inr chunk, s') \<Rightarrow>
          if chunk = [] then Some (Inr (concat bufs), s')
          else recv_loop s' (bufs @ [chunk]))"
  by pat_completeness auto
termination
  by (relation "measure (\<lambda>(s, bufs). length (concat (sk_in s)))")
    (auto dest: sock_recv_shrinks)

declare recv_loop.simps [simp del]

definition asocket_read :: "int \<Rightarrow> (sock, bytes) blocking_io" where
  "asocket_read sz = (\<lambda>s. if sz < 0 then recv_loop s [] else sock_recv sz s)"

text \<open>\<open>recv_into\<close> a buffer of length \<open>n\<close>: the bytes it puts there.\<close>

definition asocket_readinto :: "nat \<Rightarrow> (sock, bytes) blocking_io" where
  "asocket_readinto n = sock_recv (int n)"

definition asocket_write :: "pydata \<Rightarrow> (sock, int) io" where
  "asocket_write b = sock_send b"

definition asocket_close :: "(sock, unit) io" where
  "asocket_close = sock_close"

definition asocket_closed :: "sock \<Rightarrow> bool" where
  "asocket_closed s = (sk_fd s = -1)"

definition asocket_readable :: "asocket \<Rightarrow> bool" where
  "asocket_readable a = as_is_read a"

definition asocket_writable :: "asocket \<Rightarrow> bool" where
  "asocket_writable a = as_is_write a"

definition asocket_seekable :: "asocket \<Rightarrow> bool" where
  "asocket_seekable a = False"

definition asocket_fileno :: "sock \<Rightarrow> int" where
  "asocket_fileno s = sk_fd s"

text \<open>
  A socket with a receive timeout raises instead of waiting for ever; on it \<open>read\<close> is an
  ordinary computation, which the metaclass also installs as \<open>aread\<close>.
\<close>

definition with_timeout :: "(sock, bytes) blocking_io \<Rightarrow> (sock, pydata) io" where
  "with_timeout m = (\<lambda>s. case m s of
      None \<Rightarrow> (Inl (OSError ''timed out''), s)
    | Some (Inl e, s') \<Rightarrow> (Inl e, s')
    | Some (Inr b, s') \<Rightarrow> (Inr (Bytes b), s'))"

definition asocket_aread :: "int \<Rightarrow> (sock, pydata) io" where
  "asocket_aread sz = with_timeout (asocket_read sz)"

definition asocket_awrite :: "pydata \<Rightarrow> (sock, int) io" where
  "asocket_awrite b = asocket_write b"

text \<open>
  The object as other streams see it; \<open>flush\<close> and \<open>aflush\<close> are inherited, so are the batches
  and the splice.
\<close>

definition asocket_flush :: "(sock, unit) io" where
  "asocket_flush = (\<lambda>s.
     if asocket_closed s then (Inl (ValueError ''I/O operation on closed file.''), s)
     else (Inr (), s))"

definition asocket_stream :: "(int \<Rightarrow> pydata \<Rightarrow> (sock, int) io) \<Rightarrow> sock stream" where
  "asocket_stream os_write = \<lparr>
     s_write = Some (\<lambda>_. asocket_write), s_awrite = Some asocket_awrite,
     s_fileno = Some (\<lambda>s. (Inr (asocket_fileno s), s)),
     s_read = Some (\<lambda>_. asocket_aread), s_close = Some asocket_close,
     s_flush = Some asocket_flush,
     s_aread = Some asocket_aread, s_aclose = Some asocket_close,
     s_aflush = Some asocket_flush,
     s_aread_batch = Some (loop_aread asocket_aread),
     s_awrite_batch = Some (loop_awrite asocket_awrite),
     s_asplice = Some (base_asplice os_write None asocket_aread)\<rparr>"

lemmas sock_defs = sock_recv_def sock_send_def sock_close_def asocket_read_def
  asocket_write_def asocket_aread_def asocket_awrite_def with_timeout_def Let_def

section \<open>Facts about receiving\<close>

definition sock_rest :: "sock \<Rightarrow> bytes" where
  "sock_rest s = concat (sk_in s)"

definition sock_src_ok :: "sock \<Rightarrow> bool" where
  "sock_src_ok s = (sk_fd s \<noteq> -1 \<and> sk_eof s \<and> sock_wf s)"

definition sock_snk_ok :: "sock \<Rightarrow> bool" where
  "sock_snk_ok s = (sk_fd s \<noteq> -1)"

text \<open>One receive of a positive size from a socket that has data.\<close>

lemma sock_recv_step:
  assumes "sk_in s = seg # segs" and "sk_fd s \<noteq> -1" and "sock_wf s" and "0 < n"
  shows "\<exists>s'. sock_recv n s = Some (Inr (take (nat n) seg), s') \<and> take (nat n) seg \<noteq> [] \<and>
              sock_rest s' = drop (length (take (nat n) seg)) (sock_rest s) \<and>
              sk_fd s' = sk_fd s \<and> sk_eof s' = sk_eof s \<and> sk_sent s' = sk_sent s \<and>
              sk_room s' = sk_room s \<and> sock_wf s'"
proof -
  from assms have "seg \<noteq> []" by (auto simp: sock_wf_def)
  with assms show ?thesis
    by (auto simp: sock_recv_def Let_def sock_rest_def sock_wf_def min_def)
qed

text \<open>The loop collects everything the peer sends, and returns only if the peer ends.\<close>

lemma recv_loop_all:
  assumes "sk_fd s \<noteq> -1" and "sock_wf s"
  shows "recv_loop s bufs =
     (if sk_eof s then Some (Inr (concat bufs @ sock_rest s), s\<lparr>sk_in := []\<rparr>) else None)"
  using assms
proof (induction s bufs rule: recv_loop.induct)
  case (1 s bufs)
  show ?case
  proof (cases "sk_in s")
    case Nil
    then have "s\<lparr>sk_in := []\<rparr> = s" by (cases s) simp
    with Nil "1.prems" show ?thesis
      by (subst recv_loop.simps) (simp add: sock_recv_def sock_rest_def)
  next
    case (Cons seg segs)
    from sock_recv_step [OF Cons "1.prems", of 65536] obtain s' where s':
      "sock_recv 65536 s = Some (Inr (take 65536 seg), s')" "take 65536 seg \<noteq> []"
      "sock_rest s' = drop (length (take 65536 seg)) (sock_rest s)"
      "sk_fd s' = sk_fd s" "sk_eof s' = sk_eof s" "sk_sent s' = sk_sent s"
      "sk_room s' = sk_room s" "sock_wf s'" by auto
    have data: "take 65536 seg @ sock_rest s' = sock_rest s"
      using s'(3) Cons by (auto simp: sock_rest_def min_def)
    have "recv_loop s bufs = recv_loop s' (bufs @ [take 65536 seg])"
      using s'(1,2) by (simp add: recv_loop.simps [of s])
    also have "\<dots> = (if sk_eof s' then
        Some (Inr (concat (bufs @ [take 65536 seg]) @ sock_rest s'), s'\<lparr>sk_in := []\<rparr>) else None)"
      using s' "1.prems" by (intro "1.IH") auto
    also have "s'\<lparr>sk_in := []\<rparr> = s\<lparr>sk_in := []\<rparr>" using s'(4-7) by simp
    finally show ?thesis using data s'(5) by simp
  qed
qed

lemma asocket_aread_law:
  assumes ok: "sock_src_ok s" and n: "0 \<le> n"
  shows "\<exists>k s'. asocket_aread n s = (Inr (Bytes (take k (sock_rest s))), s') \<and> k \<le> nat n \<and>
           (0 < n \<longrightarrow> sock_rest s \<noteq> [] \<longrightarrow> 0 < k) \<and> sock_rest s' = drop k (sock_rest s) \<and>
           sock_src_ok s'"
proof (cases "sk_in s = [] \<or> n = 0")
  case True
  with assms show ?thesis
    by (intro exI [of _ 0] exI [of _ s])
      (auto simp: sock_defs sock_src_ok_def sock_rest_def)
next
  case False
  then obtain seg segs where seg: "sk_in s = seg # segs" by (cases "sk_in s") auto
  have pre: "sk_fd s \<noteq> -1" "sock_wf s" "sk_eof s" "0 < n"
    using ok n False by (auto simp: sock_src_ok_def)
  from sock_recv_step [OF seg pre(1,2,4)] obtain s' where s':
    "sock_recv n s = Some (Inr (take (nat n) seg), s')" "take (nat n) seg \<noteq> []"
    "sock_rest s' = drop (length (take (nat n) seg)) (sock_rest s)"
    "sk_fd s' = sk_fd s" "sk_eof s' = sk_eof s" "sock_wf s'" by blast
  have eq: "take (length (take (nat n) seg)) (sock_rest s) = take (nat n) seg"
    using seg by (simp add: sock_rest_def min_def)
  have pos: "0 < length (take (nat n) seg)" using s'(2) by auto
  show ?thesis
    using s' eq pos pre
    by (intro exI [of _ "length (take (nat n) seg)"] exI [of _ s'])
      (simp add: asocket_aread_def asocket_read_def with_timeout_def sock_src_ok_def)
qed

interpretation sock_pipe: pipe Bytes asocket_aread sock_rest sock_src_ok
  asocket_awrite sk_sent sock_snk_ok
proof
  fix s :: sock and n :: int
  assume "sock_src_ok s" and "0 \<le> n"
  then show "\<exists>k s'. asocket_aread n s = (Inr (Bytes (take k (sock_rest s))), s') \<and> k \<le> nat n \<and>
           (0 < n \<longrightarrow> sock_rest s \<noteq> [] \<longrightarrow> 0 < k) \<and> sock_rest s' = drop k (sock_rest s) \<and>
           sock_src_ok s'"
    by (rule asocket_aread_law)
next
  fix t :: sock and b :: bytes
  assume "sock_snk_ok t"
  then show "\<exists>k t'. asocket_awrite (Bytes b) t = (Inr (int k), t') \<and> k \<le> length b \<and>
               (b \<noteq> [] \<longrightarrow> 0 < k) \<and> sk_sent t' = sk_sent t @ take k b \<and> sock_snk_ok t'"
    by (auto simp: sock_defs sock_snk_ok_def split: list.splits)
qed simp

section \<open>Properties\<close>

text \<open>The socket as the target of a splice; it is the second component of the state.\<close>

definition asocket_target :: "('s \<times> sock) target_ops" where
  "asocket_target = \<lparr>
     s_write = Some (\<lambda>_ b. on_snd (asocket_write b)),
     s_awrite = Some (\<lambda>b. on_snd (asocket_awrite b)),
     s_fileno = Some (on_snd (\<lambda>s. (Inr (asocket_fileno s), s)))\<rparr>"

text \<open>
  C9: \<open>AsyncSocketIO.read()\<close> without a size (or with a negative one) returns if and only if the
  peer ends the connection, and then returns everything the peer sent, in order and however it
  was cut into segments.  On a connection that stays open it never returns.
\<close>

theorem socket_read_all:
  assumes "sk_fd s \<noteq> -1" and "sock_wf s" and "sz < 0"
  shows "asocket_read sz s =
           (if sk_eof s then Some (Inr (concat (sk_in s)), s\<lparr>sk_in := []\<rparr>) else None)"
  using recv_loop_all [OF assms(1,2), of "[]"] assms(3)
  by (simp add: asocket_read_def sock_rest_def)

theorem socket_read_all_witness:
  "asocket_read (-1) \<lparr>sk_in = [[1, 2], [3]], sk_eof = True, sk_sent = [], sk_room = [], sk_fd = 5\<rparr> =
     Some (Inr [1, 2, 3],
       \<lparr>sk_in = [], sk_eof = True, sk_sent = [], sk_room = [], sk_fd = 5\<rparr>) \<and>
   asocket_read (-1) \<lparr>sk_in = [[1, 2]], sk_eof = False, sk_sent = [], sk_room = [], sk_fd = 5\<rparr> = None"
  using socket_read_all [of "\<lparr>sk_in = [[1, 2], [3]], sk_eof = True, sk_sent = [], sk_room = [], sk_fd = 5\<rparr>" "-1"]
    socket_read_all [of "\<lparr>sk_in = [[1, 2]], sk_eof = False, sk_sent = [], sk_room = [], sk_fd = 5\<rparr>" "-1"]
  by (simp add: sock_wf_def)

text \<open>
  \<open>read\<close> with a size is one \<open>recv\<close>: it returns a prefix of what the peer sent, no longer
  than asked and not beyond the first segment, non-empty if something was asked for, and leaves
  the rest.  It waits exactly if nothing has arrived and the connection is open.
\<close>

lemma socket_read_bounded:
  assumes "sk_fd s \<noteq> -1" and "sock_wf s" and "0 < sz"
  shows "case asocket_read sz s of
           None \<Rightarrow> sk_in s = [] \<and> \<not> sk_eof s
         | Some (Inl e, s') \<Rightarrow> False
         | Some (Inr b, s') \<Rightarrow>
             b @ concat (sk_in s') = concat (sk_in s) \<and> length b \<le> nat sz \<and>
             (b = []) = (sk_in s = []) \<and>
             (sk_in s = [] \<or> b = take (nat sz) (hd (sk_in s))) \<and> sock_wf s'"
proof (cases "sk_in s")
  case Nil
  with assms show ?thesis by (simp add: asocket_read_def sock_recv_def)
next
  case (Cons seg segs)
  from sock_recv_step [OF Cons assms] obtain s' where s':
    "sock_recv sz s = Some (Inr (take (nat sz) seg), s')" "take (nat sz) seg \<noteq> []"
    "sock_rest s' = drop (length (take (nat sz) seg)) (sock_rest s)" "sock_wf s'" by blast
  have "take (nat sz) seg @ concat (sk_in s') = concat (sk_in s)"
    using s'(3) Cons by (auto simp: sock_rest_def min_def)
  with s' Cons assms(3) show ?thesis by (simp add: asocket_read_def)
qed

lemma base_asplice_socket_target:
  "base_asplice osw None ar (ObjTarget asocket_target) sz (s, t) =
   plain_asplice ar (ObjTarget asocket_target) sz (s, t)"
  by (simp add: base_asplice_def plain_asplice_def asocket_target_def io_defs
      split: sum.split prod.split)

text \<open>
  C31: \<open>asplice\<close> from one socket to another receives one chunk, no longer than asked (64 KiB for a
  size that is not positive), and sends a prefix of it with one \<open>send\<close>: what arrives is in
  order and never more than was received, and 0 is returned exactly at the end of the source.
\<close>

theorem socket_asplice_in_order:
  assumes "sock_src_ok s" and "sock_snk_ok t"
  shows "\<exists>k m s' t'. base_asplice osw None (\<lambda>n. on_fst (asocket_aread n))
             (ObjTarget asocket_target) sz (s, t) = (Inr (int m), (s', t')) \<and>
           m \<le> k \<and> k \<le> nat (chunk_size sz) \<and> sock_rest s' = drop k (sock_rest s) \<and>
           sk_sent t' = sk_sent t @ take m (sock_rest s) \<and> (m = 0) = (sock_rest s = [])"
  using sock_pipe.plain_transfer [OF assms, of asocket_target sz]
  unfolding base_asplice_socket_target by (auto simp: asocket_target_def)

theorem socket_asplice_in_order_witness:
  "\<exists>m s' t'. base_asplice (\<lambda>_ _. io_return 0) None (\<lambda>n. on_fst (asocket_aread n))
        (ObjTarget asocket_target) 8
        (\<lparr>sk_in = [[1, 2, 3]], sk_eof = True, sk_sent = [], sk_room = [], sk_fd = 5\<rparr>,
         \<lparr>sk_in = [], sk_eof = False, sk_sent = [9], sk_room = [2], sk_fd = 6\<rparr>) =
      (Inr (int m), (s', t')) \<and> m \<noteq> 0 \<and> sk_sent t' = [9] @ take m [1, 2, 3]"
proof -
  let ?s = "\<lparr>sk_in = [[1, 2, 3]], sk_eof = True, sk_sent = [], sk_room = [], sk_fd = 5\<rparr>"
  let ?t = "\<lparr>sk_in = [], sk_eof = False, sk_sent = [9], sk_room = [2], sk_fd = 6\<rparr>"
  have "sock_src_ok ?s" "sock_snk_ok ?t"
    by (simp_all add: sock_src_ok_def sock_snk_ok_def sock_wf_def)
  from socket_asplice_in_order [OF this, of "\<lambda>_ _. io_return 0" 8] show ?thesis
    by (auto simp: sock_rest_def)
qed

text \<open>
  When the one \<open>send\<close> of such a splice accepts less than the chunk that was received, the
  rest of the chunk is lost: it has left the source and is not sent.
\<close>

lemma socket_asplice_loses_tail:
  assumes "sock_src_ok s" and "sock_snk_ok t"
    and "sk_in s = seg # segs" and "sk_room t = r # rs"
    and "0 < r" and "r < length (take (nat (chunk_size sz)) seg)"
  shows "\<exists>s' t'. base_asplice osw None (\<lambda>n. on_fst (asocket_aread n))
             (ObjTarget asocket_target) sz (s, t) = (Inr (int r), (s', t')) \<and>
           sk_sent t' = sk_sent t @ take r seg \<and>
           sock_rest s' = drop (length (take (nat (chunk_size sz)) seg)) (sock_rest s) \<and>
           length (sk_sent t' @ sock_rest s') < length (sk_sent t @ sock_rest s)"
proof -
  let ?n = "chunk_size sz"
  let ?chunk = "take (nat ?n) seg"
  have n: "0 < ?n" by (simp add: chunk_size_def)
  from assms(1) have ok: "sk_fd s \<noteq> -1" "sock_wf s" by (simp_all add: sock_src_ok_def)
  from sock_recv_step [OF assms(3) ok n] obtain s' where s':
    "sock_recv ?n s = Some (Inr ?chunk, s')" "?chunk \<noteq> []"
    "sock_rest s' = drop (length ?chunk) (sock_rest s)" by blast
  have rd: "asocket_aread ?n s = (Inr (Bytes ?chunk), s')"
    using s'(1) n by (simp add: asocket_aread_def asocket_read_def with_timeout_def)
  have wr: "asocket_awrite (Bytes ?chunk) t =
      (Inr (int r), t\<lparr>sk_sent := sk_sent t @ take r seg, sk_room := rs\<rparr>)"
    using assms(2,4,5,6) by (auto simp: sock_defs sock_snk_ok_def min_def split: if_splits)
  have len: "length ?chunk \<le> length (sock_rest s)" using assms(3) by (simp add: sock_rest_def)
  have "base_asplice osw None (\<lambda>n. on_fst (asocket_aread n)) (ObjTarget asocket_target) sz (s, t) =
      (Inr (int r), (s', t\<lparr>sk_sent := sk_sent t @ take r seg, sk_room := rs\<rparr>))"
    unfolding base_asplice_socket_target
    using rd wr s'(2) by (simp add: plain_asplice_def asocket_target_def io_defs)
  with s'(3) assms(6) len show ?thesis by auto
qed

end
