(* ===== verification/File_Mode.thy ===== *)
theory File_Mode
  imports Stream_Prelude
begin

text \<open>
  Opening files by mode.  \<open>src/file_mode.rs\<close> turns a Python mode string into Rust's
  \<open>OpenOptions\<close>; the standard libraries turn options, respectively mode strings, into the
  flags of the system call.  The theory states where the native engine opens a file exactly as
  CPython's \<open>FileIO\<close> does, and what it does instead in the remaining modes.
\<close>

section \<open>FileMode of src/file_mode.rs\<close>

record file_mode =
  fm_readable :: bool
  fm_writable :: bool
  fm_append :: bool
  fm_truncate :: bool
  fm_binary :: bool

definition file_mode_parse :: "string \<Rightarrow> file_mode" where
  "file_mode_parse mode =
     (let mode_str = (if mode = [] then ''rb'' else mode);
          is_write = (CHR ''w'' \<in> set mode_str \<or> CHR ''a'' \<in> set mode_str \<or>
                      CHR ''+'' \<in> set mode_str);
          is_read = (CHR ''r'' \<in> set mode_str \<or> CHR ''+'' \<in> set mode_str \<or>
                     (CHR ''w'' \<notin> set mode_str \<and> CHR ''a'' \<notin> set mode_str))
      in \<lparr>fm_readable = is_read, fm_writable = is_write,
          fm_append = (CHR ''a'' \<in> set mode_str),
          fm_truncate = (CHR ''w'' \<in> set mode_str),
          fm_binary = (CHR ''b'' \<in> set mode_str)\<rparr>)"

record open_options =
  oo_read :: bool
  oo_write :: bool
  oo_append :: bool
  oo_truncate :: bool
  oo_create :: bool

definition open_options_new :: open_options where
  "open_options_new = \<lparr>oo_read = False, oo_write = False, oo_append = False,
     oo_truncate = False, oo_create = False\<rparr>"

definition configure_open_options :: "file_mode \<Rightarrow> open_options \<Rightarrow> open_options" where
  "configure_open_options fm o1 =
     (if fm_writable fm then
        (let o2 = (if fm_truncate fm then o1\<lparr>oo_write := True, oo_create := True, oo_truncate := True\<rparr>
                   else if fm_append fm then o1\<lparr>oo_write := True, oo_create := True, oo_append := True\<rparr>
                   else o1\<lparr>oo_write := True, oo_create := True\<rparr>)
         in if fm_readable fm then o2\<lparr>oo_read := True\<rparr> else o2)
      else o1\<lparr>oo_read := True\<rparr>)"

section \<open>System call flags\<close>

datatype access = RdOnly | WrOnly | RdWr

record os_flags =
  of_access :: access
  of_append :: bool
  of_creat :: bool
  of_trunc :: bool
  of_excl :: bool

text \<open>Rust's \<open>std::fs::OpenOptions::open\<close> on Unix; \<open>None\<close> is \<open>EINVAL\<close>.\<close>

definition rust_access :: "open_options \<Rightarrow> access option" where
  "rust_access op =
     (if oo_append op then Some (if oo_read op then RdWr else WrOnly)
      else if oo_write op then Some (if oo_read op then RdWr else WrOnly)
      else if oo_read op then Some RdOnly
      else None)"

definition rust_creation_ok :: "open_options \<Rightarrow> bool" where
  "rust_creation_ok op =
     (if oo_append op then \<not> oo_truncate op
      else if oo_write op then True
      else \<not> oo_truncate op \<and> \<not> oo_create op)"

definition rust_flags :: "open_options \<Rightarrow> os_flags option" where
  "rust_flags op =
     (case rust_access op of
        None \<Rightarrow> None
      | Some acc \<Rightarrow>
          if rust_creation_ok op
          then Some \<lparr>of_access = acc, of_append = oo_append op, of_creat = oo_create op,
                     of_trunc = oo_truncate op, of_excl = False\<rparr>
          else None)"

text \<open>The flags with which \<open>NativeFileIO::new\<close> opens its path.\<close>

definition native_flags :: "string \<Rightarrow> os_flags option" where
  "native_flags mode =
     rust_flags (configure_open_options (file_mode_parse mode) open_options_new)"

text \<open>
  CPython's \<open>FileIO\<close>: exactly one of \<open>r\<close>, \<open>w\<close>, \<open>a\<close>, \<open>x\<close>, at most one \<open>+\<close>, any number of
  \<open>b\<close>; \<open>None\<close> is the \<open>ValueError\<close> of an invalid mode.
\<close>

definition py_valid :: "string \<Rightarrow> bool" where
  "py_valid mode =
     (set mode \<subseteq> set ''rwaxb+'' \<and>
      length (filter (\<lambda>c. c \<in> set ''rwax'') mode) = 1 \<and>
      length (filter (\<lambda>c. c = CHR ''+'') mode) \<le> 1)"

definition py_flags :: "string \<Rightarrow> os_flags option" where
  "py_flags mode =
     (if \<not> py_valid mode then None
      else
        let has = (\<lambda>c. c \<in> set mode) in
        Some \<lparr>of_access = (if has (CHR ''+'') then RdWr else if has (CHR ''r'') then RdOnly
                           else WrOnly),
              of_append = has (CHR ''a''),
              of_creat = (has (CHR ''w'') \<or> has (CHR ''a'') \<or> has (CHR ''x'')),
              of_trunc = has (CHR ''w''),
              of_excl = has (CHR ''x'')\<rparr>)"

lemma py_valid_exclusive:
  assumes "py_valid mode"
  shows "CHR ''w'' \<in> set mode \<Longrightarrow> CHR ''r'' \<notin> set mode \<and> CHR ''a'' \<notin> set mode \<and> CHR ''x'' \<notin> set mode"
    and "CHR ''a'' \<in> set mode \<Longrightarrow> CHR ''r'' \<notin> set mode \<and> CHR ''w'' \<notin> set mode \<and> CHR ''x'' \<notin> set mode"
    and "CHR ''x'' \<in> set mode \<Longrightarrow> CHR ''r'' \<notin> set mode \<and> CHR ''w'' \<notin> set mode \<and> CHR ''a'' \<notin> set mode"
    and "CHR ''r'' \<in> set mode \<Longrightarrow> CHR ''a'' \<notin> set mode \<and> CHR ''w'' \<notin> set mode \<and> CHR ''x'' \<notin> set mode"
    and "CHR ''r'' \<in> set mode \<or> CHR ''w'' \<in> set mode \<or> CHR ''a'' \<in> set mode \<or> CHR ''x'' \<in> set mode"
    and "mode \<noteq> []"
proof -
  let ?k = "filter (\<lambda>c. c \<in> set ''rwax'') mode"
  from assms obtain c where k: "?k = [c]"
    by (auto simp: py_valid_def length_Suc_conv One_nat_def simp del: set_simps)
  have one: "d \<in> set mode \<Longrightarrow> d \<in> set ''rwax'' \<Longrightarrow> d = c" for d
  proof -
    assume "d \<in> set mode" "d \<in> set ''rwax''"
    then have "d \<in> set ?k" by simp
    then show "d = c" by (simp only: k) simp
  qed
  have "c \<in> set ?k" by (simp only: k) simp
  then have c: "c \<in> set mode" "c \<in> set ''rwax''" by auto
  from one [of "CHR ''w''"] one [of "CHR ''a''"] one [of "CHR ''x''"] one [of "CHR ''r''"] c
  show "CHR ''w'' \<in> set mode \<Longrightarrow> CHR ''r'' \<notin> set mode \<and> CHR ''a'' \<notin> set mode \<and> CHR ''x'' \<notin> set mode"
    and "CHR ''a'' \<in> set mode \<Longrightarrow> CHR ''r'' \<notin> set mode \<and> CHR ''w'' \<notin> set mode \<and> CHR ''x'' \<notin> set mode"
    and "CHR ''x'' \<in> set mode \<Longrightarrow> CHR ''r'' \<notin> set mode \<and> CHR ''w'' \<notin> set mode \<and> CHR ''a'' \<notin> set mode"
    and "CHR ''r'' \<in> set mode \<Longrightarrow> CHR ''a'' \<notin> set mode \<and> CHR ''w'' \<notin> set mode \<and> CHR ''x'' \<notin> set mode"
    and "CHR ''r'' \<in> set mode \<or> CHR ''w'' \<in> set mode \<or> CHR ''a'' \<in> set mode \<or> CHR ''x'' \<in> set mode"
    and "mode \<noteq> []"
    by auto
qed

lemmas mode_defs = native_flags_def rust_flags_def rust_access_def rust_creation_ok_def
  configure_open_options_def file_mode_parse_def open_options_new_def Let_def

text \<open>The flags of both libraries, by the letters of the mode.\<close>

lemma native_flags_eq:
  "native_flags mode =
     Some \<lparr>of_access = (if CHR ''w'' \<in> set mode \<or> CHR ''a'' \<in> set mode \<or> CHR ''+'' \<in> set mode
                        then (if CHR ''r'' \<in> set mode \<or> CHR ''+'' \<in> set mode then RdWr else WrOnly)
                        else RdOnly),
           of_append = (CHR ''a'' \<in> set mode \<and> CHR ''w'' \<notin> set mode),
           of_creat = (CHR ''w'' \<in> set mode \<or> CHR ''a'' \<in> set mode \<or> CHR ''+'' \<in> set mode),
           of_trunc = (CHR ''w'' \<in> set mode), of_excl = False\<rparr>"
proof (cases "mode = []")
  case True
  then show ?thesis by (simp add: mode_defs)
next
  case False
  consider "CHR ''w'' \<in> set mode" | "CHR ''w'' \<notin> set mode" "CHR ''a'' \<in> set mode"
    | "CHR ''w'' \<notin> set mode" "CHR ''a'' \<notin> set mode" by blast
  then show ?thesis using False by cases (simp_all add: mode_defs)
qed

lemma py_flags_Some:
  assumes "py_flags mode = Some fl"
  shows "py_valid mode"
    and "fl = \<lparr>of_access = (if CHR ''+'' \<in> set mode then RdWr
                           else if CHR ''r'' \<in> set mode then RdOnly else WrOnly),
              of_append = (CHR ''a'' \<in> set mode),
              of_creat = (CHR ''w'' \<in> set mode \<or> CHR ''a'' \<in> set mode \<or> CHR ''x'' \<in> set mode),
              of_trunc = (CHR ''w'' \<in> set mode), of_excl = (CHR ''x'' \<in> set mode)\<rparr>"
  using assms by (simp_all add: py_flags_def Let_def split: if_splits)

text \<open>The main letter of a valid mode excludes the others.\<close>

lemma py_valid_kind:
  assumes "py_valid mode"
  obtains (r) "CHR ''r'' \<in> set mode" "CHR ''w'' \<notin> set mode" "CHR ''a'' \<notin> set mode" "CHR ''x'' \<notin> set mode"
    | (w) "CHR ''w'' \<in> set mode" "CHR ''r'' \<notin> set mode" "CHR ''a'' \<notin> set mode" "CHR ''x'' \<notin> set mode"
    | (a) "CHR ''a'' \<in> set mode" "CHR ''r'' \<notin> set mode" "CHR ''w'' \<notin> set mode" "CHR ''x'' \<notin> set mode"
    | (x) "CHR ''x'' \<in> set mode" "CHR ''r'' \<notin> set mode" "CHR ''w'' \<notin> set mode" "CHR ''a'' \<notin> set mode"
  using py_valid_exclusive [OF assms] by blast

lemma native_flags_same:
  assumes "py_flags mode = Some fl" and "CHR ''x'' \<notin> set mode"
    and "\<not> (CHR ''r'' \<in> set mode \<and> CHR ''+'' \<in> set mode)"
  shows "native_flags mode = Some fl"
proof -
  note fl = py_flags_Some [OF assms(1)]
  from fl(1) show ?thesis
    by (cases rule: py_valid_kind) (use assms(2,3) in \<open>simp_all add: fl(2) native_flags_eq\<close>)
qed

lemma native_flags_rplus:
  assumes "py_flags mode = Some fl" and "CHR ''r'' \<in> set mode" and "CHR ''+'' \<in> set mode"
  shows "native_flags mode = Some (fl\<lparr>of_creat := True\<rparr>)" and "\<not> of_creat fl"
proof -
  note fl = py_flags_Some [OF assms(1)]
  from fl(1) show "native_flags mode = Some (fl\<lparr>of_creat := True\<rparr>)" "\<not> of_creat fl"
    by (cases rule: py_valid_kind; use assms(2,3) in \<open>simp add: fl(2) native_flags_eq\<close>)+
qed

lemma native_flags_x:
  assumes "py_flags mode = Some fl" and "CHR ''x'' \<in> set mode"
  shows "of_excl fl" and "of_creat fl" and "of_access fl \<noteq> RdOnly"
    and "native_flags mode =
              Some \<lparr>of_access = (if CHR ''+'' \<in> set mode then RdWr else RdOnly),
                    of_append = False, of_creat = (CHR ''+'' \<in> set mode), of_trunc = False,
                    of_excl = False\<rparr>"
proof -
  note fl = py_flags_Some [OF assms(1)]
  from fl(1) show "of_excl fl" "of_creat fl" "of_access fl \<noteq> RdOnly"
    "native_flags mode =
              Some \<lparr>of_access = (if CHR ''+'' \<in> set mode then RdWr else RdOnly),
                    of_append = False, of_creat = (CHR ''+'' \<in> set mode), of_trunc = False,
                    of_excl = False\<rparr>"
    by (cases rule: py_valid_kind; use assms(2) in \<open>simp add: fl(2) native_flags_eq\<close>)+
qed

end
