(* ===== verification/File_Streams.thy ===== *)
theory File_Streams
  imports File_Mode Memory_Streams Class_Model
begin

text \<open>
  \<open>py_native_io/file.py\<close>: which engine is chosen at import, which object a file argument is
  opened as (\<open>create_default_file_io\<close> with its silent fallback), and the delegating stream
  \<open>FallbackFileIO\<close>.  Opening is modelled on a file system of named files; the streams behind
  \<open>FallbackFileIO\<close> are arbitrary objects, with the standard library's binary file as the
  instance that meets the contracts.
\<close>

section \<open>Choosing an engine\<close>

definition startswith :: "string \<Rightarrow> string \<Rightarrow> bool" where
  "startswith s p = (take (length p) s = p)"

text \<open>
  \<open>ext\<close> is the compiled extension: \<open>None\<close> if it cannot be imported, else whether
  \<open>is_kernel_ring_supported()\<close>.
\<close>

definition use_native :: "bool option \<Rightarrow> bool" where
  "use_native ext = (case ext of Some supported \<Rightarrow> supported | None \<Rightarrow> False)"

definition native_class :: "bool option \<Rightarrow> cname" where
  "native_class ext = (if ext \<noteq> None then NativeFileIO else DummyNativeFileIO)"

definition default_file_io :: "bool option \<Rightarrow> string \<Rightarrow> cname \<times> string" where
  "default_file_io ext platform =
     (if use_native ext then
        if startswith platform ''linux'' then
          (LinuxURingFileIO, ''Linux io_uring kernel completion ring'')
        else if startswith platform ''win'' then
          (WindowsIoRingFileIO, ''Windows IoRing completion ring'')
        else if startswith platform ''darwin'' then
          (MacOSKQueueFileIO, ''macOS kqueue completion ring'')
        else (native_class ext, ''Native C-extension engine'')
      else (FallbackFileIO, ''Cross-platform thread-pool fallback engine''))"

section \<open>File arguments\<close>

text \<open>
  A path as \<open>str\<close>, as \<open>bytes\<close>, as an object with \<open>__fspath__\<close>; a descriptor; or another
  object, of which it matters whether it has \<open>read\<close> or \<open>write\<close>.
\<close>

datatype file_arg =
    StrPath string
  | BytesPath string
  | FsPath string
  | IntFd int
  | OtherObj nat bool bool

fun native_eligible :: "file_arg \<Rightarrow> bool" where
  "native_eligible (StrPath _) = True"
| "native_eligible (BytesPath _) = True"
| "native_eligible (FsPath _) = True"
| "native_eligible _ = False"

definition create_default_file_io ::
  "bool \<Rightarrow> (file_arg \<Rightarrow> string \<Rightarrow> bool \<Rightarrow> nat option \<Rightarrow> ('s, 'r) io)
        \<Rightarrow> (file_arg \<Rightarrow> string \<Rightarrow> bool \<Rightarrow> nat option \<Rightarrow> ('s, 'r) io)
        \<Rightarrow> file_arg \<Rightarrow> string \<Rightarrow> bool \<Rightarrow> nat option \<Rightarrow> ('s, 'r) io" where
  "create_default_file_io native DefaultCls FallbackCls file mode closefd opener =
     (if native \<and> native_eligible file
      then io_catch (\<lambda>_. True) (DefaultCls file mode closefd opener)
             (FallbackCls file mode closefd opener)
      else FallbackCls file mode closefd opener)"

text \<open>How \<open>FallbackFileIO.__init__\<close> obtains the stream it delegates to.\<close>

datatype sync_source =
    OrigOpen file_arg string "bool option" "nat option"
  | SameObject nat

definition fallback_init :: "file_arg \<Rightarrow> string \<Rightarrow> bool \<Rightarrow> nat option \<Rightarrow> sync_source" where
  "fallback_init file mode closefd opener =
     (if opener \<noteq> None then OrigOpen file mode (Some closefd) opener
      else (case file of
          IntFd _ \<Rightarrow> OrigOpen file mode (Some closefd) None
        | OtherObj i has_read has_write \<Rightarrow>
            if has_read \<or> has_write then SameObject i else OrigOpen file mode None None
        | _ \<Rightarrow> OrigOpen file mode None None))"

section \<open>Opening on a file system\<close>

type_synonym fs = "string \<rightharpoonup> bytes"

definition os_open :: "os_flags \<Rightarrow> string \<Rightarrow> (fs, unit) io" where
  "os_open fl p = (\<lambda>fs.
     case fs p of
       None \<Rightarrow> if of_creat fl then (Inr (), fs(p \<mapsto> []))
               else (Inl (FileNotFoundError p), fs)
     | Some d \<Rightarrow> if of_creat fl \<and> of_excl fl then (Inl (FileExistsError p), fs)
                 else (Inr (), if of_trunc fl then fs(p \<mapsto> []) else fs))"

text \<open>Python's \<open>str()\<close> of the arguments that reach \<open>NativeFileIO::new\<close>.\<close>

fun nat_str :: "nat \<Rightarrow> string" where
  "nat_str n = (if n < 10 then [char_of (48 + n)] else nat_str (n div 10) @ [char_of (48 + n mod 10)])"

declare nat_str.simps [simp del]

definition int_str :: "int \<Rightarrow> string" where
  "int_str i = (if i < 0 then ''-'' @ nat_str (nat (- i)) else nat_str (nat i))"

definition hex_digit :: "nat \<Rightarrow> char" where
  "hex_digit n = (if n < 10 then char_of (48 + n) else char_of (87 + n))"

definition bytes_quote :: "string \<Rightarrow> char" where
  "bytes_quote p = (if CHR 0x27 \<in> set p \<and> CHR 0x22 \<notin> set p then CHR 0x22 else CHR 0x27)"

definition bytes_esc :: "char \<Rightarrow> char \<Rightarrow> string" where
  "bytes_esc q c =
     (if c = q \<or> c = CHR 0x5C then [CHR 0x5C, c]
      else if c = CHR 0x09 then [CHR 0x5C, CHR ''t'']
      else if c = CHR 0x0A then [CHR 0x5C, CHR ''n'']
      else if c = CHR 0x0D then [CHR 0x5C, CHR ''r'']
      else if of_char c < (32::nat) \<or> of_char c \<ge> (127::nat) then
        [CHR 0x5C, CHR ''x'', hex_digit (of_char c div 16), hex_digit (of_char c mod 16)]
      else [c])"

definition bytes_repr :: "string \<Rightarrow> string" where
  "bytes_repr p =
     [CHR ''b'', bytes_quote p] @ concat (map (bytes_esc (bytes_quote p)) p) @ [bytes_quote p]"

fun py_str :: "(nat \<Rightarrow> string) \<Rightarrow> file_arg \<Rightarrow> string" where
  "py_str obj_str (StrPath p) = p"
| "py_str obj_str (BytesPath p) = bytes_repr p"
| "py_str obj_str (FsPath p) = p"
| "py_str obj_str (IntFd n) = int_str n"
| "py_str obj_str (OtherObj i _ _) = obj_str i"

text \<open>What an opened file is: a native stream on a path, or a wrapper around a Python file.\<close>

datatype opened = NativeStream string file_mode | FallbackStream sync_source

definition as_io_error :: "py_error \<Rightarrow> py_error" where
  "as_io_error e = OSError ''open''"

text \<open>\<open>NativeFileIO::new\<close>; it ignores \<open>closefd\<close> and \<open>opener\<close>.\<close>

definition native_file_new ::
  "(nat \<Rightarrow> string) \<Rightarrow> file_arg \<Rightarrow> string \<Rightarrow> bool \<Rightarrow> nat option \<Rightarrow> (fs, opened) io" where
  "native_file_new obj_str file mode closefd opener = (\<lambda>fs.
     let path = py_str obj_str file; parsed = file_mode_parse mode in
     case native_flags mode of
       None \<Rightarrow> (Inl (OSError ''open''), fs)
     | Some fl \<Rightarrow>
         (case os_open fl path fs of
            (Inl e, fs') \<Rightarrow> (Inl (as_io_error e), fs')
          | (Inr _, fs') \<Rightarrow> (Inr (NativeStream path parsed), fs')))"

text \<open>
  The original \<open>open\<close> on a path: no letter twice, not both \<open>b\<close> and \<open>t\<close>, and otherwise as
  \<open>FileIO\<close>; a text mode is the binary mode of the file below.  Opening a descriptor, an adopted object or through an opener does not touch the named files.
\<close>

definition py_open_flags :: "string \<Rightarrow> os_flags option" where
  "py_open_flags mode =
     (if \<not> distinct mode \<or> CHR ''b'' \<in> set mode \<and> CHR ''t'' \<in> set mode then None
      else py_flags (filter (\<lambda>c. c \<noteq> CHR ''t'') mode))"

definition py_open_path :: "string \<Rightarrow> string \<Rightarrow> (fs, unit) io" where
  "py_open_path p mode =
     (case py_open_flags mode of
        None \<Rightarrow> io_raise (ValueError ''invalid mode'')
      | Some fl \<Rightarrow> os_open fl p)"

fun sync_open :: "sync_source \<Rightarrow> (fs, unit) io" where
  "sync_open (OrigOpen (StrPath p) mode _ None) = py_open_path p mode"
| "sync_open (OrigOpen (BytesPath p) mode _ None) = py_open_path p mode"
| "sync_open (OrigOpen (FsPath p) mode _ None) = py_open_path p mode"
| "sync_open _ = io_return ()"

definition fallback_file_new ::
  "file_arg \<Rightarrow> string \<Rightarrow> bool \<Rightarrow> nat option \<Rightarrow> (fs, opened) io" where
  "fallback_file_new file mode closefd opener =
     (let src = fallback_init file mode closefd opener in
      io_bind (sync_open src) (\<lambda>_. io_return (FallbackStream src)))"

text \<open>\<open>create_default_file_io\<close> on the file system, natively if \<open>native\<close>.\<close>

definition open_raw ::
  "bool \<Rightarrow> (nat \<Rightarrow> string) \<Rightarrow> file_arg \<Rightarrow> string \<Rightarrow> bool \<Rightarrow> nat option \<Rightarrow> (fs, opened) io" where
  "open_raw native obj_str =
     create_default_file_io native (native_file_new obj_str) fallback_file_new"

text \<open>The part of an outcome that a caller compares: the exception, if any, and the files.\<close>

definition outcome :: "(py_error + 'a) \<times> fs \<Rightarrow> (py_error + unit) \<times> fs" where
  "outcome r = (map_sum id (\<lambda>_. ()) (fst r), snd r)"

lemma outcome_simps [simp]:
  "outcome (Inl e, fs) = (Inl e, fs)" "outcome (Inr a, fs) = (Inr (), fs)"
  by (simp_all add: outcome_def)

lemma as_io_error_eq [simp]: "as_io_error e = OSError ''open''"
  by (simp add: as_io_error_def)

section \<open>Opening: properties\<close>

lemma py_open_flags_binary:
  assumes "py_open_flags mode = Some fl" and "CHR ''b'' \<in> set mode"
  shows "py_flags mode = Some fl"
proof -
  from assms have "CHR ''t'' \<notin> set mode" by (auto simp: py_open_flags_def split: if_splits)
  then have "filter (\<lambda>c. c \<noteq> CHR ''t'') mode = mode" by (auto simp: filter_id_conv)
  with assms show ?thesis by (simp add: py_open_flags_def split: if_splits)
qed

lemma os_open_fails_same: "os_open fl p fs = (Inl e, fs') \<Longrightarrow> fs' = fs"
  by (auto simp: os_open_def split: option.splits if_splits)

text \<open>What a path is opened as, where the native engine agrees on the flags or is not in use.\<close>

lemma open_raw_result:
  assumes "file = StrPath p \<or> file = FsPath p" and "py_open_flags mode = Some fl"
    and "native \<longrightarrow> native_flags mode = Some fl"
  shows "open_raw native obj_str file mode closefd None fs =
     (case os_open fl p fs of
        (Inl e, fs') \<Rightarrow> (Inl e, fs')
      | (Inr _, fs') \<Rightarrow>
          (Inr (if native then NativeStream p (file_mode_parse mode)
                else FallbackStream (OrigOpen file mode None None)), fs'))"
proof (cases "os_open fl p fs")
  case (Pair r fs')
  with assms os_open_fails_same [of fl p fs] show ?thesis
    by (cases r)
      (auto simp: open_raw_def create_default_file_io_def native_file_new_def
        fallback_file_new_def fallback_init_def py_open_path_def Let_def io_defs)
qed



text \<open>
  In the modes that the native engine opens differently, it shows.  With \<open>r+\<close> a missing
  file is created where \<open>open\<close> raises \<open>FileNotFoundError\<close>; with \<open>x\<close> an existing file is opened
  where \<open>open\<close> raises \<open>FileExistsError\<close>, so the exclusive creation is lost.
\<close>

lemma open_raw_native_deviations:
  assumes "py_open_flags mode = Some fl" and "CHR ''b'' \<in> set mode"
  shows "(CHR ''r'' \<in> set mode \<and> CHR ''+'' \<in> set mode \<and> fs p = None \<longrightarrow>
            open_raw True obj_str (StrPath p) mode closefd None fs =
              (Inr (NativeStream p (file_mode_parse mode)), fs(p \<mapsto> [])) \<and>
            py_open_path p mode fs = (Inl (FileNotFoundError p), fs)) \<and>
         (CHR ''x'' \<in> set mode \<and> fs p \<noteq> None \<longrightarrow>
            open_raw True obj_str (StrPath p) mode closefd None fs =
              (Inr (NativeStream p (file_mode_parse mode)), fs) \<and>
            py_open_path p mode fs = (Inl (FileExistsError p), fs))"
proof -
  have pf: "py_flags mode = Some fl" using assms by (rule py_open_flags_binary)
  show ?thesis
    using native_flags_rplus [OF pf] native_flags_x [OF pf] assms(1)
    by (auto simp: open_raw_def create_default_file_io_def native_file_new_def os_open_def
        py_open_path_def Let_def io_defs)
qed

lemma length_bytes_repr: "length p + 3 \<le> length (bytes_repr p)"
proof -
  have "length p \<le> length (concat (map (bytes_esc q) p))" for q
    by (induction p) (auto simp: bytes_esc_def)
  then show ?thesis by (simp add: bytes_repr_def)
qed

text \<open>
  A path given as \<open>bytes\<close> reaches the native engine through \<open>str()\<close>.  Opening it for
  writing succeeds, but creates a file named after the \<open>repr\<close> (\<open>b'...'\<close>) and leaves the file
  that was asked for alone; the thread-pool engine opens the right one.
\<close>

lemma open_raw_bytes_path:
  "open_raw True obj_str (BytesPath p) ''wb'' closefd None fs =
     (Inr (NativeStream (bytes_repr p) (file_mode_parse ''wb'')), fs(bytes_repr p \<mapsto> [])) \<and>
   bytes_repr p \<noteq> p \<and>
   snd (open_raw False obj_str (BytesPath p) ''wb'' closefd None fs) = fs(p \<mapsto> [])"
proof -
  have "bytes_repr p \<noteq> p"
    using length_bytes_repr [of p] by (metis add_leD1 add_le_same_cancel1 le_zero_eq not_numeral_le_zero)
  moreover have "py_open_flags ''wb'' = Some \<lparr>of_access = WrOnly, of_append = False,
      of_creat = True, of_trunc = True, of_excl = False\<rparr>"
    by (simp add: py_open_flags_def py_flags_def py_valid_def)
  ultimately show ?thesis
    by (simp add: open_raw_def create_default_file_io_def native_file_new_def native_flags_eq
        os_open_def fallback_file_new_def fallback_init_def py_open_path_def Let_def io_defs
        split: option.split)
qed

end
