(* ===== verification/Fallback_Stream.thy ===== *)
theory Fallback_Stream
  imports Memory_Streams
begin

text \<open>
  \<open>FallbackFileIO\<close> of \<open>py_native_io/file.py\<close>: every method delegates to the wrapped stream
  \<open>_sync_stream\<close>; the metaclass adds \<open>aread\<close>, \<open>awrite\<close>, \<open>aclose\<close> and \<open>aflush\<close> that run the
  sync methods in a thread, and \<open>AsyncIOBase\<close> contributes batches and splices.  The wrapped
  stream is arbitrary; a binary file of the standard library is the instance for which the
  source and sink contracts are discharged.
\<close>

section \<open>The delegating methods\<close>

definition fallback_read ::
  "('s, 'x) file_stream_scheme \<Rightarrow> bool \<Rightarrow> int \<Rightarrow> ('s, pydata) io" where
  "fallback_read inner loop sz = attr_call ''read'' (s_read inner) (\<lambda>f. f loop sz)"

definition fallback_readinto ::
  "('s, 'x) file_stream_scheme \<Rightarrow> nat \<Rightarrow> ('s, bytes) io" where
  "fallback_readinto inner n = attr_call ''readinto'' (s_readinto inner) (\<lambda>f. f n)"

definition fallback_write ::
  "('s, 'x) file_stream_scheme \<Rightarrow> bool \<Rightarrow> pydata \<Rightarrow> ('s, int) io" where
  "fallback_write inner loop b = attr_call ''write'' (s_write inner) (\<lambda>f. f loop b)"

definition fallback_close :: "('s, 'x) file_stream_scheme \<Rightarrow> ('s, unit) io" where
  "fallback_close inner = attr_call ''close'' (s_close inner) (\<lambda>f. f)"

definition fallback_flush :: "('s, 'x) file_stream_scheme \<Rightarrow> ('s, unit) io" where
  "fallback_flush inner = attr_call ''flush'' (s_flush inner) (\<lambda>f. f)"

definition fallback_closed :: "('s, 'x) file_stream_scheme \<Rightarrow> ('s, bool) io" where
  "fallback_closed inner = attr_call ''closed'' (s_closed inner) (\<lambda>f. f)"

definition fallback_seek ::
  "('s, 'x) file_stream_scheme \<Rightarrow> int \<Rightarrow> int \<Rightarrow> ('s, int) io" where
  "fallback_seek inner off whence = attr_call ''seek'' (s_seek inner) (\<lambda>f. f off whence)"

definition fallback_tell :: "('s, 'x) file_stream_scheme \<Rightarrow> ('s, int) io" where
  "fallback_tell inner = attr_call ''tell'' (s_tell inner) (\<lambda>f. f)"

definition fallback_readable :: "('s, 'x) file_stream_scheme \<Rightarrow> ('s, bool) io" where
  "fallback_readable inner = attr_call ''readable'' (s_readable inner) (\<lambda>f. f)"

definition fallback_writable :: "('s, 'x) file_stream_scheme \<Rightarrow> ('s, bool) io" where
  "fallback_writable inner = attr_call ''writable'' (s_writable inner) (\<lambda>f. f)"

definition fallback_seekable :: "('s, 'x) file_stream_scheme \<Rightarrow> ('s, bool) io" where
  "fallback_seekable inner = attr_call ''seekable'' (s_seekable inner) (\<lambda>f. f)"

definition fallback_fileno :: "('s, 'x) file_stream_scheme \<Rightarrow> ('s, int) io" where
  "fallback_fileno inner = attr_call ''fileno'' (s_fileno inner) (\<lambda>f. f)"

definition fallback_isatty :: "('s, 'x) file_stream_scheme \<Rightarrow> ('s, bool) io" where
  "fallback_isatty inner = attr_call ''isatty'' (s_isatty inner) (\<lambda>f. f)"

text \<open>
  The object: its own methods, the synthesized ones (which run the own ones off the event
  loop), and those inherited from \<open>AsyncIOBase\<close>.
\<close>

definition fallback_stream ::
  "(int \<Rightarrow> pydata \<Rightarrow> ('s, int) io) \<Rightarrow> ('s, 'x) file_stream_scheme \<Rightarrow> 's file_stream" where
  "fallback_stream os_write inner = \<lparr>
     s_write = Some (fallback_write inner),
     s_awrite = Some (fallback_write inner False),
     s_fileno = Some (fallback_fileno inner),
     s_read = Some (fallback_read inner),
     s_close = Some (fallback_close inner),
     s_flush = Some (fallback_flush inner),
     s_aread = Some (fallback_read inner False),
     s_aclose = Some (fallback_close inner),
     s_aflush = Some (fallback_flush inner),
     s_aread_batch = Some (loop_aread (fallback_read inner False)),
     s_awrite_batch = Some (loop_awrite (fallback_write inner False)),
     s_asplice = Some (base_asplice os_write None (fallback_read inner False)),
     s_readinto = Some (fallback_readinto inner),
     s_seek = Some (fallback_seek inner),
     s_tell = Some (fallback_tell inner),
     s_readable = Some (fallback_readable inner),
     s_writable = Some (fallback_writable inner),
     s_seekable = Some (fallback_seekable inner),
     s_isatty = Some (fallback_isatty inner),
     s_closed = Some (fallback_closed inner)\<rparr>"

text \<open>The batch fields are the inherited methods of \<open>AsyncIOBase\<close> at this object.\<close>

lemma fallback_batches:
  "s_aread_batch (fallback_stream osw inner) =
     Some (base_aread_batch None (fallback_stream osw inner))"
  "s_awrite_batch (fallback_stream osw inner) =
     Some (base_awrite_batch None (fallback_stream osw inner))"
  by (simp_all add: fallback_stream_def base_aread_batch_def base_awrite_batch_def fun_eq_iff
      loop_aread_def loop_awrite_def)

lemma fallback_conforms: "is_async_stream (fallback_stream osw inner)"
  by (simp add: fallback_stream_def is_async_stream_def)

section \<open>A binary file of the standard library\<close>

text \<open>
  What \<open>open(path, mode)\<close> with a binary mode returns, as a file of bytes with a position:
  the access flags decide what it can do, an appending file writes at its end.
\<close>

record pyfile = "byte memfile" +
  pf_readable :: bool
  pf_writable :: bool
  pf_append :: bool

definition pyfile_read :: "int \<Rightarrow> (pyfile, pydata) io" where
  "pyfile_read n = mem_open (\<lambda>s.
     if pf_readable s then mem_take Bytes n s
     else (Inl (UnsupportedOperation ''read''), s))"

definition pyfile_write :: "pydata \<Rightarrow> (pyfile, int) io" where
  "pyfile_write d = mem_open (\<lambda>s.
     if \<not> pf_writable s then (Inl (UnsupportedOperation ''write''), s)
     else (case d of
         Str _ \<Rightarrow> (Inl (TypeError ''a bytes-like object is required, not 'str' ''), s)
       | Bytes b \<Rightarrow>
           mem_put 0 b (if pf_append s then s\<lparr>m_pos := length (m_buf s)\<rparr> else s)))"

definition pyfile_seek :: "int \<Rightarrow> int \<Rightarrow> (pyfile, int) io" where
  "pyfile_seek off whence = mem_open (\<lambda>s.
     if whence \<noteq> 0 \<and> whence \<noteq> 1 \<and> whence \<noteq> 2 then (Inl (ValueError ''invalid whence''), s)
     else
       let p = (if whence = 0 then 0 else if whence = 1 then int (m_pos s)
                else int (length (m_buf s))) + off
       in if p < 0 then (Inl (OSError ''Invalid argument''), s)
          else (Inr p, s\<lparr>m_pos := nat p\<rparr>))"

definition pyfile_stream :: "int \<Rightarrow> pyfile file_stream" where
  "pyfile_stream fd = \<lparr>
     s_write = Some (\<lambda>_. pyfile_write), s_awrite = None,
     s_fileno = Some (mem_open (io_return fd)),
     s_read = Some (\<lambda>_. pyfile_read),
     s_close = Some (\<lambda>s. (Inr (), s\<lparr>m_closed := True\<rparr>)),
     s_flush = Some (mem_open (io_return ())),
     s_aread = None, s_aclose = None, s_aflush = None,
     s_aread_batch = None, s_awrite_batch = None, s_asplice = None,
     s_readinto = Some (\<lambda>n. mem_open (\<lambda>s.
        if \<not> pf_readable s then (Inl (UnsupportedOperation ''readinto''), s)
        else let b = take n (mem_rest s) in (Inr b, s\<lparr>m_pos := m_pos s + length b\<rparr>))),
     s_seek = Some pyfile_seek,
     s_tell = Some (mem_open (\<lambda>s. (Inr (int (m_pos s)), s))),
     s_readable = Some (mem_open (\<lambda>s. (Inr (pf_readable s), s))),
     s_writable = Some (mem_open (\<lambda>s. (Inr (pf_writable s), s))),
     s_seekable = Some (mem_open (io_return True)),
     s_isatty = Some (mem_open (io_return False)),
     s_closed = Some (\<lambda>s. (Inr (m_closed s), s))\<rparr>"

abbreviation file_aread :: "int \<Rightarrow> int \<Rightarrow> (pyfile, pydata) io" where
  "file_aread fd \<equiv> fallback_read (pyfile_stream fd) False"

abbreviation file_awrite :: "int \<Rightarrow> pydata \<Rightarrow> (pyfile, int) io" where
  "file_awrite fd \<equiv> fallback_write (pyfile_stream fd) False"

lemma fallback_read_pyfile: "fallback_read (pyfile_stream fd) l n = pyfile_read n"
  by (simp add: fallback_read_def pyfile_stream_def)

lemma fallback_write_pyfile: "fallback_write (pyfile_stream fd) l b = pyfile_write b"
  by (simp add: fallback_write_def pyfile_stream_def)

definition file_src_ok :: "pyfile \<Rightarrow> bool" where
  "file_src_ok s = (\<not> m_closed s \<and> pf_readable s)"

definition file_snk_ok :: "pyfile \<Rightarrow> bool" where
  "file_snk_ok s = (\<not> m_closed s \<and> pf_writable s \<and> (pf_append s \<or> m_pos s = length (m_buf s)))"

lemma file_take_exact:
  assumes "0 \<le> n" and "file_src_ok s"
  shows "\<exists>s'. file_aread fd n s = (Inr (Bytes (take (nat n) (mem_rest s))), s') \<and>
              mem_rest s' = drop (nat n) (mem_rest s) \<and> file_src_ok s'"
  using assms
  by (auto simp: fallback_read_pyfile pyfile_read_def mem_open_def mem_take_def mem_rest_def
      file_src_ok_def Let_def min_def not_less add.commute)

lemma file_put_at_end:
  assumes "file_snk_ok s"
  shows "\<exists>s'. file_awrite fd (Bytes b) s = (Inr (int (length b)), s') \<and>
              m_buf s' = m_buf s @ b \<and> file_snk_ok s'"
  using assms
  by (cases "b = []")
    (auto simp: fallback_write_pyfile pyfile_write_def mem_open_def mem_put_def file_snk_ok_def)

interpretation file_pipe: exact_pipe Bytes "file_aread fd1" mem_rest file_src_ok
  "file_awrite fd2" m_buf file_snk_ok for fd1 fd2
proof
  fix s :: pyfile and n :: int
  assume ok: "file_src_ok s" and n: "0 \<le> n"
  from file_take_exact [OF n ok, of fd1] obtain s' where s':
    "file_aread fd1 n s = (Inr (Bytes (take (nat n) (mem_rest s))), s')"
    "mem_rest s' = drop (nat n) (mem_rest s)" "file_src_ok s'" by blast
  then show "\<exists>k s'. file_aread fd1 n s = (Inr (Bytes (take k (mem_rest s))), s') \<and> k \<le> nat n \<and>
          (0 < n \<longrightarrow> mem_rest s \<noteq> [] \<longrightarrow> 0 < k) \<and> mem_rest s' = drop k (mem_rest s) \<and>
          file_src_ok s'"
    by (intro exI [of _ "nat n"] exI [of _ s']) simp
next
  fix t :: pyfile and b :: bytes
  assume "file_snk_ok t"
  from file_put_at_end [OF this, of fd2 b] obtain t' where t':
    "file_awrite fd2 (Bytes b) t = (Inr (int (length b)), t')"
    "m_buf t' = m_buf t @ b" "file_snk_ok t'" by blast
  then show "\<exists>k t'. file_awrite fd2 (Bytes b) t = (Inr (int k), t') \<and> k \<le> length b \<and>
               (b \<noteq> [] \<longrightarrow> 0 < k) \<and> m_buf t' = m_buf t @ take k b \<and> file_snk_ok t'"
    by (intro exI [of _ "length b"] exI [of _ t']) simp
  from t' show "fst (file_awrite fd2 (Bytes b) t) = Inr (int (length b))" by simp
qed simp

interpretation file_src: exact_source Bytes "file_aread fd" mem_rest file_src_ok for fd
proof
  fix s :: pyfile and n :: int
  assume "file_src_ok s" and n: "0 \<le> n"
  from file_take_exact [OF n this(1), of fd]
  show "fst (file_aread fd n s) = Inr (Bytes (take (nat n) (mem_rest s)))" by auto
qed simp

end
