(* ===== verification/Utf8.thy ===== *)
theory Utf8
  imports Stream_Prelude
begin

text \<open>
  Python's built-in UTF-8 codec with \<open>errors='strict'\<close>, the one \<open>aprint\<close> always uses
  (\<open>output.encode("utf-8")\<close>) and \<open>AsyncTextIOWrapper\<close> uses by default: encoding fails on
  surrogates, decoding fails on overlong forms, surrogates, stray or missing continuation
  bytes.  The main facts are that decoding inverts encoding and that a cut inside a character
  does not decode.
\<close>

section \<open>Encoding\<close>

definition surrogate :: "nat \<Rightarrow> bool" where
  "surrogate c = (0xD800 \<le> c \<and> c < 0xE000)"

definition scalar :: "nat \<Rightarrow> bool" where
  "scalar c = (c < 0x110000 \<and> \<not> surrogate c)"

definition enc_char :: "nat \<Rightarrow> nat list" where
  "enc_char c =
     (if c < 0x80 then [c]
      else if c < 0x800 then [0xC0 + c div 64, 0x80 + c mod 64]
      else if c < 0x10000 then
        [0xE0 + c div 4096, 0x80 + (c div 64) mod 64, 0x80 + c mod 64]
      else
        [0xF0 + c div 262144, 0x80 + (c div 4096) mod 64,
         0x80 + (c div 64) mod 64, 0x80 + c mod 64])"

definition utf8_encode :: "pstr \<Rightarrow> py_error + bytes" where
  "utf8_encode t =
     (if list_all scalar t then Inr (map word_of_nat (concat (map enc_char t)))
      else Inl UnicodeEncodeError)"

section \<open>Decoding\<close>

definition cont :: "nat \<Rightarrow> bool" where
  "cont b = (0x80 \<le> b \<and> b < 0xC0)"

fun dec_units :: "nat list \<Rightarrow> nat list option" where
  "dec_units [] = Some []"
| "dec_units (a # xs) =
     (if a < 0x80 then map_option (Cons a) (dec_units xs)
      else if 0xC2 \<le> a \<and> a < 0xE0 then
        (case xs of
           b # ys \<Rightarrow>
             if cont b
             then map_option (Cons ((a - 0xC0) * 64 + (b - 0x80))) (dec_units ys)
             else None
         | _ \<Rightarrow> None)
      else if 0xE0 \<le> a \<and> a < 0xF0 then
        (case xs of
           b # c # ys \<Rightarrow>
             (let v = (a - 0xE0) * 4096 + (b - 0x80) * 64 + (c - 0x80) in
              if cont b \<and> cont c \<and> 0x800 \<le> v \<and> \<not> surrogate v
              then map_option (Cons v) (dec_units ys) else None)
         | _ \<Rightarrow> None)
      else if 0xF0 \<le> a \<and> a < 0xF5 then
        (case xs of
           b # c # d # ys \<Rightarrow>
             (let v = (a - 0xF0) * 262144 + (b - 0x80) * 4096 + (c - 0x80) * 64 + (d - 0x80) in
              if cont b \<and> cont c \<and> cont d \<and> 0x10000 \<le> v \<and> v < 0x110000
              then map_option (Cons v) (dec_units ys) else None)
         | _ \<Rightarrow> None)
      else None)"

definition utf8_decode :: "bytes \<Rightarrow> py_error + pstr" where
  "utf8_decode bs =
     (case dec_units (map unat bs) of Some t \<Rightarrow> Inr t | None \<Rightarrow> Inl UnicodeDecodeError)"

section \<open>Round trip\<close>

lemma enc_char_byte: "scalar c \<Longrightarrow> b \<in> set (enc_char c) \<Longrightarrow> b < 256"
  by (auto simp: enc_char_def scalar_def split: if_splits)

lemma split64: "(c div 64) * 64 + c mod 64 = (c::nat)"
  by simp

lemma split4096: "(c div 4096) * 4096 + (c div 64 mod 64) * 64 + c mod 64 = (c::nat)"
proof -
  have "c div 4096 = c div 64 div 64" by (simp add: div_mult2_eq [symmetric])
  then show ?thesis using split64 [of "c div 64"] split64 [of c] by linarith
qed

lemma split262144:
  "(c div 262144) * 262144 + (c div 4096 mod 64) * 4096 + (c div 64 mod 64) * 64 + c mod 64 =
   (c::nat)"
proof -
  have "c div 262144 = c div 4096 div 64" by (simp add: div_mult2_eq [symmetric])
  then show ?thesis using split64 [of "c div 4096"] split4096 [of c] by linarith
qed

lemma dec_two:
  "\<lbrakk>2 \<le> q; q < 32; r < 64\<rbrakk> \<Longrightarrow>
   dec_units ((0xC0 + q) # (0x80 + r) # ys) = map_option (Cons (q * 64 + r)) (dec_units ys)"
  by (simp add: cont_def)

lemma dec_three:
  "\<lbrakk>p < 16; q < 64; r < 64; 0x800 \<le> p * 4096 + q * 64 + r; \<not> surrogate (p * 4096 + q * 64 + r)\<rbrakk>
   \<Longrightarrow> dec_units ((0xE0 + p) # (0x80 + q) # (0x80 + r) # ys) =
       map_option (Cons (p * 4096 + q * 64 + r)) (dec_units ys)"
  by (simp add: cont_def Let_def)

lemma dec_four:
  "\<lbrakk>o' < 5; p < 64; q < 64; r < 64;
    0x10000 \<le> o' * 262144 + p * 4096 + q * 64 + r;
    o' * 262144 + p * 4096 + q * 64 + r < 0x110000\<rbrakk>
   \<Longrightarrow> dec_units ((0xF0 + o') # (0x80 + p) # (0x80 + q) # (0x80 + r) # ys) =
       map_option (Cons (o' * 262144 + p * 4096 + q * 64 + r)) (dec_units ys)"
  by (simp add: cont_def Let_def)

declare dec_units.simps(2) [simp del]

lemma dec_enc_char:
  assumes "scalar c"
  shows "dec_units (enc_char c @ rest) = map_option (Cons c) (dec_units rest)"
proof -
  consider "c < 0x80" | "0x80 \<le> c" "c < 0x800" | "0x800 \<le> c" "c < 0x10000"
    | "0x10000 \<le> c" "c < 0x110000"
    using assms unfolding scalar_def by linarith
  then show ?thesis
  proof cases
    case 1
    then show ?thesis by (simp add: enc_char_def dec_units.simps(2))
  next
    case 2
    then have "2 \<le> c div 64" "c div 64 < 32" by auto
    from dec_two [OF this, of "c mod 64" rest] 2 show ?thesis
      by (simp add: enc_char_def)
  next
    case 3
    then have "c div 4096 < 16" by auto
    from dec_three [OF this, of "c div 64 mod 64" "c mod 64" rest] 3 assms show ?thesis
      by (simp add: enc_char_def split4096 scalar_def)
  next
    case 4
    then have "c div 262144 < 5" by auto
    from dec_four [OF this, of "c div 4096 mod 64" "c div 64 mod 64" "c mod 64" rest] 4
    show ?thesis by (simp add: enc_char_def split262144)
  qed
qed

lemma dec_enc_chars: "list_all scalar t \<Longrightarrow> dec_units (concat (map enc_char t)) = Some t"
  by (induction t) (simp_all add: dec_enc_char)

lemma unat_of_enc_chars:
  assumes "list_all scalar t"
  shows "map (\<lambda>b. unat (word_of_nat b :: byte)) (concat (map enc_char t)) =
         concat (map enc_char t)"
  using assms
  by (intro map_idI) (force simp: unat_of_nat list_all_iff dest: enc_char_byte intro: mod_less)

lemma decode_encode: "utf8_encode t = Inr bs \<Longrightarrow> utf8_decode bs = Inr t"
  by (auto simp: utf8_encode_def utf8_decode_def comp_def unat_of_enc_chars dec_enc_chars
      split: if_splits)

lemma encode_ascii: "list_all (\<lambda>c. c < 0x80) t \<Longrightarrow> utf8_encode t = Inr (map word_of_nat t)"
proof -
  assume a: "list_all (\<lambda>c. c < 0x80) t"
  then have "list_all scalar t"
    by (auto simp: list_all_iff scalar_def surrogate_def)
  moreover from a have "concat (map enc_char t) = t"
    by (induction t) (simp_all add: enc_char_def)
  ultimately show ?thesis by (simp add: utf8_encode_def)
qed

lemma utf8_encode_cases: "utf8_encode t = Inl e \<Longrightarrow> e = UnicodeEncodeError"
  by (auto simp: utf8_encode_def split: if_splits)

lemma utf8_encode_append:
  "utf8_encode (t @ u) =
     (case utf8_encode t of Inl e \<Rightarrow> Inl e
      | Inr a \<Rightarrow> (case utf8_encode u of Inl e \<Rightarrow> Inl e | Inr b \<Rightarrow> Inr (a @ b)))"
  by (auto simp: utf8_encode_def)

text \<open>The first byte of a multi-byte character alone is not valid UTF-8.\<close>

lemma dec_units_lead_alone: "0x80 \<le> a \<Longrightarrow> dec_units [a] = None"
  by (simp add: dec_units.simps(2))

text \<open>Whatever has been decoded can be encoded again: there are no surrogates in it.\<close>

lemma scalar_units:
  "a < 0x80 \<Longrightarrow> scalar a"
  "\<not> 0xE0 \<le> a \<Longrightarrow> cont b \<Longrightarrow> scalar ((a - 0xC0) * 64 + (b - 0x80))"
  "\<not> 0xF0 \<le> a \<Longrightarrow> cont b \<Longrightarrow> cont c \<Longrightarrow> \<not> surrogate ((a - 0xE0) * 4096 + (b - 0x80) * 64 + (c - 0x80)) \<Longrightarrow>
   scalar ((a - 0xE0) * 4096 + (b - 0x80) * 64 + (c - 0x80))"
  "0x10000 \<le> v \<Longrightarrow> v < 0x110000 \<Longrightarrow> scalar v"
  unfolding scalar_def surrogate_def cont_def by linarith+

lemma utf8_decode_scalar: "utf8_decode b = Inr t \<Longrightarrow> list_all scalar t"
proof -
  have "dec_units us = Some t \<Longrightarrow> list_all scalar t" for us
  proof (induction us arbitrary: t rule: dec_units.induct)
    case (2 a xs)
    note run = "2.prems" [unfolded dec_units.simps(2)]
    consider "a < 0x80" | "0x80 \<le> a" "a < 0xE0" | "0xE0 \<le> a" "a < 0xF0" | "0xF0 \<le> a" by linarith
    then show ?case
    proof cases
      case 1
      with run "2.IH"(1) show ?thesis by (auto intro: scalar_units)
    next
      case 2
      then have "\<not> a < 0x80" "\<not> 0xE0 \<le> a" "\<not> 0xF0 \<le> a" by simp_all
      with run 2 show ?thesis using "2.IH"(2)
        by (auto intro: scalar_units split: if_splits list.splits)
    next
      case 3
      then have "\<not> a < 0x80" "\<not> a < 0xE0" "\<not> 0xF0 \<le> a" by simp_all
      with run 3 show ?thesis using "2.IH"(3)
        by (auto simp: Let_def intro: scalar_units split: if_splits list.splits)
    next
      case 4
      then have "\<not> a < 0x80" "\<not> a < 0xE0" "\<not> a < 0xF0" by simp_all
      with run 4 show ?thesis using "2.IH"(4)
        by (auto simp: Let_def intro: scalar_units(4) split: if_splits list.splits)
    qed
  qed (simp add: dec_units.simps(1))
  then show "utf8_decode b = Inr t \<Longrightarrow> list_all scalar t"
    by (auto simp: utf8_decode_def split: option.splits)
qed

end
