(* ===== verification/Buffered_Streams.thy ===== *)
theory Buffered_Streams
  imports Fallback_Stream Socket_Stream Utf8
begin

text \<open>
  \<open>py_native_io/buffered.py\<close>: \<open>AsyncBufferedReader\<close>, \<open>AsyncBufferedWriter\<close>,
  \<open>AsyncBufferedRandom\<close> and \<open>AsyncTextIOWrapper\<close>.  Their sync methods are those of the standard
  library's buffered classes (modelled after its Python implementation, \<open>_pyio\<close>), which keep a
  buffer in front of the raw stream; their async methods go to the raw stream (or, for text, to
  the binary stream below) whenever it has the async method.  The state of a buffered object
  is the pair of its buffer and the state of the raw stream.
\<close>

section \<open>Sync reads and writes of the standard library\<close>

text \<open>\<open>BufferedReader.read(n)\<close> for \<open>0 <= n\<close>: raw reads of \<open>wanted\<close> bytes until \<open>need\<close> are there.\<close>

function fill_loop ::
  "('s, 'x) stream_scheme \<Rightarrow> bool \<Rightarrow> nat \<Rightarrow> nat \<Rightarrow> bytes \<Rightarrow> 's \<Rightarrow> (py_error + bytes) \<times> 's" where
  "fill_loop raw loop need wanted acc s =
     (if need = 0 then (Inr acc, s)
      else (case attr_call ''read'' (s_read raw) (\<lambda>f. f loop (int wanted)) s of
          (Inl e, s') \<Rightarrow> (Inl e, s')
        | (Inr (Str t), s') \<Rightarrow> (Inl (TypeError ''read() should return bytes''), s')
        | (Inr (Bytes c), s') \<Rightarrow>
            if c = [] then (Inr acc, s')
            else fill_loop raw loop (need - length c) wanted (acc @ c) s'))"
  by pat_completeness auto
termination
  by (relation "measure (\<lambda>(raw, loop, need, wanted, acc, s). need)") auto

declare fill_loop.simps [simp del]

record readbuf =
  rb_size :: nat
  rb_data :: bytes

text \<open>
  \<open>read(-1)\<close>: the buffer, then raw reads without a size until one returns nothing.  It may
  never return (\<open>None\<close>).
\<close>

partial_function (option) read_all_loop ::
  "('s, 'x) stream_scheme \<Rightarrow> bool \<Rightarrow> bytes \<Rightarrow> 's \<Rightarrow> ((py_error + bytes) \<times> 's) option" where
  "read_all_loop raw loop acc s =
     (case attr_call ''read'' (s_read raw) (\<lambda>f. f loop (-1)) s of
        (Inl e, s') \<Rightarrow> Some (Inl e, s')
      | (Inr (Str t), s') \<Rightarrow> Some (Inl (TypeError ''read() should return bytes''), s')
      | (Inr (Bytes c), s') \<Rightarrow>
          if c = [] then Some (Inr acc, s') else read_all_loop raw loop (acc @ c) s')"

definition reader_read_all ::
  "('s, 'x) stream_scheme \<Rightarrow> bool \<Rightarrow> (readbuf \<times> 's, pydata) blocking_io" where
  "reader_read_all raw loop = (\<lambda>(b, s).
     map_option (\<lambda>(r, s'). (map_sum id Bytes r, (b\<lparr>rb_data := []\<rparr>, s')))
       (read_all_loop raw loop (rb_data b) s))"

definition reader_read_upto ::
  "('s, 'x) stream_scheme \<Rightarrow> bool \<Rightarrow> nat \<Rightarrow> (readbuf \<times> 's, pydata) io" where
  "reader_read_upto raw loop k = (\<lambda>(b, s).
     let avail = length (rb_data b) in
     if k \<le> avail then
       (Inr (Bytes (take k (rb_data b))), (b\<lparr>rb_data := drop k (rb_data b)\<rparr>, s))
     else (case fill_loop raw loop (k - avail) (max (rb_size b) k) (rb_data b) s of
         (Inl e, s') \<Rightarrow> (Inl e, (b, s'))
       | (Inr out, s') \<Rightarrow> (Inr (Bytes (take k out)), (b\<lparr>rb_data := drop k out\<rparr>, s'))))"

definition reader_read ::
  "('s, 'x) stream_scheme \<Rightarrow> bool \<Rightarrow> int \<Rightarrow> (readbuf \<times> 's, pydata) blocking_io" where
  "reader_read raw loop n = (\<lambda>st.
     if n < -1 then Some (Inl (ValueError ''read length must be non-negative or -1''), st)
     else if n = -1 then reader_read_all raw loop st
     else Some (reader_read_upto raw loop (nat n) st))"

text \<open>
  \<open>BufferedWriter\<close>: pending bytes; a flush writes until nothing is pending (a raw write may be
  partial), a write first makes room, then adds, then flushes if the buffer is overfull.
\<close>

record writebuf =
  wb_size :: nat
  wb_data :: bytes

partial_function (option) flush_loop ::
  "('s, 'x) stream_scheme \<Rightarrow> bool \<Rightarrow> bytes \<Rightarrow> 's \<Rightarrow> ((py_error + unit) \<times> bytes \<times> 's) option" where
  "flush_loop raw loop pend s =
     (if pend = [] then Some (Inr (), [], s)
      else (case attr_call ''write'' (s_write raw) (\<lambda>f. f loop (Bytes pend)) s of
          (Inl e, s') \<Rightarrow> Some (Inl e, pend, s')
        | (Inr n, s') \<Rightarrow>
            if n < 0 \<or> int (length pend) < n
            then Some (Inl (OSError ''write() returned incorrect number of bytes''), pend, s')
            else flush_loop raw loop (drop (nat n) pend) s'))"

definition writer_flush ::
  "('s, 'x) stream_scheme \<Rightarrow> bool \<Rightarrow> (writebuf \<times> 's, unit) blocking_io" where
  "writer_flush raw loop = (\<lambda>(b, s).
     map_option (\<lambda>(r, pend, s'). (r, (b\<lparr>wb_data := pend\<rparr>, s'))) (flush_loop raw loop (wb_data b) s))"

definition writer_add :: "bytes \<Rightarrow> writebuf \<Rightarrow> writebuf" where
  "writer_add d b = b\<lparr>wb_data := wb_data b @ d\<rparr>"

definition writer_flush_if_over ::
  "('s, 'x) stream_scheme \<Rightarrow> bool \<Rightarrow> (writebuf \<times> 's, unit) blocking_io" where
  "writer_flush_if_over raw loop = (\<lambda>(b, s).
     if wb_size b < length (wb_data b) then writer_flush raw loop (b, s)
     else Some (Inr (), (b, s)))"

definition writer_write ::
  "('s, 'x) stream_scheme \<Rightarrow> bool \<Rightarrow> pydata \<Rightarrow> (writebuf \<times> 's, int) blocking_io" where
  "writer_write raw loop d = (\<lambda>st.
     case d of
       Str t \<Rightarrow> Some (Inl (TypeError ''can't write str to binary stream''), st)
     | Bytes c \<Rightarrow>
         (case writer_flush_if_over raw loop st of
            None \<Rightarrow> None
          | Some (Inl e, st') \<Rightarrow> Some (Inl e, st')
          | Some (Inr _, (b, s)) \<Rightarrow>
              (case writer_flush_if_over raw loop (writer_add c b, s) of
                 None \<Rightarrow> None
               | Some (Inl e, st'') \<Rightarrow> Some (Inl e, st'')
               | Some (Inr _, st'') \<Rightarrow> Some (Inr (int (length c)), st''))))"

section \<open>The async methods of the library\<close>

text \<open>
  \<open>hasattr(self.raw, "aread")\<close> decides; otherwise \<open>super()\<close>, which is \<open>AsyncIOBase\<close>: the sync
  method in a thread, given here as \<open>super\<close>.
\<close>

definition prefer_raw ::
  "('a \<Rightarrow> ('s, 'b) io) option \<Rightarrow> ('a \<Rightarrow> ('c \<times> 's, 'b) io) \<Rightarrow> 'a \<Rightarrow> ('c \<times> 's, 'b) io" where
  "prefer_raw raw_method super x =
     (case raw_method of Some f \<Rightarrow> on_snd (f x) | None \<Rightarrow> super x)"

definition areader_aread ::
  "('s, 'x) stream_scheme \<Rightarrow> (int \<Rightarrow> ('c \<times> 's, pydata) io) \<Rightarrow> int
     \<Rightarrow> ('c \<times> 's, pydata) io" where
  "areader_aread raw super sz = prefer_raw (s_aread raw) super sz"

definition areader_aread_batch ::
  "('s, 'x) stream_scheme \<Rightarrow> (int \<Rightarrow> ('c \<times> 's, pydata) io) \<Rightarrow> read_spec list
     \<Rightarrow> ('c \<times> 's, pydata list) io" where
  "areader_aread_batch raw super specs =
     prefer_raw (s_aread_batch raw) (loop_aread (areader_aread raw super)) specs"

definition awriter_awrite ::
  "('s, 'x) stream_scheme \<Rightarrow> (pydata \<Rightarrow> ('c \<times> 's, int) io) \<Rightarrow> pydata
     \<Rightarrow> ('c \<times> 's, int) io" where
  "awriter_awrite raw super b = prefer_raw (s_awrite raw) super b"

definition awriter_awrite_batch ::
  "('s, 'x) stream_scheme \<Rightarrow> (pydata \<Rightarrow> ('c \<times> 's, int) io) \<Rightarrow> pydata list
     \<Rightarrow> ('c \<times> 's, int list) io" where
  "awriter_awrite_batch raw super chunks =
     prefer_raw (s_awrite_batch raw) (loop_awrite (awriter_awrite raw super)) chunks"

text \<open>
  \<open>AsyncBufferedRandom\<close>; \<open>'c\<close> is the buffer of CPython's \<open>BufferedRandom\<close>, whose sync
  methods are the arguments \<open>super\<close>.
\<close>

definition arandom_aread ::
  "('s, 'x) stream_scheme \<Rightarrow> (int \<Rightarrow> ('c \<times> 's, pydata) io) \<Rightarrow> int \<Rightarrow> ('c \<times> 's, pydata) io" where
  "arandom_aread raw super sz = prefer_raw (s_aread raw) super sz"

definition arandom_aread_batch ::
  "('s, 'x) stream_scheme \<Rightarrow> (int \<Rightarrow> ('c \<times> 's, pydata) io) \<Rightarrow> read_spec list
     \<Rightarrow> ('c \<times> 's, pydata list) io" where
  "arandom_aread_batch raw super specs =
     prefer_raw (s_aread_batch raw) (loop_aread (arandom_aread raw super)) specs"

definition arandom_awrite ::
  "('s, 'x) stream_scheme \<Rightarrow> (pydata \<Rightarrow> ('c \<times> 's, int) io) \<Rightarrow> pydata \<Rightarrow> ('c \<times> 's, int) io" where
  "arandom_awrite raw super b = prefer_raw (s_awrite raw) super b"

definition arandom_awrite_batch ::
  "('s, 'x) stream_scheme \<Rightarrow> (pydata \<Rightarrow> ('c \<times> 's, int) io) \<Rightarrow> pydata list
     \<Rightarrow> ('c \<times> 's, int list) io" where
  "arandom_awrite_batch raw super chunks =
     prefer_raw (s_awrite_batch raw) (loop_awrite (arandom_awrite raw super)) chunks"

text \<open>
  \<open>AsyncTextIOWrapper\<close>: \<open>dec\<close> and \<open>enc\<close> are the codec of \<open>self.encoding or "utf-8"\<close> with
  \<open>self.errors or "strict"\<close>, \<open>buf\<close> is the method of the same name of \<open>self.buffer\<close> where it
  has one, and \<open>super\<close> the inherited method.
\<close>

definition text_aread ::
  "(bytes \<Rightarrow> py_error + pstr) \<Rightarrow> (int \<Rightarrow> ('s, pydata) io) \<Rightarrow> (int \<Rightarrow> ('s, pydata) io) option \<Rightarrow> int
     \<Rightarrow> ('s, pydata) io" where
  "text_aread dec super buf sz =
     (case buf of
        Some f \<Rightarrow> io_bind (f sz) (\<lambda>raw.
          case raw of
            Bytes b \<Rightarrow> (case dec b of Inl e \<Rightarrow> io_raise e | Inr t \<Rightarrow> io_return (Str t))
          | Str _ \<Rightarrow> io_raise (AttributeError ''decode''))
      | None \<Rightarrow> io_bind (super sz) (\<lambda>res.
          case res of
            Bytes b \<Rightarrow> (case utf8_decode b of Inl e \<Rightarrow> io_raise e | Inr t \<Rightarrow> io_return (Str t))
          | Str t \<Rightarrow> io_return (Str t)))"

definition text_awrite ::
  "(pstr \<Rightarrow> py_error + bytes) \<Rightarrow> (pydata \<Rightarrow> ('s, int) io) \<Rightarrow> (pydata \<Rightarrow> ('s, int) io) option
     \<Rightarrow> pydata \<Rightarrow> ('s, int) io" where
  "text_awrite enc super buf d =
     (case (case d of Str t \<Rightarrow> map_sum id Bytes (enc t) | Bytes b \<Rightarrow> Inr (Bytes b)) of
        Inl e \<Rightarrow> io_raise e
      | Inr data \<Rightarrow> (case buf of Some f \<Rightarrow> f data | None \<Rightarrow> super d))"

section \<open>Readers over a raw source\<close>

text \<open>A raw stream whose \<open>read\<close> and \<open>aread\<close> both hand out the bytes of one source.\<close>

locale raw_source = chunk_source Bytes rd rest src_ok
  for rd :: "int \<Rightarrow> ('s, pydata) io" and rest src_ok +
  fixes raw :: "('s, 'x) stream_scheme"
  assumes raw_read: "s_read raw = Some (\<lambda>_. rd)"
    and raw_aread: "s_aread raw = Some rd"
begin

lemma fill_loop_law:
  assumes "src_ok s" and "need \<le> wanted"
  shows "\<exists>out s'. fill_loop raw loop need wanted acc s = (Inr out, s') \<and>
           out @ rest s' = acc @ rest s \<and> src_ok s' \<and>
           (length acc + need \<le> length out \<or> rest s' = [])"
  using assms
proof (induction need arbitrary: acc s rule: less_induct)
  case (less need)
  show ?case
  proof (cases "need = 0")
    case True
    with less.prems show ?thesis by (simp add: fill_loop.simps)
  next
    case False
    with less.prems obtain k s1 where one:
      "rd (int wanted) s = (Inr (Bytes (take k (rest s))), s1)"
      "rest s \<noteq> [] \<longrightarrow> 0 < k" "rest s1 = drop k (rest s)" "src_ok s1"
      using rd_law [of s "int wanted"] by auto
    show ?thesis
    proof (cases "rest s = []")
      case True
      with one False show ?thesis
        by (subst fill_loop.simps) (simp add: raw_read)
    next
      case nonempty: False
      let ?c = "take k (rest s)"
      have c: "?c \<noteq> []" "0 < length ?c" using nonempty one(2) by auto
      have smaller: "need - length ?c < need" using False c by linarith
      have "need - length ?c \<le> wanted" using less.prems(2) by linarith
      from less.IH [OF smaller one(4) this, of "acc @ ?c"] obtain out s' where more:
        "fill_loop raw loop (need - length ?c) wanted (acc @ ?c) s1 = (Inr out, s')"
        "out @ rest s' = (acc @ ?c) @ rest s1" "src_ok s'"
        "length (acc @ ?c) + (need - length ?c) \<le> length out \<or> rest s' = []" by auto
      have "fill_loop raw loop need wanted acc s = (Inr out, s')"
        using one(1) more(1) c False by (subst fill_loop.simps) (simp add: raw_read)
      moreover have "length acc + need \<le> length out \<or> rest s' = []"
        using more(4) by auto
      ultimately show ?thesis using more(2,3) one(3) by (intro exI) auto
    qed
  qed
qed

lemma reader_read_law:
  assumes "src_ok s" and "0 \<le> n"
  shows "\<exists>b' s'. reader_read raw loop n (b, s) =
             Some (Inr (Bytes (take (nat n) (rb_data b @ rest s))), (b', s')) \<and>
           rb_data b' @ rest s' = drop (nat n) (rb_data b @ rest s) \<and>
           rb_size b' = rb_size b \<and> src_ok s'"
proof -
  let ?k = "nat n"
  have rd: "reader_read raw loop n st = Some (reader_read_upto raw loop ?k st)" for st
    using assms(2) by (simp add: reader_read_def)
  show ?thesis
  proof (cases "?k \<le> length (rb_data b)")
    case True
    with assms(1) show ?thesis
      by (intro exI [of _ "b\<lparr>rb_data := drop ?k (rb_data b)\<rparr>"] exI [of _ s])
        (simp add: rd reader_read_upto_def Let_def)
  next
    case False
    have "?k - length (rb_data b) \<le> max (rb_size b) ?k" by simp
    from fill_loop_law [OF assms(1) this, of loop "rb_data b"]
    obtain out s' where fl:
      "fill_loop raw loop (?k - length (rb_data b)) (max (rb_size b) ?k) (rb_data b) s = (Inr out, s')"
      "out @ rest s' = rb_data b @ rest s" "src_ok s'"
      "length (rb_data b) + (?k - length (rb_data b)) \<le> length out \<or> rest s' = []" by auto
    have "take ?k out = take ?k (out @ rest s') \<and> drop ?k out @ rest s' = drop ?k (out @ rest s')"
      using fl(4) False by auto
    with fl False show ?thesis
      by (intro exI [of _ "b\<lparr>rb_data := drop ?k out\<rparr>"] exI [of _ s'])
        (simp add: rd reader_read_upto_def Let_def)
  qed
qed

text \<open>
  A source that answers a read without size with all it has: \<open>read(-1)\<close> returns the buffer and
  that.
\<close>

lemma read_all_law:
  assumes all: "rd (-1) s = (Inr (Bytes (rest s)), s')" "rest s' = []"
    and again: "rd (-1) s' = (Inr (Bytes []), s')"
  shows "reader_read raw loop (-1) (b, s) =
           Some (Inr (Bytes (rb_data b @ rest s)), (b\<lparr>rb_data := []\<rparr>, s'))"
proof -
  have again': "read_all_loop raw loop acc s' = Some (Inr acc, s')" for acc
    using again by (subst read_all_loop.simps) (simp add: raw_read)
  have "read_all_loop raw loop (rb_data b) s = Some (Inr (rb_data b @ rest s), s')"
    using all again' by (subst read_all_loop.simps) (simp add: raw_read)
  then show ?thesis by (simp add: reader_read_def reader_read_all_def)
qed

lemma areader_bypass: "areader_aread raw super n (b, s) = (case rd n s of (r, s') \<Rightarrow> (r, (b, s')))"
  by (simp add: areader_aread_def prefer_raw_def raw_aread)

end

section \<open>Writers over a raw sink\<close>

locale raw_sink = chunk_sink Bytes wr out snk_ok
  for wr :: "pydata \<Rightarrow> ('s, int) io" and out snk_ok +
  fixes raw :: "('s, 'x) stream_scheme"
  assumes raw_write: "s_write raw = Some (\<lambda>_. wr)"
    and raw_awrite: "s_awrite raw = Some wr"
begin

lemma flush_loop_all:
  assumes "snk_ok t"
  shows "\<exists>t'. flush_loop raw loop pend t = Some (Inr (), [], t') \<and> out t' = out t @ pend \<and> snk_ok t'"
  using assms
proof (induction "length pend" arbitrary: pend t rule: less_induct)
  case less
  show ?case
  proof (cases "pend = []")
    case True
    with less.prems show ?thesis by (simp add: flush_loop.simps)
  next
    case False
    with less.prems obtain k t1 where one: "wr (Bytes pend) t = (Inr (int k), t1)" "0 < k"
      "k \<le> length pend" "out t1 = out t @ take k pend" "snk_ok t1"
      using wr_law [of t pend] by auto
    have "length (drop k pend) < length pend" using one(2) False by (simp add: diff_less)
    from less.hyps [OF this one(5)] obtain t' where more:
      "flush_loop raw loop (drop k pend) t1 = Some (Inr (), [], t')"
      "out t' = out t1 @ drop k pend" "snk_ok t'" by auto
    have "flush_loop raw loop pend t = Some (Inr (), [], t')"
      using one more(1) False by (subst flush_loop.simps) (simp add: raw_write)
    with more one(4) show ?thesis by auto
  qed
qed

lemma writer_flush_law:
  assumes "snk_ok t"
  shows "\<exists>t'. writer_flush raw loop (b, t) = Some (Inr (), (b\<lparr>wb_data := []\<rparr>, t')) \<and>
              out t' = out t @ wb_data b \<and> snk_ok t'"
  using flush_loop_all [OF assms, of loop "wb_data b"] by (auto simp: writer_flush_def)

lemma flush_if_over_law:
  assumes "snk_ok t"
  shows "\<exists>b' t'. writer_flush_if_over raw loop (b, t) = Some (Inr (), (b', t')) \<and>
           out t' @ wb_data b' = out t @ wb_data b \<and> length (wb_data b') \<le> wb_size b \<and>
           wb_size b' = wb_size b \<and> snk_ok t'"
proof (cases "wb_size b < length (wb_data b)")
  case True
  with writer_flush_law [OF assms, of loop b] show ?thesis
    by (auto simp: writer_flush_if_over_def)
next
  case False
  with assms show ?thesis by (auto simp: writer_flush_if_over_def)
qed

lemma writer_write_law:
  assumes "snk_ok t"
  shows "\<exists>b' t'. writer_write raw loop (Bytes c) (b, t) =
             Some (Inr (int (length c)), (b', t')) \<and>
           out t' @ wb_data b' = out t @ wb_data b @ c \<and> length (wb_data b') \<le> wb_size b \<and>
           wb_size b' = wb_size b \<and> snk_ok t'"
proof -
  from flush_if_over_law [OF assms, of loop b] obtain b1 t1 where one:
    "writer_flush_if_over raw loop (b, t) = Some (Inr (), (b1, t1))"
    "out t1 @ wb_data b1 = out t @ wb_data b" "wb_size b1 = wb_size b" "snk_ok t1" by auto
  from flush_if_over_law [OF one(4), of loop "writer_add c b1"] obtain b2 t2 where two:
    "writer_flush_if_over raw loop (writer_add c b1, t1) = Some (Inr (), (b2, t2))"
    "out t2 @ wb_data b2 = out t1 @ wb_data (writer_add c b1)"
    "length (wb_data b2) \<le> wb_size (writer_add c b1)"
    "wb_size b2 = wb_size (writer_add c b1)" "snk_ok t2" by auto
  have add: "wb_data (writer_add c b1) = wb_data b1 @ c" "wb_size (writer_add c b1) = wb_size b1"
    by (simp_all add: writer_add_def)
  have "out t2 @ wb_data b2 = (out t1 @ wb_data b1) @ c" using two(2) add(1) by simp
  with one two add show ?thesis by (simp add: writer_write_def)
qed

lemma awriter_bypass:
  "awriter_awrite raw super d (b, t) = (case wr d t of (r, t') \<Rightarrow> (r, (b, t')))"
  by (simp add: awriter_awrite_def prefer_raw_def raw_awrite)

end

text \<open>
  Both contracts hold for the raw streams the library itself puts below a buffer:
  \<open>FallbackFileIO\<close> on a binary file, and \<open>AsyncSocketIO\<close>.
\<close>

abbreviation file_raw :: "(int \<Rightarrow> pydata \<Rightarrow> (pyfile, int) io) \<Rightarrow> int \<Rightarrow> pyfile file_stream" where
  "file_raw osw fd \<equiv> fallback_stream osw (pyfile_stream fd)"

interpretation file_reader: raw_source "file_aread fd" mem_rest file_src_ok "file_raw osw fd"
  for osw fd
  by unfold_locales
    (simp_all add: fallback_stream_def fallback_read_pyfile fun_eq_iff)

interpretation file_writer: raw_sink "file_awrite fd" m_buf file_snk_ok "file_raw osw fd"
  for osw fd
  by unfold_locales
    (simp_all add: fallback_stream_def fallback_write_pyfile fun_eq_iff)

interpretation sock_reader: raw_source asocket_aread sock_rest sock_src_ok "asocket_stream osw"
  for osw
  by unfold_locales (simp_all add: asocket_stream_def)

interpretation sock_writer: raw_sink asocket_awrite sk_sent sock_snk_ok "asocket_stream osw"
  for osw
  by unfold_locales (simp_all add: asocket_stream_def asocket_awrite_def fun_eq_iff)

section \<open>Exact sources: what a buffered read takes from the raw stream\<close>

text \<open>
  From an exact source a sync read that does not fit the (empty) buffer takes one chunk of
  \<open>max buffer_size n\<close>, and only returns that chunk's first \<open>n\<close> bytes.
\<close>

lemma fill_loop_file:
  assumes "file_src_ok s" and "0 < need" and "need \<le> wanted"
  shows "\<exists>s'. fill_loop (file_raw osw fd) loop need wanted acc s =
             (Inr (acc @ take wanted (mem_rest s)), s') \<and>
           mem_rest s' = drop wanted (mem_rest s) \<and> file_src_ok s'"
proof -
  let ?data = "mem_rest s"
  from file_src.rd_exact_step [OF assms(1), of "int wanted" fd] obtain s1 where one:
    "file_aread fd (int wanted) s = (Inr (Bytes (take wanted ?data)), s1)"
    "mem_rest s1 = drop wanted ?data" "file_src_ok s1" by auto
  from file_src.rd_exact_step [OF one(3), of "int wanted" fd] obtain s2 where two:
    "file_aread fd (int wanted) s1 = (Inr (Bytes (take wanted (mem_rest s1))), s2)"
    "mem_rest s2 = drop wanted (mem_rest s1)" "file_src_ok s2" by auto
  have step: "s_read (file_raw osw fd) = Some (\<lambda>_. file_aread fd)"
    by (rule file_reader.raw_read)
  show ?thesis
  proof (cases "need \<le> length ?data")
    case True
    then have enough: "need - length (take wanted ?data) = 0" "take wanted ?data \<noteq> []"
      using assms(2,3) by auto
    have "fill_loop (file_raw osw fd) loop need wanted acc s =
            fill_loop (file_raw osw fd) loop 0 wanted (acc @ take wanted ?data) s1"
      using one(1) enough assms(2) step by (subst fill_loop.simps) simp
    with one(2,3) show ?thesis by (simp add: fill_loop.simps)
  next
    case False
    then have short: "take wanted ?data = ?data" "mem_rest s1 = []" "mem_rest s2 = []"
      using assms(3) one(2) two(2) by simp_all
    show ?thesis
    proof (cases "?data = []")
      case True
      with one(1) assms(2) step have "fill_loop (file_raw osw fd) loop need wanted acc s =
          (Inr acc, s1)" by (subst fill_loop.simps) simp
      with True one(2,3) show ?thesis by simp
    next
      case nonempty: False
      have "fill_loop (file_raw osw fd) loop (need - length ?data) wanted (acc @ ?data) s1 =
              (Inr (acc @ ?data), s2)"
        using two(1) short False step by (subst fill_loop.simps) simp
      then have "fill_loop (file_raw osw fd) loop need wanted acc s = (Inr (acc @ ?data), s2)"
        using one(1) short(1) nonempty assms(2) step by (subst fill_loop.simps) simp
      with short two(3) one(2) show ?thesis by simp
    qed
  qed
qed

section \<open>Properties\<close>

definition demo_file :: "bytes \<Rightarrow> nat \<Rightarrow> pyfile" where
  "demo_file b p = \<lparr>m_buf = b, m_pos = p, m_closed = False,
     pf_readable = True, pf_writable = True, pf_append = False\<rparr>"

definition demo_sock :: "bytes list \<Rightarrow> nat list \<Rightarrow> sock" where
  "demo_sock segs room = \<lparr>sk_in = segs, sk_eof = True, sk_sent = [], sk_room = room, sk_fd = 3\<rparr>"



text \<open>
  \<open>aread\<close> on an \<open>AsyncBufferedReader\<close> goes to the raw stream even when the buffer holds
  data.  On a fresh reader over a \<open>FallbackFileIO\<close>, \<open>read(n)\<close> followed by \<open>aread(m)\<close> therefore
  skips what the first call read ahead: the second result starts \<open>max(buffer_size, n)\<close> bytes
  in, not \<open>n\<close>.
\<close>

lemma reader_async_skips_buffer:
  assumes "file_src_ok s" and "0 < n" and "0 \<le> m"
  shows "\<exists>b' s' s''.
     reader_read (file_raw osw fd) loop n (\<lparr>rb_size = bs, rb_data = []\<rparr>, s) =
       Some (Inr (Bytes (take (nat n) (mem_rest s))), (b', s')) \<and>
     areader_aread (file_raw osw fd) super m (b', s') =
       (Inr (Bytes (take (nat m) (drop (max bs (nat n)) (mem_rest s)))), (b', s''))"
proof -
  let ?k = "nat n" and ?w = "max bs (nat n)"
  have k: "0 < ?k" "?k \<le> ?w" "\<not> n < -1" "n \<noteq> -1" using assms(2) by auto
  from fill_loop_file [OF assms(1) k(1,2), of osw fd loop "[]"] obtain s' where s':
    "fill_loop (file_raw osw fd) loop ?k ?w [] s = (Inr (take ?w (mem_rest s)), s')"
    "mem_rest s' = drop ?w (mem_rest s)" "file_src_ok s'" by auto
  from file_src.rd_exact_step [OF s'(3) assms(3), of fd] s'(2) obtain s'' where s'':
    "file_aread fd m s' = (Inr (Bytes (take (nat m) (drop ?w (mem_rest s)))), s'')" by auto
  show ?thesis
    using s'(1) s'' k
    by (intro exI [of _ "\<lparr>rb_size = bs, rb_data = drop ?k (take ?w (mem_rest s))\<rparr>"] exI [of _ s']
        exI [of _ s''])
      (simp add: reader_read_def reader_read_upto_def file_reader.areader_bypass min_def)
qed

text \<open>
  While the buffer is empty the two ways of reading agree on the position: on a fresh
  reader over a \<open>FallbackFileIO\<close>, \<open>aread(m)\<close> followed by \<open>read(n)\<close> returns consecutive pieces
  of the file.
\<close>

lemma reader_async_first_in_order:
  assumes "file_src_ok s" and "0 \<le> m" and "0 \<le> n"
  shows "\<exists>s' b'' s''.
     areader_aread (file_raw osw fd) super m (\<lparr>rb_size = bs, rb_data = []\<rparr>, s) =
       (Inr (Bytes (take (nat m) (mem_rest s))), (\<lparr>rb_size = bs, rb_data = []\<rparr>, s')) \<and>
     reader_read (file_raw osw fd) loop n (\<lparr>rb_size = bs, rb_data = []\<rparr>, s') =
       Some (Inr (Bytes (take (nat n) (drop (nat m) (mem_rest s)))), (b'', s''))"
proof -
  from file_src.rd_exact_step [OF assms(1,2), of fd] obtain s' where s':
    "file_aread fd m s = (Inr (Bytes (take (nat m) (mem_rest s))), s')"
    "mem_rest s' = drop (nat m) (mem_rest s)" "file_src_ok s'" by auto
  from file_reader.reader_read_law [OF s'(3) assms(3), of osw fd loop "\<lparr>rb_size = bs, rb_data = []\<rparr>"]
  show ?thesis using s' by (auto simp: file_reader.areader_bypass)
qed

text \<open>
  C27: a sync \<open>write\<close> of an \<open>AsyncBufferedWriter\<close> over an \<open>AsyncSocketIO\<close> accepts all it is given
  and keeps at most \<open>buffer_size\<close> bytes pending; what was sent followed by what is pending is
  the concatenation of all writes, and a flush sends the rest of it, however little each
  \<open>send\<close> accepts.
\<close>

theorem buffered_socket_write_flush:
  assumes "sock_snk_ok t"
  shows "\<exists>b' t' t''.
     writer_write (asocket_stream osw) loop (Bytes c) (b, t) =
       Some (Inr (int (length c)), (b', t')) \<and>
     sk_sent t' @ wb_data b' = sk_sent t @ wb_data b @ c \<and> length (wb_data b') \<le> wb_size b \<and>
     writer_flush (asocket_stream osw) loop' (b', t') = Some (Inr (), (b'\<lparr>wb_data := []\<rparr>, t'')) \<and>
     sk_sent t'' = sk_sent t @ wb_data b @ c"
proof -
  from sock_writer.writer_write_law [OF assms, of osw loop c b] obtain b' t' where w:
    "writer_write (asocket_stream osw) loop (Bytes c) (b, t) = Some (Inr (int (length c)), (b', t'))"
    "sk_sent t' @ wb_data b' = sk_sent t @ wb_data b @ c" "length (wb_data b') \<le> wb_size b"
    "sock_snk_ok t'" by auto
  from sock_writer.writer_flush_law [OF w(4), of osw loop' b'] w show ?thesis by auto
qed

theorem buffered_socket_write_flush_witness:
  "\<exists>b' t' t''.
     writer_write (asocket_stream (\<lambda>_ _. io_return 0)) False (Bytes [1, 2, 3])
         (\<lparr>wb_size = 2, wb_data = []\<rparr>, demo_sock [] [1, 1]) = Some (Inr 3, (b', t')) \<and>
     sk_sent t' @ wb_data b' = [1, 2, 3] \<and>
     writer_flush (asocket_stream (\<lambda>_ _. io_return 0)) False (b', t') =
       Some (Inr (), (b'\<lparr>wb_data := []\<rparr>, t'')) \<and>
     sk_sent t'' = [1, 2, 3]"
proof -
  have "sock_snk_ok (demo_sock [] [1, 1])" by (simp add: sock_snk_ok_def demo_sock_def)
  from buffered_socket_write_flush [OF this, of "\<lambda>_ _. io_return 0" False "[1, 2, 3]"
      "\<lparr>wb_size = 2, wb_data = []\<rparr>" False]
  show ?thesis by (auto simp: demo_sock_def)
qed

text \<open>
  \<open>awrite\<close> on an \<open>AsyncBufferedWriter\<close> goes to the raw stream without flushing: over a
  \<open>FallbackFileIO\<close> positioned at its end, \<open>write(p)\<close> that stays in the buffer, \<open>awrite(d)\<close> and
  \<open>flush()\<close> leave \<open>d\<close> before \<open>p\<close> in the file, the reverse of the order of the calls.
\<close>

lemma awrite_overtakes_write:
  assumes "file_snk_ok t" and "length p \<le> bs"
  shows "\<exists>b1 t' t''.
     writer_write (file_raw osw fd) loop (Bytes p) (\<lparr>wb_size = bs, wb_data = []\<rparr>, t) =
       Some (Inr (int (length p)), (b1, t)) \<and>
     awriter_awrite (file_raw osw fd) super (Bytes d) (b1, t) = (Inr (int (length d)), (b1, t')) \<and>
     writer_flush (file_raw osw fd) loop (b1, t') = Some (Inr (), (b1\<lparr>wb_data := []\<rparr>, t'')) \<and>
     m_buf t'' = m_buf t @ d @ p"
proof -
  let ?b = "\<lparr>wb_size = bs, wb_data = p\<rparr>"
  have w: "writer_write (file_raw osw fd) loop (Bytes p) (\<lparr>wb_size = bs, wb_data = []\<rparr>, t) =
             Some (Inr (int (length p)), (?b, t))"
    using assms(2) by (simp add: writer_write_def writer_flush_if_over_def writer_add_def)
  from file_put_at_end [OF assms(1), of fd d] obtain t' where t':
    "file_awrite fd (Bytes d) t = (Inr (int (length d)), t')" "m_buf t' = m_buf t @ d"
    "file_snk_ok t'" by blast
  from file_writer.writer_flush_law [OF t'(3), of osw fd loop ?b] obtain t'' where t'':
    "writer_flush (file_raw osw fd) loop (?b, t') = Some (Inr (), (?b\<lparr>wb_data := []\<rparr>, t''))"
    "m_buf t'' = m_buf t' @ p" by auto
  have "awriter_awrite (file_raw osw fd) super (Bytes d) (?b, t) = (Inr (int (length d)), (?b, t'))"
    using t'(1) by (simp add: file_writer.awriter_bypass)
  with w t' t'' show ?thesis by (intro exI [of _ ?b] exI [of _ t'] exI [of _ t'']) simp
qed

text \<open>The layers as \<open>open\<close> stacks them: text over a buffer over \<open>FallbackFileIO\<close>, in UTF-8.\<close>

abbreviation file_text_awrite ::
  "(int \<Rightarrow> pydata \<Rightarrow> (pyfile, int) io) \<Rightarrow> int \<Rightarrow> pydata \<Rightarrow> (writebuf \<times> pyfile, int) io" where
  "file_text_awrite osw fd \<equiv> text_awrite utf8_encode (\<lambda>_. io_return 0)
     (Some (awriter_awrite (file_raw osw fd) (\<lambda>_. io_return 0)))"

abbreviation file_text_aread ::
  "(int \<Rightarrow> pydata \<Rightarrow> (pyfile, int) io) \<Rightarrow> int \<Rightarrow> int \<Rightarrow> (readbuf \<times> pyfile, pydata) io" where
  "file_text_aread osw fd \<equiv> text_aread utf8_decode (\<lambda>_. io_return (Str []))
     (Some (areader_aread (file_raw osw fd) (\<lambda>_. io_return (Bytes []))))"



text \<open>
  The size of \<open>AsyncTextIOWrapper.aread\<close> counts bytes of the encoding.  Where the next
  character is not ASCII, \<open>aread(1)\<close> raises \<open>UnicodeDecodeError\<close>, and the byte it took is gone:
  the file position is one further, inside the character.
\<close>

lemma text_aread_splits_character:
  assumes "file_src_ok s" and "utf8_encode (c # txt) = Inr (mem_rest s)" and "0x80 \<le> c"
  shows "\<exists>s'. file_text_aread osw fd 1 (rb, s) = (Inl UnicodeDecodeError, (rb, s')) \<and>
              mem_rest s' = tl (mem_rest s)"
proof -
  obtain s' where s': "file_aread fd 1 s = (Inr (Bytes (take 1 (mem_rest s))), s')"
    "mem_rest s' = drop 1 (mem_rest s)"
    using file_take_exact [of 1, OF _ assms(1)] by auto
  obtain a more where enc: "enc_char c = a # more" "0x80 \<le> a" "a < 256"
    using assms(2,3) enc_char_byte [of c]
    by (auto simp: enc_char_def utf8_encode_def split: if_splits)
  have "mem_rest s = map word_of_nat (enc_char c @ concat (map enc_char txt))"
    using assms(2) by (simp add: utf8_encode_def split: if_splits)
  with enc(1) have "take 1 (mem_rest s) = [word_of_nat a]" by simp
  moreover have "utf8_decode [word_of_nat a] = Inl UnicodeDecodeError"
    using enc(2,3) by (simp add: utf8_decode_def dec_units_lead_alone unat_of_nat)
  ultimately show ?thesis
    using s' by (simp add: text_aread_def io_defs drop_Suc file_reader.areader_bypass)
qed

end
