(* ===== verification/Open_Patch.thy ===== *)
theory Open_Patch
  imports File_Streams Buffered_Streams
begin

text \<open>
  \<open>py_native_io/patch.py\<close>, the systemwide part: \<open>patched_open\<close>, \<open>patched_socket_makefile\<close> and
  \<open>patch_python_io\<close>.  The layers an opened object consists of are data (\<open>layered\<close>); the checks
  of the layer constructors are those of CPython's \<open>io\<close>.  The main results compare the layers,
  the files and the exceptions with those of CPython's own \<open>open\<close> and \<open>makefile\<close>.
\<close>

section \<open>Layers\<close>

datatype buf_kind = BufReader | BufWriter | BufRandom

text \<open>A text layer has its buffer kind and size, and its encoding, errors and newline.\<close>

datatype 'r layered =
    RawLayer 'r
  | BufLayer buf_kind nat 'r
  | TextLayer buf_kind nat 'r "string option" "string option" "string option"

text \<open>What the constructors ask a raw stream: \<open>readable()\<close>, \<open>writable()\<close>, \<open>seekable()\<close>.\<close>

record 'r caps =
  cap_readable :: "'r \<Rightarrow> bool"
  cap_writable :: "'r \<Rightarrow> bool"
  cap_seekable :: "'r \<Rightarrow> bool"

definition need :: "string \<Rightarrow> bool \<Rightarrow> ('s, unit) io" where
  "need what ok = (if ok then io_return () else io_raise (UnsupportedOperation what))"

fun buf_init :: "'r caps \<Rightarrow> buf_kind \<Rightarrow> 'r \<Rightarrow> ('s, unit) io" where
  "buf_init cp BufReader raw =
     need ''File or stream is not readable.'' (cap_readable cp raw)"
| "buf_init cp BufWriter raw =
     need ''File or stream is not writable.'' (cap_writable cp raw)"
| "buf_init cp BufRandom raw =
     io_bind (need ''File or stream is not seekable.'' (cap_seekable cp raw)) (\<lambda>_.
     io_bind (need ''File or stream is not readable.'' (cap_readable cp raw)) (\<lambda>_.
     need ''File or stream is not writable.'' (cap_writable cp raw)))"

text \<open>\<open>io.TextIOWrapper\<close> validates \<open>newline\<close>; \<open>codec_ok\<close> says which encoding and errors exist.\<close>

definition text_init ::
  "(string option \<Rightarrow> string option \<Rightarrow> bool) \<Rightarrow> string option \<Rightarrow> string option \<Rightarrow> string option
     \<Rightarrow> ('s, unit) io" where
  "text_init codec_ok encoding errors newline =
     (if newline \<notin> {None, Some '''', Some [CHR 0x0A], Some [CHR 0x0D], Some [CHR 0x0D, CHR 0x0A]}
      then io_raise (ValueError ''illegal newline value'')
      else if \<not> codec_ok encoding errors then io_raise (ValueError ''unknown encoding'')
      else io_return ())"

definition default_buffer_size :: nat where
  "default_buffer_size = 8192"

text \<open>\<open>buffering if buffering > 0 else io.DEFAULT_BUFFER_SIZE\<close>\<close>

definition buffer_size :: "int \<Rightarrow> nat" where
  "buffer_size buffering = (if buffering > 0 then nat buffering else default_buffer_size)"

section \<open>patched_open\<close>

definition is_binary :: "string \<Rightarrow> bool" where
  "is_binary mode = (CHR ''b'' \<in> set mode)"

text \<open>\<open>mode + "b" if "+" not in mode else mode.replace("+", "b+")\<close>, for a mode with neither letter.\<close>

definition raw_mode :: "string \<Rightarrow> string" where
  "raw_mode mode =
     (if \<not> is_binary mode \<and> CHR ''t'' \<notin> set mode then
        (if CHR ''+'' \<notin> set mode then mode @ ''b''
         else concat (map (\<lambda>c. if c = CHR ''+'' then ''b+'' else [c]) mode))
      else mode)"

definition open_kind :: "string \<Rightarrow> buf_kind" where
  "open_kind mode =
     (if CHR ''w'' \<in> set mode \<or> CHR ''a'' \<in> set mode \<or> CHR ''+'' \<in> set mode then
        (if CHR ''r'' \<in> set mode \<or> CHR ''+'' \<in> set mode then BufRandom else BufWriter)
      else BufReader)"

record open_args =
  oa_mode :: string
  oa_buffering :: int
  oa_encoding :: "string option"
  oa_errors :: "string option"
  oa_newline :: "string option"
  oa_closefd :: bool
  oa_opener :: "nat option"

fun path_like :: "file_arg \<Rightarrow> bool" where
  "path_like (OtherObj _ _ _) = False"
| "path_like _ = True"

definition patched_open ::
  "'r caps \<Rightarrow> (string option \<Rightarrow> string option \<Rightarrow> bool)
     \<Rightarrow> (file_arg \<Rightarrow> open_args \<Rightarrow> ('s, 'r layered) io)
     \<Rightarrow> (file_arg \<Rightarrow> string \<Rightarrow> bool \<Rightarrow> nat option \<Rightarrow> ('s, 'r) io)
     \<Rightarrow> file_arg \<Rightarrow> open_args \<Rightarrow> ('s, 'r layered) io" where
  "patched_open cp codec_ok orig_open create file a =
     (if oa_opener a \<noteq> None \<or> \<not> path_like file then orig_open file a
      else
        io_bind (create file (raw_mode (oa_mode a)) (oa_closefd a) (oa_opener a)) (\<lambda>raw.
          let kind = open_kind (oa_mode a); size = buffer_size (oa_buffering a) in
          if is_binary (oa_mode a) then
            (if oa_buffering a = 0 then io_return (RawLayer raw)
             else io_bind (buf_init cp kind raw) (\<lambda>_. io_return (BufLayer kind size raw)))
          else if oa_buffering a = 0 then
            io_raise (ValueError ''can't have unbuffered text I/O'')
          else
            io_bind (buf_init cp kind raw) (\<lambda>_.
            io_bind (text_init codec_ok (oa_encoding a) (oa_errors a) (oa_newline a)) (\<lambda>_.
            io_return (TextLayer kind size raw (oa_encoding a) (oa_errors a) (oa_newline a))))))"

text \<open>The raw streams of the package: what each answers to the constructors.\<close>

definition mode_readable :: "string \<Rightarrow> bool" where
  "mode_readable mode = (CHR ''r'' \<in> set mode \<or> CHR ''+'' \<in> set mode)"

definition mode_writable :: "string \<Rightarrow> bool" where
  "mode_writable mode = (CHR ''w'' \<in> set mode \<or> CHR ''a'' \<in> set mode \<or> CHR ''x'' \<in> set mode \<or>
     CHR ''+'' \<in> set mode)"

fun opened_readable :: "(nat \<Rightarrow> bool) \<Rightarrow> opened \<Rightarrow> bool" where
  "opened_readable obj (NativeStream p fm) = fm_readable fm"
| "opened_readable obj (FallbackStream (OrigOpen f mode c op)) = mode_readable mode"
| "opened_readable obj (FallbackStream (SameObject i)) = obj i"

fun opened_writable :: "(nat \<Rightarrow> bool) \<Rightarrow> opened \<Rightarrow> bool" where
  "opened_writable obj (NativeStream p fm) = fm_writable fm"
| "opened_writable obj (FallbackStream (OrigOpen f mode c op)) = mode_writable mode"
| "opened_writable obj (FallbackStream (SameObject i)) = obj i"

text \<open>Regular files are seekable, and so says the native stream whatever it has opened.\<close>

definition opened_caps :: "(nat \<Rightarrow> bool) \<Rightarrow> opened caps" where
  "opened_caps obj = \<lparr>cap_readable = opened_readable obj, cap_writable = opened_writable obj,
     cap_seekable = (\<lambda>_. True)\<rparr>"

section \<open>CPython's open\<close>

text \<open>
  The shape of the object that CPython's \<open>open\<close> returns for a path (as its documentation and
  \<open>_pyio\<close> have it): the last component of a text shape is line buffering.
\<close>

datatype shape = RawShape | BufShape buf_kind | TextShape buf_kind bool

fun shape_of :: "'r layered \<Rightarrow> shape" where
  "shape_of (RawLayer r) = RawShape"
| "shape_of (BufLayer k n r) = BufShape k"
| "shape_of (TextLayer k n r enc err nl) = TextShape k False"

definition cpython_kind :: "string \<Rightarrow> buf_kind" where
  "cpython_kind mode =
     (if CHR ''+'' \<in> set mode then BufRandom
      else if CHR ''r'' \<in> set mode then BufReader else BufWriter)"

definition cpython_open :: "string \<Rightarrow> string \<Rightarrow> int \<Rightarrow> (fs, shape) io" where
  "cpython_open p mode buffering =
     io_bind (py_open_path p mode) (\<lambda>_.
       if is_binary mode then
         io_return (if buffering = 0 then RawShape else BufShape (cpython_kind mode))
       else if buffering = 0 then io_raise (ValueError ''can't have unbuffered text I/O'')
       else io_return (TextShape (cpython_kind mode) (buffering = 1)))"

definition shape_outcome :: "(py_error + 'r layered) \<times> fs \<Rightarrow> (py_error + shape) \<times> fs" where
  "shape_outcome r = (map_sum id shape_of (fst r), snd r)"

lemma shape_outcome_simps [simp]:
  "shape_outcome (Inl e, fs) = (Inl e, fs)" "shape_outcome (Inr a, fs) = (Inr (shape_of a), fs)"
  by (simp_all add: shape_outcome_def)

section \<open>The raw mode\<close>

abbreviation plus_to_bplus :: "string \<Rightarrow> string" where
  "plus_to_bplus mode \<equiv> concat (map (\<lambda>c. if c = CHR ''+'' then ''b+'' else [c]) mode)"

lemma plus_to_bplus_id: "CHR ''+'' \<notin> set mode \<Longrightarrow> plus_to_bplus mode = mode"
  by (induction mode) auto

lemma set_plus_to_bplus:
  "set (plus_to_bplus mode) = set mode \<union> (if CHR ''+'' \<in> set mode then {CHR ''b''} else {})"
  by (induction mode) auto

lemma filter_plus_to_bplus:
  "\<not> P (CHR ''b'') \<Longrightarrow> filter P (plus_to_bplus mode) = filter P mode"
  by (induction mode) auto

lemma distinct_plus_to_bplus:
  "distinct mode \<Longrightarrow> CHR ''b'' \<notin> set mode \<Longrightarrow> distinct (plus_to_bplus mode)"
  by (induction mode) (auto simp: plus_to_bplus_id set_plus_to_bplus split: if_splits)

lemma raw_mode_cases:
  assumes "\<not> is_binary mode" and "CHR ''t'' \<notin> set mode"
  shows "set (raw_mode mode) = insert (CHR ''b'') (set mode)"
    and "\<not> P (CHR ''b'') \<Longrightarrow> filter P (raw_mode mode) = filter P mode"
    and "distinct mode \<Longrightarrow> distinct (raw_mode mode)"
proof -
  show "set (raw_mode mode) = insert (CHR ''b'') (set mode)"
    using assms unfolding raw_mode_def by (auto simp: set_plus_to_bplus simp del: set_concat)
  show "\<not> P (CHR ''b'') \<Longrightarrow> filter P (raw_mode mode) = filter P mode"
    using assms unfolding raw_mode_def by (auto simp: filter_plus_to_bplus simp del: filter_concat)
  show "distinct mode \<Longrightarrow> distinct (raw_mode mode)"
    using assms unfolding raw_mode_def is_binary_def by (auto intro: distinct_plus_to_bplus)
qed

lemma py_valid_add_b:
  assumes "set m' = insert (CHR ''b'') (set m)"
    and "\<And>P. \<not> P (CHR ''b'') \<Longrightarrow> filter P m' = filter P m"
  shows "py_valid m' = py_valid m"
proof -
  have "filter (\<lambda>c. c \<in> set ''rwax'') m' = filter (\<lambda>c. c \<in> set ''rwax'') m"
    "filter (\<lambda>c. c = CHR ''+'') m' = filter (\<lambda>c. c = CHR ''+'') m"
    by (rule assms(2); simp)+
  with assms(1) show ?thesis unfolding py_valid_def by simp
qed

text \<open>The raw stream is opened with the flags of the mode that was asked for.\<close>

lemma py_open_flags_raw_mode: "py_open_flags mode = Some fl \<Longrightarrow> py_open_flags (raw_mode mode) = Some fl"
proof -
  assume a: "py_open_flags mode = Some fl"
  show ?thesis
  proof (cases "is_binary mode \<or> CHR ''t'' \<in> set mode")
    case True
    then have "raw_mode mode = mode" by (auto simp: raw_mode_def)
    with a show ?thesis by simp
  next
    case False
    then have nb: "\<not> is_binary mode" "CHR ''t'' \<notin> set mode" by auto
    note rm = raw_mode_cases [OF nb]
    have no_t: "CHR ''t'' \<notin> set (raw_mode mode)" using rm(1) nb(2) by simp
    then have ids: "filter (\<lambda>c. c \<noteq> CHR ''t'') mode = mode"
      "filter (\<lambda>c. c \<noteq> CHR ''t'') (raw_mode mode) = raw_mode mode"
      using nb(2) by (auto simp: filter_id_conv)
    have d: "distinct mode" and pf: "py_flags mode = Some fl"
      using a ids nb by (auto simp: py_open_flags_def split: if_splits)
    have "py_valid (raw_mode mode) = py_valid mode" by (rule py_valid_add_b [OF rm(1,2)])
    then have "py_flags (raw_mode mode) = py_flags mode"
      using rm(1) by (simp add: py_flags_def)
    with d pf rm(3) no_t ids show ?thesis by (simp add: py_open_flags_def)
  qed
qed

text \<open>The letters of a mode that \<open>open\<close> accepts.\<close>

lemma open_mode_letters:
  assumes "py_open_flags mode = Some fl"
  shows "(CHR ''r'' \<in> set mode) = (CHR ''w'' \<notin> set mode \<and> CHR ''a'' \<notin> set mode \<and> CHR ''x'' \<notin> set mode)"
    and "py_valid (filter (\<lambda>c. c \<noteq> CHR ''t'') mode)"
    and "mode \<noteq> []"
proof -
  have v: "py_valid (filter (\<lambda>c. c \<noteq> CHR ''t'') mode)"
    using assms by (auto simp: py_open_flags_def py_flags_def split: if_splits)
  then show "py_valid (filter (\<lambda>c. c \<noteq> CHR ''t'') mode)" .
  from v show "(CHR ''r'' \<in> set mode) = (CHR ''w'' \<notin> set mode \<and> CHR ''a'' \<notin> set mode \<and> CHR ''x'' \<notin> set mode)"
    by (cases rule: py_valid_kind) simp_all
  from py_valid_exclusive(6) [OF v] show "mode \<noteq> []" by (cases mode) simp_all
qed

lemma raw_mode_letters:
  "c \<noteq> CHR ''b'' \<Longrightarrow> (c \<in> set (raw_mode mode)) = (c \<in> set mode)"
  using raw_mode_cases(1) [of mode] by (cases "is_binary mode \<or> CHR ''t'' \<in> set mode")
    (auto simp: raw_mode_def)

lemma raw_mode_not_Nil: "mode \<noteq> [] \<Longrightarrow> raw_mode mode \<noteq> []"
  using raw_mode_cases(1) [of mode] by (cases "is_binary mode \<or> CHR ''t'' \<in> set mode")
    (auto simp: raw_mode_def)

lemma native_flags_raw_mode:
  assumes "py_open_flags mode = Some fl" and "CHR ''x'' \<notin> set mode"
    and "\<not> (CHR ''r'' \<in> set mode \<and> CHR ''+'' \<in> set mode)"
  shows "native_flags (raw_mode mode) = Some fl"
proof -
  let ?m = "filter (\<lambda>c. c \<noteq> CHR ''t'') mode"
  have "py_flags ?m = Some fl" using assms(1) by (simp add: py_open_flags_def split: if_splits)
  then have "native_flags ?m = Some fl" using assms(2,3) by (intro native_flags_same) auto
  moreover have "native_flags (raw_mode mode) = native_flags ?m"
    by (simp add: native_flags_eq raw_mode_letters)
  ultimately show ?thesis by simp
qed

section \<open>What patched_open returns\<close>

abbreviation plain_args :: "string \<Rightarrow> int \<Rightarrow> open_args" where
  "plain_args mode buffering \<equiv> \<lparr>oa_mode = mode, oa_buffering = buffering, oa_encoding = None,
     oa_errors = None, oa_newline = None, oa_closefd = True, oa_opener = None\<rparr>"

text \<open>The package's \<open>patched_open\<close> on the file system.\<close>

abbreviation fs_patched_open ::
  "bool \<Rightarrow> (file_arg \<Rightarrow> open_args \<Rightarrow> (fs, opened layered) io) \<Rightarrow> file_arg \<Rightarrow> open_args
     \<Rightarrow> (fs, opened layered) io" where
  "fs_patched_open native orig \<equiv>
     patched_open (opened_caps (\<lambda>_. True)) (\<lambda>_ _. True) orig (open_raw native (\<lambda>_. ''object''))"

text \<open>The rest of \<open>patched_open\<close> once the raw stream is there.\<close>

lemma patched_open_path:
  assumes "path_like file"
  shows "patched_open cp codec_ok orig create file (plain_args mode buffering) =
     io_bind (create file (raw_mode mode) True None) (\<lambda>raw.
       if is_binary mode \<and> buffering = 0 then io_return (RawLayer raw)
       else if buffering = 0 then io_raise (ValueError ''can't have unbuffered text I/O'')
       else io_bind (buf_init cp (open_kind mode) raw) (\<lambda>_.
         if is_binary mode then io_return (BufLayer (open_kind mode) (buffer_size buffering) raw)
         else if codec_ok None None
         then io_return (TextLayer (open_kind mode) (buffer_size buffering) raw None None None)
         else io_raise (ValueError ''unknown encoding'')))"
  using assms
  by (auto simp: patched_open_def Let_def text_init_def intro!: io_bind_cong)

lemma open_kind_cpython:
  assumes "py_open_flags mode = Some fl" and "CHR ''x'' \<notin> set mode"
  shows "open_kind mode = cpython_kind mode"
  using open_mode_letters(1) [OF assms(1)] assms(2) by (auto simp: open_kind_def cpython_kind_def)

lemma parse_letters:
  assumes "mode \<noteq> []"
  shows "fm_readable (file_mode_parse mode) =
           (CHR ''r'' \<in> set mode \<or> CHR ''+'' \<in> set mode \<or>
            CHR ''w'' \<notin> set mode \<and> CHR ''a'' \<notin> set mode)"
    and "fm_writable (file_mode_parse mode) =
           (CHR ''w'' \<in> set mode \<or> CHR ''a'' \<in> set mode \<or> CHR ''+'' \<in> set mode)"
  using assms by (simp_all add: file_mode_parse_def Let_def)

lemma buf_init_ok:
  assumes "py_open_flags mode = Some fl" and "CHR ''x'' \<notin> set mode"
  shows "buf_init (opened_caps obj) (open_kind mode)
           (if native then NativeStream p (file_mode_parse (raw_mode mode))
            else FallbackStream (OrigOpen file (raw_mode mode) None None)) = io_return ()"
proof -
  note letters = open_mode_letters [OF assms(1)]
  note parse = parse_letters [OF raw_mode_not_Nil [OF letters(3)]]
  show ?thesis
    using letters(1) assms(2)
    by (auto simp: open_kind_def opened_caps_def need_def mode_readable_def mode_writable_def
        parse raw_mode_letters)
qed



text \<open>
  Line buffering is not available after patching.  Opening text with \<open>buffering=1\<close> succeeds
  where CPython's \<open>open\<close> succeeds, but the text layer is not line buffered, as CPython's is; the
  1 has become the size of the buffer below it.
\<close>

lemma patched_open_drops_line_buffering:
  assumes "py_open_flags mode = Some fl" and "CHR ''x'' \<notin> set mode"
    and "native \<longrightarrow> \<not> (CHR ''r'' \<in> set mode \<and> CHR ''+'' \<in> set mode)"
    and "\<not> is_binary mode" and "os_open fl p fs = (Inr (), fs')"
  shows "cpython_open p mode 1 fs = (Inr (TextShape (cpython_kind mode) True), fs') \<and>
         (\<exists>raw. fs_patched_open native orig (StrPath p) (plain_args mode 1) fs =
                (Inr (TextLayer (cpython_kind mode) 1 raw None None None), fs'))"
proof -
  have rm: "py_open_flags (raw_mode mode) = Some fl" by (rule py_open_flags_raw_mode [OF assms(1)])
  have nf: "native \<longrightarrow> native_flags (raw_mode mode) = Some fl"
    using native_flags_raw_mode [OF assms(1,2)] assms(3) by simp
  note kind = open_kind_cpython [OF assms(1,2)]
  note ok = buf_init_ok [OF assms(1,2), of "\<lambda>_. True" native p "StrPath p"]
  note raw = open_raw_result [of "StrPath p", OF _ rm nf, of p "\<lambda>_. ''object''" True fs, simplified]
  have "cpython_open p mode 1 fs = (Inr (TextShape (cpython_kind mode) True), fs')"
    using assms(4,5) by (simp add: cpython_open_def py_open_path_def assms(1) io_defs)
  moreover have "\<exists>raw. fs_patched_open native orig (StrPath p) (plain_args mode 1) fs =
                (Inr (TextLayer (cpython_kind mode) 1 raw None None None), fs')"
    using assms(4,5)
    by (simp add: patched_open_path raw ok [unfolded kind] kind io_defs buffer_size_def
        del: if_distrib)
  ultimately show ?thesis ..
qed

text \<open>
  Exclusive creation (\<open>x\<close> without \<open>+\<close>, buffered).  Where nothing exists CPython creates the
  file and returns a writer; after patching the file is created and the call raises, because a
  reader is put over a write-only stream.  Where the file exists CPython raises
  \<open>FileExistsError\<close>, and so does the patched call on the thread-pool engine; with the native
  engine it succeeds and returns a reader of the existing file.
\<close>

lemma patched_open_exclusive:
  assumes "py_open_flags mode = Some fl" and "CHR ''x'' \<in> set mode" and "CHR ''+'' \<notin> set mode"
    and "buffering \<noteq> 0"
  shows "case fs p of
     None \<Rightarrow>
       fs_patched_open native orig (StrPath p) (plain_args mode buffering) fs =
         (Inl (UnsupportedOperation ''File or stream is not readable.''), fs(p \<mapsto> [])) \<and>
       cpython_open p mode buffering fs =
         (Inr (if is_binary mode then BufShape BufWriter else TextShape BufWriter (buffering = 1)),
          fs(p \<mapsto> []))
   | Some d \<Rightarrow>
       shape_outcome (fs_patched_open native orig (StrPath p) (plain_args mode buffering) fs) =
         ((if native then Inr (if is_binary mode then BufShape BufReader else TextShape BufReader False)
           else Inl (FileExistsError p)), fs) \<and>
       cpython_open p mode buffering fs = (Inl (FileExistsError p), fs)"
proof -
  note letters = open_mode_letters [OF assms(1)]
  have main: "CHR ''r'' \<notin> set mode" "CHR ''w'' \<notin> set mode" "CHR ''a'' \<notin> set mode"
    using letters(2) assms(2) by (cases rule: py_valid_kind; simp)+
  have rm: "py_open_flags (raw_mode mode) = Some fl" by (rule py_open_flags_raw_mode [OF assms(1)])
  have "py_flags (filter (\<lambda>c. c \<noteq> CHR ''t'') mode) = Some fl"
    using assms(1) by (simp add: py_open_flags_def split: if_splits)
  from py_flags_Some(2) [OF this] main assms(2,3)
  have fl: "fl = \<lparr>of_access = WrOnly, of_append = False, of_creat = True, of_trunc = False,
               of_excl = True\<rparr>" by simp
  have nf: "native_flags (raw_mode mode) = Some \<lparr>of_access = RdOnly, of_append = False,
      of_creat = False, of_trunc = False, of_excl = False\<rparr>"
    using main assms(3) by (simp add: native_flags_eq raw_mode_letters)
  have kind: "open_kind mode = BufReader" "cpython_kind mode = BufWriter"
    using main assms(3) by (simp_all add: open_kind_def cpython_kind_def)
  have caps: "fm_readable (file_mode_parse (raw_mode mode))" "\<not> mode_readable (raw_mode mode)"
    using main assms(3) parse_letters(1) [OF raw_mode_not_Nil [OF letters(3)]]
    by (simp_all add: raw_mode_letters mode_readable_def)
  show ?thesis
    using assms(4) kind caps
    by (auto simp: patched_open_path open_raw_def create_default_file_io_def native_file_new_def
        nf rm fl os_open_def fallback_file_new_def fallback_init_def py_open_path_def
        cpython_open_def assms(1) Let_def io_defs opened_caps_def need_def
        split: option.split)
qed

text \<open>
  An explicit \<open>t\<close>.  The raw stream is then opened in text mode too; on the thread-pool
  engine it reads \<open>str\<close> and writes only \<open>str\<close>, so on the text object that \<open>open\<close> returns every
  \<open>aread\<close> raises \<open>AttributeError\<close> (after consuming input) and every \<open>awrite\<close> of text
  \<open>TypeError\<close>.
\<close>

lemma explicit_text_mode_unusable:
  assumes "py_open_flags mode = Some fl" and "CHR ''x'' \<notin> set mode" and "CHR ''t'' \<in> set mode"
    and "os_open fl p fs = (Inr (), fs')" and "buffering \<noteq> 0"
    and "s_read inner = Some (\<lambda>_ n s. (Inr (Str (rdt n s)), nxt n s))"
    and "s_write inner = Some (\<lambda>_ d s. case d of Bytes b \<Rightarrow> (Inl (TypeError msg), s) | Str t \<Rightarrow> wr t s)"
    and "utf8_encode t = Inr bs"
  shows "fs_patched_open False orig (StrPath p) (plain_args mode buffering) fs =
           (Inr (TextLayer (cpython_kind mode) (buffer_size buffering)
              (FallbackStream (OrigOpen (StrPath p) mode None None)) None None None), fs') \<and>
         text_aread utf8_decode sup1 (Some (areader_aread (fallback_stream osw inner) sup2)) n (b, s) =
           (Inl (AttributeError ''decode''), (b, nxt n s)) \<and>
         text_awrite utf8_encode sup3 (Some (awriter_awrite (fallback_stream osw inner) sup4))
             (Str t) (c, s) =
           (Inl (TypeError msg), (c, s))"
proof -
  have nb: "\<not> is_binary mode" and rm: "raw_mode mode = mode"
    using assms(1,3) by (auto simp: py_open_flags_def is_binary_def raw_mode_def split: if_splits)
  note kind = open_kind_cpython [OF assms(1,2)]
  note ok = buf_init_ok [OF assms(1,2), of "\<lambda>_. True" False p "StrPath p", unfolded kind rm, simplified]
  note raw = open_raw_result [of "StrPath p", OF _ assms(1), of p False "\<lambda>_. ''object''" True fs, simplified]
  have "fs_patched_open False orig (StrPath p) (plain_args mode buffering) fs =
           (Inr (TextLayer (cpython_kind mode) (buffer_size buffering)
              (FallbackStream (OrigOpen (StrPath p) mode None None)) None None None), fs')"
    using assms(4,5) nb by (simp add: patched_open_path rm raw ok kind io_defs)
  moreover have "text_aread utf8_decode sup1
      (Some (areader_aread (fallback_stream osw inner) sup2)) n (b, s) =
      (Inl (AttributeError ''decode''), (b, nxt n s))"
    using assms(6) by (simp add: text_aread_def areader_aread_def prefer_raw_def fallback_stream_def
        fallback_read_def io_defs)
  moreover have "text_awrite utf8_encode sup3
      (Some (awriter_awrite (fallback_stream osw inner) sup4)) (Str t) (c, s) =
      (Inl (TypeError msg), (c, s))"
    using assms(7,8) by (simp add: text_awrite_def awriter_awrite_def prefer_raw_def
        fallback_stream_def fallback_write_def io_defs)
  ultimately show ?thesis by blast
qed

end
