(* ===== verification/System_Patch.thy ===== *)
theory System_Patch
  imports Open_Patch
begin

text \<open>
  \<open>py_native_io/patch.py\<close>, continued: \<open>patched_socket_makefile\<close> and \<open>patch_python_io\<close>.  The first
  is compared with CPython's \<open>socket.makefile\<close>; for the second, the names it rebinds are a
  record, and the main result is that patching, however often, keeps the original \<open>open\<close>
  reachable, so that the thread-pool engine never calls back into \<open>patched_open\<close>.
\<close>

section \<open>socket.makefile\<close>

definition asocket_caps :: "asocket caps" where
  "asocket_caps = \<lparr>cap_readable = asocket_readable, cap_writable = asocket_writable,
     cap_seekable = asocket_seekable\<rparr>"

definition makefile_kind :: "string \<Rightarrow> buf_kind" where
  "makefile_kind mode =
     (if CHR ''w'' \<in> set mode \<or> CHR ''a'' \<in> set mode then BufWriter else BufReader)"

definition patched_socket_makefile ::
  "(string option \<Rightarrow> string option \<Rightarrow> bool) \<Rightarrow> sock \<Rightarrow> string \<Rightarrow> int \<Rightarrow> string option \<Rightarrow> string option
     \<Rightarrow> string option \<Rightarrow> ('s, asocket layered) io" where
  "patched_socket_makefile codec_ok sk mode buffering encoding errors newline =
     (let raw = asocket_init sk (raw_mode mode);
          kind = makefile_kind mode; size = buffer_size buffering in
      if is_binary mode then
        (if buffering = 0 \<or> CHR ''+'' \<in> set mode then io_return (RawLayer raw)
         else io_bind (buf_init asocket_caps kind raw) (\<lambda>_. io_return (BufLayer kind size raw)))
      else if buffering = 0 then io_raise (ValueError ''can't have unbuffered text I/O'')
      else
        io_bind (buf_init asocket_caps kind raw) (\<lambda>_.
        io_bind (text_init codec_ok encoding errors newline) (\<lambda>_.
        io_return (TextLayer kind size raw encoding errors newline))))"

text \<open>CPython's \<open>makefile\<close>: the shape it returns; the flag of a shape is whether it is text.\<close>

datatype sock_shape = SockRaw | SockReader bool | SockWriter bool | SockPair bool

fun sock_shape_of :: "asocket layered \<Rightarrow> sock_shape" where
  "sock_shape_of (RawLayer r) = SockRaw"
| "sock_shape_of (BufLayer k n r) = (if k = BufReader then SockReader False else SockWriter False)"
| "sock_shape_of (TextLayer k n r enc err nl) =
     (if k = BufReader then SockReader True else SockWriter True)"

definition cpython_makefile :: "string \<Rightarrow> int \<Rightarrow> py_error + sock_shape" where
  "cpython_makefile mode buffering =
     (if \<not> list_all (\<lambda>c. c = CHR ''r'' \<or> c = CHR ''w'' \<or> c = CHR ''b'') mode
      then Inl (ValueError ''invalid mode'')
      else
        let writing = CHR ''w'' \<in> set mode;
            reading = (CHR ''r'' \<in> set mode \<or> \<not> writing);
            text = (CHR ''b'' \<notin> set mode) in
        if buffering = 0 then
          (if text then Inl (ValueError ''unbuffered streams must be binary'') else Inr SockRaw)
        else Inr (if reading \<and> writing then SockPair text
                  else if reading then SockReader text else SockWriter text))"

text \<open>The kind of result: which shape, or an exception.\<close>

definition makefile_shape :: "(py_error + asocket layered) \<times> 's \<Rightarrow> unit + sock_shape" where
  "makefile_shape r = map_sum (\<lambda>_. ()) sock_shape_of (fst r)"

section \<open>patch_python_io\<close>

datatype open_fn = OriginalOpen nat | PatchedOpen

datatype makefile_fn = OriginalMakefile nat | PatchedMakefile

datatype io_name =
    N_FileIO | N_BytesIO | N_StringIO | N_BufferedReader | N_BufferedWriter | N_BufferedRandom
  | N_TextIOWrapper | N_AsyncIOBase

record py_env =
  builtins_open :: open_fn
  builtins_orig_open :: "open_fn option"
  io_open :: open_fn
  io_orig_open :: "open_fn option"
  io_names :: "io_name \<rightharpoonup> cname"
  sock_makefile :: "makefile_fn option"
  sock_orig_makefile :: "makefile_fn option"

definition patch_python_io :: "cname \<Rightarrow> py_env \<Rightarrow> py_env" where
  "patch_python_io default_cls e =
     (if builtins_orig_open e \<noteq> None then e
      else
        let e1 = e\<lparr>builtins_orig_open := Some (builtins_open e), io_orig_open := Some (io_open e)\<rparr>;
            e2 = e1\<lparr>io_names := (io_names e1)(N_FileIO \<mapsto> default_cls, N_BytesIO \<mapsto> AsyncBytesIO,
                    N_StringIO \<mapsto> AsyncStringIO, N_BufferedReader \<mapsto> AsyncBufferedReader,
                    N_BufferedWriter \<mapsto> AsyncBufferedWriter,
                    N_BufferedRandom \<mapsto> AsyncBufferedRandom,
                    N_TextIOWrapper \<mapsto> AsyncTextIOWrapper, N_AsyncIOBase \<mapsto> AsyncIOBase)\<rparr>;
            e3 = e2\<lparr>builtins_open := PatchedOpen, io_open := PatchedOpen\<rparr>
        in (case sock_makefile e3 of
              None \<Rightarrow> e3
            | Some f \<Rightarrow> e3\<lparr>sock_orig_makefile := Some f, sock_makefile := Some PatchedMakefile\<rparr>))"

text \<open>\<open>getattr(builtins, "_orig_open", builtins.open)\<close>\<close>

definition orig_open_of :: "py_env \<Rightarrow> open_fn" where
  "orig_open_of e = (case builtins_orig_open e of Some f \<Rightarrow> f | None \<Rightarrow> builtins_open e)"

text \<open>
  Which original function a call ends in, where it opens something on the thread-pool engine:
  \<open>patched_open\<close> and \<open>FallbackFileIO\<close> call what \<open>orig_open_of\<close> gives.  \<open>None\<close> is a chain of
  more than \<open>k\<close> calls.
\<close>

fun open_chain :: "nat \<Rightarrow> py_env \<Rightarrow> open_fn \<Rightarrow> nat option" where
  "open_chain 0 e f = None"
| "open_chain (Suc k) e (OriginalOpen i) = Some i"
| "open_chain (Suc k) e PatchedOpen = open_chain k e (orig_open_of e)"

lemma patch_again: "builtins_orig_open e \<noteq> None \<Longrightarrow> patch_python_io d e = e"
  by (simp add: patch_python_io_def)

lemma patch_has_orig: "builtins_orig_open (patch_python_io d e) \<noteq> None"
  by (auto simp: patch_python_io_def Let_def split: option.split)

lemma patch_power: "(patch_python_io d ^^ Suc n) e = patch_python_io d e"
proof (induction n)
  case (Suc n)
  have "(patch_python_io d ^^ Suc (Suc n)) e = patch_python_io d ((patch_python_io d ^^ Suc n) e)"
    by simp
  also have "\<dots> = patch_python_io d (patch_python_io d e)" by (simp only: Suc.IH)
  also have "\<dots> = patch_python_io d e" by (rule patch_again [OF patch_has_orig])
  finally show ?case .
qed simp

section \<open>Properties\<close>

definition fresh_env :: "py_env" where
  "fresh_env = \<lparr>builtins_open = OriginalOpen 0, builtins_orig_open = None, io_open = OriginalOpen 0,
     io_orig_open = None, io_names = Map.empty, sock_makefile = Some (OriginalMakefile 0),
     sock_orig_makefile = None\<rparr>"

text \<open>
  C2: patching any number of times (the package patches on import, \<open>sitecustomize\<close> patches
  again) is patching once: afterwards \<open>open\<close> and \<open>io.open\<close> are \<open>patched_open\<close>, the originals of
  \<open>open\<close>, \<open>io.open\<close> and \<open>makefile\<close> are kept, and a call of \<open>open\<close> that needs the original ends
  there after one step, instead of calling \<open>patched_open\<close> for ever.
\<close>

theorem patching_keeps_original_open:
  assumes "builtins_orig_open e = None" and "builtins_open e = OriginalOpen i"
  shows "let e' = (patch_python_io d ^^ Suc n) e in
     builtins_open e' = PatchedOpen \<and> io_open e' = PatchedOpen \<and>
     builtins_orig_open e' = Some (OriginalOpen i) \<and> io_orig_open e' = Some (io_open e) \<and>
     sock_orig_makefile e' =
       (if sock_makefile e = None then sock_orig_makefile e else sock_makefile e) \<and>
     open_chain 2 e' (builtins_open e') = Some i"
  unfolding patch_power using assms
  by (simp add: patch_python_io_def Let_def orig_open_of_def numeral_2_eq_2 split: option.split)

theorem patching_keeps_original_open_witness:
  "open_chain 2 ((patch_python_io FallbackFileIO ^^ Suc 1) fresh_env) PatchedOpen = Some 0"
proof -
  have "builtins_orig_open fresh_env = None" "builtins_open fresh_env = OriginalOpen 0"
    by (simp_all add: fresh_env_def)
  from patching_keeps_original_open [OF this, of 1 FallbackFileIO] show ?thesis
    unfolding Let_def by (elim conjE) (simp only:)
qed

text \<open>
  C32: \<open>makefile\<close> after patching, against CPython's, for the modes with exactly one of \<open>r\<close> and
  \<open>w\<close>, binary or text, with any buffering: the same kind of stream, or an exception exactly
  where CPython raises one, and the socket is not touched.
\<close>

theorem makefile_like_cpython:
  assumes "list_all (\<lambda>c. c = CHR ''r'' \<or> c = CHR ''w'' \<or> c = CHR ''b'') mode"
    and "(CHR ''r'' \<in> set mode) \<noteq> (CHR ''w'' \<in> set mode)" and "codec_ok None None"
  shows "makefile_shape (patched_socket_makefile codec_ok sk mode buffering None None None s) =
           map_sum (\<lambda>_. ()) id (cpython_makefile mode buffering) \<and>
         snd (patched_socket_makefile codec_ok sk mode buffering None None None s) = s"
proof -
  have no: "CHR ''a'' \<notin> set mode" "CHR ''+'' \<notin> set mode"
    using assms(1) by (auto simp: list_all_iff)
  show ?thesis
    using assms(2,3) no
    by (cases "CHR ''w'' \<in> set mode")
      (auto simp: assms(1) makefile_shape_def patched_socket_makefile_def cpython_makefile_def
        Let_def makefile_kind_def is_binary_def text_init_def asocket_caps_def need_def
        asocket_readable_def asocket_writable_def asocket_init_def raw_mode_letters io_defs)
qed

theorem makefile_like_cpython_witness:
  "makefile_shape (patched_socket_makefile (\<lambda>_ _. True) (demo_sock [] []) ''r'' (-1)
     None None None ()) = Inr (SockReader True)"
  using makefile_like_cpython [of "''r''" "\<lambda>_ _. True" "demo_sock [] []" "-1" "()"]
  by (simp add: cpython_makefile_def Let_def)

text \<open>
  The remaining modes that CPython's \<open>makefile\<close> accepts, buffered.  With both \<open>r\<close> and \<open>w\<close>
  CPython returns a stream for both directions, after patching it is a writer only; with
  neither, CPython returns a reader, and the patched call raises.
\<close>

lemma makefile_other_modes:
  assumes "list_all (\<lambda>c. c = CHR ''r'' \<or> c = CHR ''w'' \<or> c = CHR ''b'') mode"
    and "(CHR ''r'' \<in> set mode) = (CHR ''w'' \<in> set mode)" and "codec_ok None None"
    and "buffering \<noteq> 0"
  shows "if CHR ''r'' \<in> set mode
         then makefile_shape (patched_socket_makefile codec_ok sk mode buffering None None None s) =
                Inr (SockWriter (\<not> is_binary mode)) \<and>
              cpython_makefile mode buffering = Inr (SockPair (\<not> is_binary mode))
         else patched_socket_makefile codec_ok sk mode buffering None None None s =
                (Inl (UnsupportedOperation ''File or stream is not readable.''), s) \<and>
              cpython_makefile mode buffering = Inr (SockReader (\<not> is_binary mode))"
proof -
  have no: "CHR ''a'' \<notin> set mode" "CHR ''+'' \<notin> set mode"
    using assms(1) by (auto simp: list_all_iff)
  show ?thesis
    using assms(2,3,4) no
    by (cases "CHR ''w'' \<in> set mode")
      (auto simp: assms(1) makefile_shape_def patched_socket_makefile_def cpython_makefile_def
        Let_def makefile_kind_def is_binary_def text_init_def asocket_caps_def need_def
        asocket_readable_def asocket_writable_def asocket_init_def raw_mode_letters io_defs)
qed

text \<open>
  Closing one stream that \<open>makefile\<close> returned closes the connection: the socket object it
  shares with every other such stream refuses to send, receive and flush from then on.
\<close>

lemma closing_makefile_closes_connection:
  "let c = snd (asocket_close s); bad = OSError ''Bad file descriptor'' in
   asocket_closed c \<and> asocket_write (Bytes b) c = (Inl bad, c) \<and>
   asocket_read sz c = Some (Inl bad, c) \<and>
   asocket_flush c = (Inl (ValueError ''I/O operation on closed file.''), c)"
proof -
  let ?c = "snd (asocket_close s)"
  have fd: "sk_fd ?c = -1" by (simp add: asocket_close_def sock_close_def)
  then have "recv_loop ?c [] = Some (Inl (OSError ''Bad file descriptor''), ?c)"
    by (subst recv_loop.simps) (simp add: sock_recv_def)
  with fd show ?thesis
    by (simp add: Let_def asocket_closed_def asocket_write_def sock_send_def asocket_read_def
        sock_recv_def asocket_flush_def)
qed

end
