(* ===== verification/Stream_Patch.thy ===== *)
theory Stream_Patch
  imports Class_Model Memory_Streams
begin

text \<open>
  \<open>py_native_io/patch.py\<close>, the part for single streams: \<open>AsyncStreamAdapter\<close> around an object,
  \<open>patch_stream\<close> on the object itself, and \<open>wrap_stream\<close> and \<open>ensure_async_stream\<close>.  Patching is
  modelled on the attributes of the object and of its class (what it binds where, and which
  assignments raise); \<open>obj_stream\<close> gives the patched attributes their behaviour, and the two
  ways of adapting a stream are compared.
\<close>

section \<open>AsyncStreamAdapter\<close>

definition adapter_read :: "('s, 'x) stream_scheme \<Rightarrow> bool \<Rightarrow> int \<Rightarrow> ('s, pydata) io" where
  "adapter_read inner loop sz = attr_call ''read'' (s_read inner) (\<lambda>f. f loop sz)"

definition adapter_write :: "('s, 'x) stream_scheme \<Rightarrow> bool \<Rightarrow> pydata \<Rightarrow> ('s, int) io" where
  "adapter_write inner loop b = attr_call ''write'' (s_write inner) (\<lambda>f. f loop b)"

definition adapter_close :: "('s, 'x) stream_scheme \<Rightarrow> ('s, unit) io" where
  "adapter_close inner = attr_call ''close'' (s_close inner) (\<lambda>f. f)"

definition adapter_flush :: "('s, 'x) stream_scheme \<Rightarrow> ('s, unit) io" where
  "adapter_flush inner = (case s_flush inner of Some f \<Rightarrow> f | None \<Rightarrow> io_return ())"

definition adapter_seek :: "('s, 'x) file_stream_scheme \<Rightarrow> int \<Rightarrow> int \<Rightarrow> ('s, int) io" where
  "adapter_seek inner off whence = attr_call ''seek'' (s_seek inner) (\<lambda>f. f off whence)"

definition adapter_tell :: "('s, 'x) file_stream_scheme \<Rightarrow> ('s, int) io" where
  "adapter_tell inner = attr_call ''tell'' (s_tell inner) (\<lambda>f. f)"

definition adapter_readable :: "('s, 'x) file_stream_scheme \<Rightarrow> ('s, bool) io" where
  "adapter_readable inner = (case s_readable inner of Some f \<Rightarrow> f | None \<Rightarrow> io_return True)"

definition adapter_writable :: "('s, 'x) file_stream_scheme \<Rightarrow> ('s, bool) io" where
  "adapter_writable inner = (case s_writable inner of Some f \<Rightarrow> f | None \<Rightarrow> io_return True)"

definition adapter_seekable :: "('s, 'x) file_stream_scheme \<Rightarrow> ('s, bool) io" where
  "adapter_seekable inner = (case s_seekable inner of Some f \<Rightarrow> f | None \<Rightarrow> io_return False)"

definition adapter_closed :: "('s, 'x) file_stream_scheme \<Rightarrow> ('s, bool) io" where
  "adapter_closed inner = (case s_closed inner of Some f \<Rightarrow> f | None \<Rightarrow> io_return False)"

definition adapter_aread :: "('s, 'x) stream_scheme \<Rightarrow> int \<Rightarrow> ('s, pydata) io" where
  "adapter_aread inner sz =
     (case s_aread inner of
        Some f \<Rightarrow> f sz
      | None \<Rightarrow> attr_call ''read'' (s_read inner) (\<lambda>f. f False sz))"

definition adapter_aread_batch ::
  "('s, 'x) stream_scheme \<Rightarrow> read_spec list \<Rightarrow> ('s, pydata list) io" where
  "adapter_aread_batch inner specs =
     (case s_aread_batch inner of
        Some f \<Rightarrow> f specs
      | None \<Rightarrow> loop_aread (adapter_aread inner) specs)"

definition adapter_awrite :: "('s, 'x) stream_scheme \<Rightarrow> pydata \<Rightarrow> ('s, int) io" where
  "adapter_awrite inner b =
     (case s_awrite inner of
        Some f \<Rightarrow> f b
      | None \<Rightarrow> attr_call ''write'' (s_write inner) (\<lambda>f. f False b))"

definition adapter_awrite_batch ::
  "('s, 'x) stream_scheme \<Rightarrow> pydata list \<Rightarrow> ('s, int list) io" where
  "adapter_awrite_batch inner chunks =
     (case s_awrite_batch inner of
        Some f \<Rightarrow> f chunks
      | None \<Rightarrow> loop_awrite (adapter_awrite inner) chunks)"

definition adapter_aclose :: "('s, 'x) stream_scheme \<Rightarrow> ('s, unit) io" where
  "adapter_aclose inner =
     (case s_aclose inner of
        Some f \<Rightarrow> f
      | None \<Rightarrow> attr_call ''close'' (s_close inner) (\<lambda>f. f))"

definition adapter_aflush :: "('s, 'x) stream_scheme \<Rightarrow> ('s, unit) io" where
  "adapter_aflush inner =
     (case s_aflush inner of
        Some f \<Rightarrow> f
      | None \<Rightarrow> (case s_flush inner of Some f \<Rightarrow> f | None \<Rightarrow> io_return ()))"

text \<open>
  The adapter as an object: \<open>fileno\<close> is the inherited one of \<open>io.IOBase\<close>, \<open>asplice\<close> that of
  \<open>AsyncIOBase\<close>.
\<close>

definition adapter_stream ::
  "(int \<Rightarrow> pydata \<Rightarrow> ('s, int) io) \<Rightarrow> ('s, 'x) stream_scheme \<Rightarrow> 's stream" where
  "adapter_stream os_write inner = \<lparr>
     s_write = Some (adapter_write inner),
     s_awrite = Some (adapter_awrite inner),
     s_fileno = Some (io_raise (UnsupportedOperation ''fileno'')),
     s_read = Some (adapter_read inner),
     s_close = Some (adapter_close inner),
     s_flush = Some (adapter_flush inner),
     s_aread = Some (adapter_aread inner),
     s_aclose = Some (adapter_aclose inner),
     s_aflush = Some (adapter_aflush inner),
     s_aread_batch = Some (adapter_aread_batch inner),
     s_awrite_batch = Some (adapter_awrite_batch inner),
     s_asplice = Some (base_asplice os_write None (adapter_aread inner))\<rparr>"

section \<open>Attributes of an object and its class\<close>

text \<open>
  What a name is bound to: the object's own implementation, the function \<open>patch_stream\<close> adds
  for that name, or a stub.
\<close>

datatype impl = Own mname | Added mname | Stub mname

text \<open>
  \<open>pc_attrs\<close> is what lookup on the class finds (inherited names included).  Assigning to a class
  that is not \<open>pc_mutable\<close> (a C type) raises \<open>TypeError\<close>; assigning to an object without a
  dictionary raises \<open>AttributeError\<close>.
\<close>

record pycls =
  pc_attrs :: "mname \<rightharpoonup> impl"
  pc_mutable :: bool

record pyobj =
  po_attrs :: "mname \<rightharpoonup> impl"
  po_dict :: bool

type_synonym obj_state = "pycls \<times> pyobj"

definition getattr :: "obj_state \<Rightarrow> mname \<Rightarrow> impl option" where
  "getattr st m =
     (case po_attrs (snd st) m of Some f \<Rightarrow> Some f | None \<Rightarrow> pc_attrs (fst st) m)"

definition hasattr :: "obj_state \<Rightarrow> mname \<Rightarrow> bool" where
  "hasattr st m = (getattr st m \<noteq> None)"

definition cls_hasattr :: "obj_state \<Rightarrow> mname \<Rightarrow> bool" where
  "cls_hasattr st m = (pc_attrs (fst st) m \<noteq> None)"

definition async_members :: "mname list" where
  "async_members = [M_aread, M_awrite, M_aclose, M_aflush, M_asplice]"

definition obj_is_async :: "obj_state \<Rightarrow> bool" where
  "obj_is_async st = list_all (hasattr st) async_members"

text \<open>\<open>with contextlib.suppress(TypeError, AttributeError): cls.m = f\<close>\<close>

definition set_cls :: "mname \<Rightarrow> impl \<Rightarrow> (obj_state, unit) io" where
  "set_cls m f = (\<lambda>(c, ob).
     (Inr (), (if pc_mutable c then c\<lparr>pc_attrs := (pc_attrs c)(m \<mapsto> f)\<rparr> else c, ob)))"

definition set_obj :: "mname \<Rightarrow> impl \<Rightarrow> (obj_state, unit) io" where
  "set_obj m f = (\<lambda>(c, ob).
     if po_dict ob then (Inr (), (c, ob\<lparr>po_attrs := (po_attrs ob)(m \<mapsto> f)\<rparr>))
     else (Inl (AttributeError ''object has no __dict__''), (c, ob)))"

section \<open>patch_stream\<close>

text \<open>One block \<open>if cond: ... cls.m = _m; stream.m = MethodType(_m, stream)\<close>.\<close>

definition add_method :: "(obj_state \<Rightarrow> bool) \<Rightarrow> mname \<Rightarrow> (obj_state, unit) io" where
  "add_method cond m = (\<lambda>st.
     if cond st \<and> \<not> hasattr st m
     then io_bind (set_cls m (Added m)) (\<lambda>_. set_obj m (Added m)) st
     else (Inr (), st))"

text \<open>One block \<open>if not hasattr(cls, m): cls.m = _m_stub\<close>.\<close>

definition add_stub :: "mname \<Rightarrow> (obj_state, unit) io" where
  "add_stub m = (\<lambda>st. if cls_hasattr st m then (Inr (), st) else set_cls m (Stub m) st)"

definition add_methods :: "(obj_state, unit) io" where
  "add_methods =
     io_bind (add_method (\<lambda>st. hasattr st M_read) M_aread) (\<lambda>_.
     io_bind (add_method (\<lambda>st. hasattr st M_aread \<or> hasattr st M_read) M_aread_batch) (\<lambda>_.
     io_bind (add_method (\<lambda>st. hasattr st M_write) M_awrite) (\<lambda>_.
     io_bind (add_method (\<lambda>st. hasattr st M_awrite \<or> hasattr st M_write) M_awrite_batch) (\<lambda>_.
     io_bind (add_method (\<lambda>st. hasattr st M_close) M_aclose) (\<lambda>_.
     io_bind (add_method (\<lambda>st. hasattr st M_flush) M_aflush) (\<lambda>_.
     add_method (\<lambda>st. True) M_asplice))))))"

definition add_stubs :: "(obj_state, unit) io" where
  "add_stubs =
     io_bind (add_stub M_aread) (\<lambda>_.
     io_bind (add_stub M_awrite) (\<lambda>_.
     io_bind (add_stub M_aclose) (\<lambda>_.
     io_bind (add_stub M_aflush) (\<lambda>_.
     add_stub M_asplice))))"

text \<open>What the three entry points return: the object itself, or an adapter around it.\<close>

datatype ensured = SameStream | AdapterAround

definition patch_stream :: "(obj_state, ensured) io" where
  "patch_stream = (\<lambda>st.
     if obj_is_async st then (Inr SameStream, st)
     else io_bind add_methods (\<lambda>_. io_bind add_stubs (\<lambda>_. io_return SameStream)) st)"

definition wrap_stream :: "(obj_state, ensured) io" where
  "wrap_stream = (\<lambda>st.
     if obj_is_async st then (Inr SameStream, st) else (Inr AdapterAround, st))"

definition ensure_async_stream :: "bool \<Rightarrow> (obj_state, ensured) io" where
  "ensure_async_stream in_place = (\<lambda>st.
     if obj_is_async st then (Inr SameStream, st)
     else if in_place then patch_stream st else wrap_stream st)"

section \<open>Behaviour of the attributes\<close>

text \<open>
  The object \<open>x\<close> with its attributes bound as in \<open>tbl\<close>.  An added function looks \<open>self.aread\<close>,
  \<open>self.read\<close> and so on up when it is called.
\<close>

definition obj_aread :: "('s, 'x) stream_scheme \<Rightarrow> (mname \<rightharpoonup> impl) \<Rightarrow> (int \<Rightarrow> ('s, pydata) io) option" where
  "obj_aread x tbl = (case tbl M_aread of
      None \<Rightarrow> None
    | Some (Own _) \<Rightarrow> s_aread x
    | Some (Added _) \<Rightarrow> Some (\<lambda>n. attr_call ''read'' (s_read x) (\<lambda>f. f False n))
    | Some (Stub _) \<Rightarrow> Some (\<lambda>n. io_raise (UnsupportedOperation ''not readable'')))"

definition obj_awrite :: "('s, 'x) stream_scheme \<Rightarrow> (mname \<rightharpoonup> impl) \<Rightarrow> (pydata \<Rightarrow> ('s, int) io) option" where
  "obj_awrite x tbl = (case tbl M_awrite of
      None \<Rightarrow> None
    | Some (Own _) \<Rightarrow> s_awrite x
    | Some (Added _) \<Rightarrow> Some (\<lambda>b. attr_call ''write'' (s_write x) (\<lambda>f. f False b))
    | Some (Stub _) \<Rightarrow> Some (\<lambda>b. io_raise (UnsupportedOperation ''not writable'')))"

definition obj_aclose :: "('s, 'x) stream_scheme \<Rightarrow> (mname \<rightharpoonup> impl) \<Rightarrow> ('s, unit) io option" where
  "obj_aclose x tbl = (case tbl M_aclose of
      None \<Rightarrow> None
    | Some (Own _) \<Rightarrow> s_aclose x
    | Some (Added _) \<Rightarrow> Some (attr_call ''close'' (s_close x) (\<lambda>f. f))
    | Some (Stub _) \<Rightarrow> Some (io_return ()))"

definition obj_aflush :: "('s, 'x) stream_scheme \<Rightarrow> (mname \<rightharpoonup> impl) \<Rightarrow> ('s, unit) io option" where
  "obj_aflush x tbl = (case tbl M_aflush of
      None \<Rightarrow> None
    | Some (Own _) \<Rightarrow> s_aflush x
    | Some (Added _) \<Rightarrow> Some (attr_call ''flush'' (s_flush x) (\<lambda>f. f))
    | Some (Stub _) \<Rightarrow> Some (io_return ()))"

definition obj_aread_batch ::
  "('s, 'x) stream_scheme \<Rightarrow> (mname \<rightharpoonup> impl) \<Rightarrow> (read_spec list \<Rightarrow> ('s, pydata list) io) option" where
  "obj_aread_batch x tbl = (case tbl M_aread_batch of
      None \<Rightarrow> None
    | Some (Own _) \<Rightarrow> s_aread_batch x
    | Some _ \<Rightarrow> Some (loop_aread (\<lambda>n. attr_call ''aread'' (obj_aread x tbl) (\<lambda>f. f n))))"

definition obj_awrite_batch ::
  "('s, 'x) stream_scheme \<Rightarrow> (mname \<rightharpoonup> impl) \<Rightarrow> (pydata list \<Rightarrow> ('s, int list) io) option" where
  "obj_awrite_batch x tbl = (case tbl M_awrite_batch of
      None \<Rightarrow> None
    | Some (Own _) \<Rightarrow> s_awrite_batch x
    | Some _ \<Rightarrow> Some (loop_awrite (\<lambda>b. attr_call ''awrite'' (obj_awrite x tbl) (\<lambda>f. f b))))"

definition obj_asplice ::
  "('s, 'x) stream_scheme \<Rightarrow> (mname \<rightharpoonup> impl) \<Rightarrow> ('s splice_target \<Rightarrow> int \<Rightarrow> ('s, int) io) option" where
  "obj_asplice x tbl = (case tbl M_asplice of
      None \<Rightarrow> None
    | Some (Own _) \<Rightarrow> s_asplice x
    | Some (Added _) \<Rightarrow>
        Some (plain_asplice (\<lambda>n. attr_call ''aread'' (obj_aread x tbl) (\<lambda>f. f n)))
    | Some (Stub _) \<Rightarrow> Some (\<lambda>target sz. io_return 0))"

definition obj_stream :: "('s, 'x) stream_scheme \<Rightarrow> (mname \<rightharpoonup> impl) \<Rightarrow> 's stream" where
  "obj_stream x tbl = \<lparr>
     s_write = s_write x, s_awrite = obj_awrite x tbl, s_fileno = s_fileno x,
     s_read = s_read x, s_close = s_close x, s_flush = s_flush x,
     s_aread = obj_aread x tbl, s_aclose = obj_aclose x tbl, s_aflush = obj_aflush x tbl,
     s_aread_batch = obj_aread_batch x tbl, s_awrite_batch = obj_awrite_batch x tbl,
     s_asplice = obj_asplice x tbl\<rparr>"

text \<open>The attributes of an object before patching: its own methods.\<close>

definition own :: "mname \<Rightarrow> 'f option \<Rightarrow> impl option" where
  "own m f = (if f = None then None else Some (Own m))"

fun attrs_of :: "('s, 'x) stream_scheme \<Rightarrow> mname \<Rightarrow> impl option" where
  "attrs_of x M_read = own M_read (s_read x)"
| "attrs_of x M_write = own M_write (s_write x)"
| "attrs_of x M_close = own M_close (s_close x)"
| "attrs_of x M_flush = own M_flush (s_flush x)"
| "attrs_of x M_aread = own M_aread (s_aread x)"
| "attrs_of x M_aread_batch = own M_aread_batch (s_aread_batch x)"
| "attrs_of x M_awrite = own M_awrite (s_awrite x)"
| "attrs_of x M_awrite_batch = own M_awrite_batch (s_awrite_batch x)"
| "attrs_of x M_aclose = own M_aclose (s_aclose x)"
| "attrs_of x M_aflush = own M_aflush (s_aflush x)"
| "attrs_of x M_asplice = own M_asplice (s_asplice x)"
| "attrs_of x m = None"

section \<open>Patching seen on the attribute table\<close>

text \<open>
  On an object with a dictionary the blocks act on the lookup table \<open>getattr st\<close> alone:
  \<open>refines_tbl F T\<close> says that \<open>F\<close> does not raise and changes the table by \<open>T\<close>, which may depend
  on whether the class can be assigned to.
\<close>

type_synonym tbl = "mname \<Rightarrow> impl option"

definition tbl_add :: "(tbl \<Rightarrow> bool) \<Rightarrow> mname \<Rightarrow> bool \<Rightarrow> tbl \<Rightarrow> tbl" where
  "tbl_add cond m mut t = (if cond t \<and> t m = None then t(m \<mapsto> Added m) else t)"

definition tbl_stub :: "mname \<Rightarrow> bool \<Rightarrow> tbl \<Rightarrow> tbl" where
  "tbl_stub m mut t = (if mut \<and> t m = None then t(m \<mapsto> Stub m) else t)"

definition refines_tbl :: "(obj_state, unit) io \<Rightarrow> (bool \<Rightarrow> tbl \<Rightarrow> tbl) \<Rightarrow> bool" where
  "refines_tbl F T = (\<forall>st. po_dict (snd st) \<longrightarrow>
     (\<exists>st'. F st = (Inr (), st') \<and> getattr st' = T (pc_mutable (fst st)) (getattr st) \<and>
            po_dict (snd st') \<and> pc_mutable (fst st') = pc_mutable (fst st)))"

lemma refines_tbl_bind:
  assumes "refines_tbl F T" and "refines_tbl G U"
  shows "refines_tbl (io_bind F (\<lambda>_. G)) (\<lambda>b. U b \<circ> T b)"
  unfolding refines_tbl_def
proof (intro allI impI)
  fix st :: obj_state
  assume d: "po_dict (snd st)"
  with assms(1) obtain s1 where s1: "F st = (Inr (), s1)"
    "getattr s1 = T (pc_mutable (fst st)) (getattr st)" "po_dict (snd s1)"
    "pc_mutable (fst s1) = pc_mutable (fst st)" unfolding refines_tbl_def by blast
  with assms(2) obtain s2 where "G s1 = (Inr (), s2)"
    "getattr s2 = U (pc_mutable (fst s1)) (getattr s1)" "po_dict (snd s2)"
    "pc_mutable (fst s2) = pc_mutable (fst s1)" unfolding refines_tbl_def by blast
  with s1 show "\<exists>st'. io_bind F (\<lambda>_. G) st = (Inr (), st') \<and>
      getattr st' = (U (pc_mutable (fst st)) \<circ> T (pc_mutable (fst st))) (getattr st) \<and>
      po_dict (snd st') \<and> pc_mutable (fst st') = pc_mutable (fst st)" by auto
qed

lemma refines_tbl_add:
  assumes "\<And>s. cond s = C (getattr s)"
  shows "refines_tbl (add_method cond m) (tbl_add C m)"
  unfolding refines_tbl_def
  by (auto simp: add_method_def tbl_add_def set_cls_def set_obj_def hasattr_def assms io_defs
      getattr_def fun_eq_iff split: option.splits)

lemma refines_tbl_stub: "refines_tbl (add_stub m) (tbl_stub m)"
  unfolding refines_tbl_def
  by (auto simp: add_stub_def tbl_stub_def set_cls_def cls_hasattr_def getattr_def fun_eq_iff
      split: option.splits)

definition tbl_methods :: "bool \<Rightarrow> tbl \<Rightarrow> tbl" where
  "tbl_methods mut =
     tbl_add (\<lambda>t. True) M_asplice mut
   \<circ> tbl_add (\<lambda>t. t M_flush \<noteq> None) M_aflush mut
   \<circ> tbl_add (\<lambda>t. t M_close \<noteq> None) M_aclose mut
   \<circ> tbl_add (\<lambda>t. t M_awrite \<noteq> None \<or> t M_write \<noteq> None) M_awrite_batch mut
   \<circ> tbl_add (\<lambda>t. t M_write \<noteq> None) M_awrite mut
   \<circ> tbl_add (\<lambda>t. t M_aread \<noteq> None \<or> t M_read \<noteq> None) M_aread_batch mut
   \<circ> tbl_add (\<lambda>t. t M_read \<noteq> None) M_aread mut"

definition tbl_stubs :: "bool \<Rightarrow> tbl \<Rightarrow> tbl" where
  "tbl_stubs mut =
     tbl_stub M_asplice mut \<circ> tbl_stub M_aflush mut \<circ> tbl_stub M_aclose mut \<circ>
     tbl_stub M_awrite mut \<circ> tbl_stub M_aread mut"

lemma refines_tbl_methods: "refines_tbl add_methods tbl_methods"
  unfolding add_methods_def tbl_methods_def [abs_def]
  by (intro refines_tbl_bind refines_tbl_add) (simp_all only: hasattr_def)

lemma refines_tbl_stubs: "refines_tbl add_stubs tbl_stubs"
  unfolding add_stubs_def tbl_stubs_def [abs_def]
  by (intro refines_tbl_bind refines_tbl_stub)

text \<open>
  The specification of patching: existing attributes stay, a wanted one is added, the remaining
  members of the protocol become stubs if the class can be assigned to.
\<close>

fun wanted :: "tbl \<Rightarrow> mname \<Rightarrow> bool" where
  "wanted t M_aread = (t M_read \<noteq> None)"
| "wanted t M_aread_batch = (t M_aread \<noteq> None \<or> t M_read \<noteq> None)"
| "wanted t M_awrite = (t M_write \<noteq> None)"
| "wanted t M_awrite_batch = (t M_awrite \<noteq> None \<or> t M_write \<noteq> None)"
| "wanted t M_aclose = (t M_close \<noteq> None)"
| "wanted t M_aflush = (t M_flush \<noteq> None)"
| "wanted t M_asplice = True"
| "wanted t m = False"

definition patched_tbl :: "bool \<Rightarrow> tbl \<Rightarrow> tbl" where
  "patched_tbl mut t m =
     (case t m of
        Some f \<Rightarrow> Some f
      | None \<Rightarrow> if wanted t m then Some (Added m)
                else if mut \<and> m \<in> set async_members then Some (Stub m) else None)"

lemma tbl_add_at:
  "k \<noteq> m \<Longrightarrow> tbl_add C m mut t k = t k"
  "tbl_add C m mut t m =
     (case t m of Some f \<Rightarrow> Some f | None \<Rightarrow> if C t then Some (Added m) else None)"
  by (simp_all add: tbl_add_def split: option.split)

lemma tbl_stub_at:
  "k \<noteq> m \<Longrightarrow> tbl_stub m mut t k = t k"
  "tbl_stub m mut t m =
     (case t m of Some f \<Rightarrow> Some f | None \<Rightarrow> if mut then Some (Stub m) else None)"
  by (simp_all add: tbl_stub_def split: option.split)

lemma tbl_methods_apply:
  "tbl_methods mut t m =
     (case t m of Some f \<Rightarrow> Some f | None \<Rightarrow> if wanted t m then Some (Added m) else None)"
  by (cases m) (simp_all add: tbl_methods_def tbl_add_at split: option.split)

lemma tbl_stubs_apply:
  "tbl_stubs mut t m =
     (case t m of Some f \<Rightarrow> Some f
      | None \<Rightarrow> if mut \<and> m \<in> set async_members then Some (Stub m) else None)"
  by (cases m) (simp_all add: tbl_stubs_def tbl_stub_at async_members_def split: option.split)

lemma tbl_patch: "tbl_stubs mut (tbl_methods mut t) = patched_tbl mut t"
  by (rule ext) (simp add: tbl_stubs_apply tbl_methods_apply patched_tbl_def split: option.split)

lemma patch_stream_refines:
  assumes "po_dict (snd st)" and "\<not> obj_is_async st"
  shows "\<exists>st'. patch_stream st = (Inr SameStream, st') \<and>
           getattr st' = patched_tbl (pc_mutable (fst st)) (getattr st) \<and>
           po_dict (snd st') \<and> pc_mutable (fst st') = pc_mutable (fst st)"
proof -
  from refines_tbl_bind [OF refines_tbl_methods refines_tbl_stubs] assms(1) obtain st' where st':
    "io_bind add_methods (\<lambda>_. add_stubs) st = (Inr (), st')"
    "getattr st' = patched_tbl (pc_mutable (fst st)) (getattr st)"
    "po_dict (snd st')" "pc_mutable (fst st') = pc_mutable (fst st)"
    unfolding refines_tbl_def comp_apply tbl_patch by blast
  have "patch_stream st = io_bind (io_bind add_methods (\<lambda>_. add_stubs)) (\<lambda>_. io_return SameStream) st"
    using assms(2) by (simp add: patch_stream_def io_bind_assoc)
  with st' show ?thesis by (simp add: io_return_def)
qed

section \<open>What happens to the class\<close>

text \<open>Nothing that is bound is ever rebound, whether or not the call raises.\<close>

definition extends :: "obj_state \<Rightarrow> obj_state \<Rightarrow> bool" where
  "extends st st' = (pc_attrs (fst st) \<subseteq>\<^sub>m pc_attrs (fst st') \<and> po_attrs (snd st) \<subseteq>\<^sub>m po_attrs (snd st'))"

definition keeps_bound :: "(obj_state, 'a) io \<Rightarrow> bool" where
  "keeps_bound F = (\<forall>st. extends st (snd (F st)))"

lemma extends_refl [simp]: "extends st st"
  by (simp add: extends_def)

lemma extends_trans: "extends a b \<Longrightarrow> extends b c \<Longrightarrow> extends a c"
  by (auto simp: extends_def intro: map_le_trans)

lemma keeps_bound_bind:
  "keeps_bound F \<Longrightarrow> (\<And>a. keeps_bound (G a)) \<Longrightarrow> keeps_bound (io_bind F G)"
  unfolding keeps_bound_def io_bind_apply
  by (auto split: prod.split sum.split intro: extends_trans) (metis extends_trans snd_conv)+

lemma keeps_bound_return: "keeps_bound (io_return a)"
  by (simp add: keeps_bound_def io_return_def)

lemma keeps_bound_add: "keeps_bound (add_method cond m)"
  unfolding keeps_bound_def extends_def
  by (auto simp: add_method_def set_cls_def set_obj_def hasattr_def getattr_def io_defs map_le_def
      split: option.splits)

lemma keeps_bound_stub: "keeps_bound (add_stub m)"
  unfolding keeps_bound_def extends_def
  by (auto simp: add_stub_def set_cls_def cls_hasattr_def map_le_def split: option.splits)

lemma keeps_bound_patch: "keeps_bound patch_stream"
proof -
  have "keeps_bound (io_bind add_methods (\<lambda>_. io_bind add_stubs (\<lambda>_. io_return SameStream)))"
    unfolding add_methods_def add_stubs_def
    by (intro keeps_bound_bind keeps_bound_add keeps_bound_stub keeps_bound_return)
  then show ?thesis by (simp add: keeps_bound_def patch_stream_def)
qed

lemma add_stub_cls:
  assumes "pc_mutable (fst st)"
  shows "\<exists>st'. add_stub m st = (Inr (), st') \<and> snd st' = snd st \<and> pc_mutable (fst st') \<and>
              pc_attrs (fst st') = tbl_stub m True (pc_attrs (fst st))"
  using assms
  by (cases st) (auto simp: add_stub_def set_cls_def cls_hasattr_def tbl_stub_def)

lemma add_stubs_cls:
  assumes "pc_mutable (fst st)"
  shows "\<exists>st'. add_stubs st = (Inr (), st') \<and> snd st' = snd st \<and>
              pc_attrs (fst st') = tbl_stubs True (pc_attrs (fst st))"
proof -
  from add_stub_cls [OF assms, of M_aread] obtain s1 where s1: "add_stub M_aread st = (Inr (), s1)"
    "snd s1 = snd st" "pc_mutable (fst s1)" "pc_attrs (fst s1) = tbl_stub M_aread True (pc_attrs (fst st))"
    by blast
  from add_stub_cls [OF s1(3), of M_awrite] obtain s2 where s2: "add_stub M_awrite s1 = (Inr (), s2)"
    "snd s2 = snd s1" "pc_mutable (fst s2)" "pc_attrs (fst s2) = tbl_stub M_awrite True (pc_attrs (fst s1))"
    by blast
  from add_stub_cls [OF s2(3), of M_aclose] obtain s3 where s3: "add_stub M_aclose s2 = (Inr (), s3)"
    "snd s3 = snd s2" "pc_mutable (fst s3)" "pc_attrs (fst s3) = tbl_stub M_aclose True (pc_attrs (fst s2))"
    by blast
  from add_stub_cls [OF s3(3), of M_aflush] obtain s4 where s4: "add_stub M_aflush s3 = (Inr (), s4)"
    "snd s4 = snd s3" "pc_mutable (fst s4)" "pc_attrs (fst s4) = tbl_stub M_aflush True (pc_attrs (fst s3))"
    by blast
  from add_stub_cls [OF s4(3), of M_asplice] obtain s5 where s5: "add_stub M_asplice s4 = (Inr (), s5)"
    "snd s5 = snd s4" "pc_attrs (fst s5) = tbl_stub M_asplice True (pc_attrs (fst s4))"
    by blast
  show ?thesis
    using s1 s2 s3 s4 s5 by (intro exI [of _ s5]) (simp add: add_stubs_def tbl_stubs_def)
qed

text \<open>
  After patching an object with a dictionary whose class can be assigned to, the class itself
  has every member of the protocol; \<open>aread\<close> is a stub there if the object had nothing to read
  with.
\<close>

lemma patch_stream_class:
  assumes "po_dict (snd st)" and "pc_mutable (fst st)" and "\<not> obj_is_async st"
  shows "\<exists>st'. patch_stream st = (Inr SameStream, st') \<and>
           (\<forall>m \<in> set async_members. pc_attrs (fst st') m \<noteq> None) \<and>
           (\<not> hasattr st M_read \<and> \<not> hasattr st M_aread \<longrightarrow>
              pc_attrs (fst st') M_aread = Some (Stub M_aread))"
proof -
  from refines_tbl_methods assms(1) obtain s1 where s1: "add_methods st = (Inr (), s1)"
    "getattr s1 = tbl_methods (pc_mutable (fst st)) (getattr st)" "pc_mutable (fst s1)"
    using assms(2) unfolding refines_tbl_def by metis
  from add_stubs_cls [OF s1(3)] obtain s2 where s2: "add_stubs s1 = (Inr (), s2)"
    "pc_attrs (fst s2) = tbl_stubs True (pc_attrs (fst s1))" by blast
  have run: "patch_stream st = (Inr SameStream, s2)"
    using assms(3) s1(1) s2(1) by (simp add: patch_stream_def io_return_def)
  have all: "\<forall>m \<in> set async_members. pc_attrs (fst s2) m \<noteq> None"
    by (auto simp: s2(2) tbl_stubs_apply split: option.split)
  have "pc_attrs (fst s2) M_aread = Some (Stub M_aread)"
    if "\<not> hasattr st M_read" "\<not> hasattr st M_aread"
  proof -
    have "getattr s1 M_aread = None"
      using that by (simp add: s1(2) tbl_methods_apply hasattr_def)
    then have "pc_attrs (fst s1) M_aread = None" by (simp add: getattr_def split: option.splits)
    then show ?thesis by (simp add: s2(2) tbl_stubs_apply async_members_def)
  qed
  with run all show ?thesis by blast
qed

section \<open>Properties of patch_stream\<close>

text \<open>A mutable Python class with \<open>read\<close>, \<open>write\<close>, \<open>close\<close>, \<open>flush\<close>, and an instance.\<close>

definition sync_cls :: "pycls" where
  "sync_cls = \<lparr>pc_attrs = [M_read \<mapsto> Own M_read, M_write \<mapsto> Own M_write, M_close \<mapsto> Own M_close,
                           M_flush \<mapsto> Own M_flush], pc_mutable = True\<rparr>"

definition plain_obj :: "pyobj" where
  "plain_obj = \<lparr>po_attrs = Map.empty, po_dict = True\<rparr>"

text \<open>
  C5: what \<open>patch_stream\<close> does to an object with a dictionary.  It returns the object itself and
  does not raise; if the object already conforms nothing changes; otherwise every attribute the
  object has stays as it is, each of the seven async methods whose sync counterpart (or, for
  batches, whose single-item method) exists is added, and what the protocol still lacks becomes
  a stub, provided the class can be assigned to.
\<close>

theorem patch_stream_functional:
  assumes "po_dict (snd st)"
  shows "\<exists>st'. patch_stream st = (Inr SameStream, st') \<and>
           getattr st' = (if obj_is_async st then getattr st
                          else patched_tbl (pc_mutable (fst st)) (getattr st))"
proof (cases "obj_is_async st")
  case True
  then show ?thesis by (simp add: patch_stream_def)
next
  case False
  with patch_stream_refines [OF assms False] show ?thesis by auto
qed

theorem patch_stream_functional_witness:
  "\<exists>st'. patch_stream (sync_cls, plain_obj) = (Inr SameStream, st') \<and>
         getattr st' M_aread = Some (Added M_aread) \<and> getattr st' M_read = Some (Own M_read)"
proof -
  have pre: "po_dict (snd (sync_cls, plain_obj))" "\<not> obj_is_async (sync_cls, plain_obj)"
    by (simp_all add: plain_obj_def sync_cls_def obj_is_async_def async_members_def hasattr_def
        getattr_def)
  have tbl: "getattr (sync_cls, plain_obj) = pc_attrs sync_cls"
    by (simp add: fun_eq_iff getattr_def plain_obj_def)
  have own: "pc_attrs sync_cls M_read = Some (Own M_read)" "pc_attrs sync_cls M_aread = None"
    by (simp_all add: sync_cls_def)
  from patch_stream_functional [OF pre(1)] obtain st' where
    "patch_stream (sync_cls, plain_obj) = (Inr SameStream, st')"
    "getattr st' = patched_tbl (pc_mutable sync_cls) (pc_attrs sync_cls)"
    using pre(2) unfolding tbl by auto
  with own show ?thesis by (intro exI [of _ st']) (simp add: patched_tbl_def)
qed

text \<open>
  C29: the object that \<open>patch_stream\<close> returns satisfies \<open>AsyncIOStream\<close>, its declared result
  type, if and only if its class can be assigned to or every member of the protocol was there
  or could be derived: an instance of a C type that cannot read, say, is returned without
  \<open>aread\<close>.
\<close>

theorem patch_stream_conforms:
  assumes "po_dict (snd st)"
  shows "obj_is_async (snd (patch_stream st)) =
         (pc_mutable (fst st) \<or>
          list_all (\<lambda>m. hasattr st m \<or> wanted (getattr st) m) async_members)"
proof (cases "obj_is_async st")
  case True
  then show ?thesis by (auto simp: patch_stream_def obj_is_async_def list_all_iff)
next
  case False
  from patch_stream_refines [OF assms False] obtain st' where
    "patch_stream st = (Inr SameStream, st')"
    "getattr st' = patched_tbl (pc_mutable (fst st)) (getattr st)" by blast
  then show ?thesis
    by (auto simp: obj_is_async_def hasattr_def patched_tbl_def list_all_iff split: option.splits)
qed

theorem patch_stream_conforms_witness:
  "obj_is_async (snd (patch_stream (sync_cls, plain_obj))) \<and>
   \<not> obj_is_async (snd (patch_stream
        (\<lparr>pc_attrs = [M_write \<mapsto> Own M_write], pc_mutable = False\<rparr>, plain_obj)))"
  using patch_stream_conforms [of "(sync_cls, plain_obj)"]
    patch_stream_conforms [of "(\<lparr>pc_attrs = [M_write \<mapsto> Own M_write], pc_mutable = False\<rparr>, plain_obj)"]
  by (simp add: plain_obj_def sync_cls_def async_members_def hasattr_def getattr_def)

text \<open>
  C30: patching never replaces anything: whatever the object and its class bind before the call,
  they bind to the same implementation afterwards, also when the call raises.
\<close>

theorem patch_stream_keeps_bindings:
  "pc_attrs (fst st) \<subseteq>\<^sub>m pc_attrs (fst (snd (patch_stream st))) \<and>
   po_attrs (snd st) \<subseteq>\<^sub>m po_attrs (snd (snd (patch_stream st)))"
  using keeps_bound_patch unfolding keeps_bound_def extends_def by blast

text \<open>
  Patching is idempotent: after a call that did not raise, a second call changes nothing,
  whether or not the first made the object conform.
\<close>

lemma patch_stream_idempotent:
  assumes "po_dict (snd st)"
  shows "patch_stream (snd (patch_stream st)) = patch_stream st"
proof (cases "obj_is_async st")
  case True
  then show ?thesis by (simp add: patch_stream_def)
next
  case False
  from patch_stream_refines [OF assms False] obtain st' where st':
    "patch_stream st = (Inr SameStream, st')"
    "getattr st' = patched_tbl (pc_mutable (fst st)) (getattr st)"
    "pc_mutable (fst st') = pc_mutable (fst st)" by blast
  show ?thesis
  proof (cases "obj_is_async st'")
    case True
    with st'(1) show ?thesis by (simp add: patch_stream_def)
  next
    case nonconf: False
    have immut: "\<not> pc_mutable (fst st)"
      using nonconf st'(2)
      by (auto simp: obj_is_async_def hasattr_def patched_tbl_def list_all_iff
          split: option.splits if_splits)
    have present: "wanted (getattr st') m \<Longrightarrow> getattr st' m \<noteq> None" for m
      using immut unfolding st'(2)
      by (cases m) (auto simp: patched_tbl_def split: option.splits if_splits)
    have skip: "add_method cond m st' = (Inr (), st')"
      if "cond st' \<Longrightarrow> wanted (getattr st') m" for cond m
      using that present [of m] by (auto simp: add_method_def hasattr_def)
    have "add_methods st' = (Inr (), st')"
      unfolding add_methods_def by (simp add: skip hasattr_def)
    moreover have "add_stub m st' = (Inr (), st')" for m
      using immut st'(3) by (cases st') (simp add: add_stub_def set_cls_def)
    ultimately have "patch_stream st' = (Inr SameStream, st')"
      using nonconf by (simp add: patch_stream_def add_stubs_def io_return_def)
    with st'(1) show ?thesis by simp
  qed
qed

text \<open>
  Patching one stream in place changes its class: afterwards every other instance of that
  class, with whatever attributes of its own, also passes for an \<open>AsyncIOStream\<close>, and patching
  or wrapping it does nothing.
\<close>

lemma patch_stream_affects_class:
  assumes "po_dict ob" and "pc_mutable c" and "\<not> obj_is_async (c, ob)"
  shows "let c' = fst (snd (patch_stream (c, ob))) in
         obj_is_async (c', other) \<and>
         ensure_async_stream in_place (c', other) = (Inr SameStream, (c', other))"
proof -
  from patch_stream_class [of "(c, ob)"] assms obtain st' where st':
    "patch_stream (c, ob) = (Inr SameStream, st')"
    "\<forall>m \<in> set async_members. pc_attrs (fst st') m \<noteq> None" by auto
  then have "obj_is_async (fst st', other)"
    by (auto simp: obj_is_async_def list_all_iff hasattr_def getattr_def split: option.split)
  with st'(1) show ?thesis by (simp add: ensure_async_stream_def Let_def)
qed

text \<open>
  A consequence for streams that get their methods as attributes of the object.  Once an
  object that cannot read has been patched, the class holds a stub for \<open>aread\<close>; another object
  of the class that does have \<open>read\<close> is then taken to conform and left alone, and its \<open>aread\<close>
  raises \<open>UnsupportedOperation\<close>, whereas patching it first would have given it a working one.
\<close>

lemma patch_stream_stub_poisons_class:
  assumes "pc_mutable c" and "pc_attrs c M_read = None" and "pc_attrs c M_aread = None"
    and "po_dict ob1" and "po_attrs ob1 M_read = None" and "po_attrs ob1 M_aread = None"
    and "po_dict ob2" and "po_attrs ob2 M_read = Some (Own M_read)" and "po_attrs ob2 M_aread = None"
  shows "(let c' = fst (snd (patch_stream (c, ob1))) in
           patch_stream (c', ob2) = (Inr SameStream, (c', ob2)) \<and>
           obj_aread x (getattr (c', ob2)) =
             Some (\<lambda>n. io_raise (UnsupportedOperation ''not readable''))) \<and>
         obj_aread x (getattr (snd (patch_stream (c, ob2)))) =
           Some (\<lambda>n. attr_call ''read'' (s_read x) (\<lambda>f. f False n))"
proof -
  have n1: "\<not> obj_is_async (c, ob1)" and r1: "\<not> hasattr (c, ob1) M_read" "\<not> hasattr (c, ob1) M_aread"
    and n2: "\<not> obj_is_async (c, ob2)"
    using assms by (simp_all add: obj_is_async_def async_members_def hasattr_def getattr_def)
  from patch_stream_class [of "(c, ob1)"] assms(1,4) n1 r1 obtain st' where st':
    "patch_stream (c, ob1) = (Inr SameStream, st')"
    "\<forall>m \<in> set async_members. pc_attrs (fst st') m \<noteq> None"
    "pc_attrs (fst st') M_aread = Some (Stub M_aread)" by auto
  then have "obj_is_async (fst st', ob2)"
    by (auto simp: obj_is_async_def list_all_iff hasattr_def getattr_def split: option.split)
  with st' assms(9) have "let c' = fst (snd (patch_stream (c, ob1))) in
           patch_stream (c', ob2) = (Inr SameStream, (c', ob2)) \<and>
           obj_aread x (getattr (c', ob2)) =
             Some (\<lambda>n. io_raise (UnsupportedOperation ''not readable''))"
    by (simp add: Let_def patch_stream_def obj_aread_def getattr_def)
  moreover from patch_stream_refines [OF _ n2] assms(7) obtain st2 where
    "patch_stream (c, ob2) = (Inr SameStream, st2)"
    "getattr st2 = patched_tbl (pc_mutable c) (getattr (c, ob2))" by auto
  then have "obj_aread x (getattr (snd (patch_stream (c, ob2)))) =
           Some (\<lambda>n. attr_call ''read'' (s_read x) (\<lambda>f. f False n))"
    using assms by (simp add: obj_aread_def patched_tbl_def getattr_def)
  ultimately show ?thesis ..
qed

text \<open>
  An object without a dictionary (a class with \<open>__slots__\<close>) that has \<open>read\<close> but not \<open>aread\<close>:
  \<open>patch_stream\<close> raises \<open>AttributeError\<close>, the assignment to the object not being guarded as that
  to the class is, and leaves the class with \<open>aread\<close> added where it can be assigned to.
\<close>

lemma patch_stream_needs_dict:
  assumes "\<not> po_dict ob" and "hasattr (c, ob) M_read" and "\<not> hasattr (c, ob) M_aread"
  shows "patch_stream (c, ob) =
           (Inl (AttributeError ''object has no __dict__''),
            (if pc_mutable c then c\<lparr>pc_attrs := (pc_attrs c)(M_aread \<mapsto> Added M_aread)\<rparr> else c, ob))"
proof -
  have "\<not> obj_is_async (c, ob)"
    using assms(3) by (simp add: obj_is_async_def async_members_def)
  with assms show ?thesis
    by (simp add: patch_stream_def add_methods_def add_method_def set_cls_def set_obj_def io_defs)
qed

section \<open>Patching against wrapping\<close>

lemma adapter_conforms: "is_async_stream (adapter_stream osw inner)"
  by (simp add: adapter_stream_def is_async_stream_def)

lemma own_simps [simp]: "(own m f = None) = (f = None)" "own m (Some g) = Some (Own m)"
  "own m None = None"
  by (simp_all add: own_def)


text \<open>An object with only the sync methods of \<open>io.BytesIO\<close>.\<close>

definition sync_bytesio :: "bytesio stream" where
  "sync_bytesio = \<lparr>s_write = Some (\<lambda>_. bytesio_write), s_awrite = None, s_fileno = None,
     s_read = Some (\<lambda>_. bytesio_read), s_close = Some mem_close, s_flush = Some mem_flush,
     s_aread = None, s_aclose = None, s_aflush = None, s_aread_batch = None,
     s_awrite_batch = None, s_asplice = None\<rparr>"

lemma sync_bytesio_attrs: "getattr (sync_cls, plain_obj) = attrs_of sync_bytesio"
proof (rule ext)
  fix m show "getattr (sync_cls, plain_obj) m = attrs_of sync_bytesio m"
    by (cases m) (simp_all add: getattr_def sync_cls_def plain_obj_def sync_bytesio_def)
qed


text \<open>
  Splices are where the two differ.  To an object without \<open>fileno\<close> both do the same.  To a
  file descriptor the adapter writes the chunk with \<open>os.write\<close>; the patched object takes it
  from the stream, writes it nowhere and returns 0.
\<close>

lemma asplice_patched_against_wrapped:
  assumes "s_aread x = None" and "s_read x = Some r" and "s_asplice x = None"
    and "tbl = patched_tbl mut (attrs_of x)" and "s_fileno t = None" and "fd \<noteq> -1"
    and "r False (chunk_size sz) s = (Inr d, s')" and "truthy d"
  shows "\<exists>f g. s_asplice (adapter_stream osw x) = Some f \<and> s_asplice (obj_stream x tbl) = Some g \<and>
           f (ObjTarget t) sz' s'' = g (ObjTarget t) sz' s'' \<and>
           f (FdTarget fd) sz s = osw fd d s' \<and> g (FdTarget fd) sz s = (Inr 0, s')"
proof -
  have ar: "adapter_aread x = r False" using assms(1,2) by (simp add: adapter_aread_def fun_eq_iff)
  have "s_asplice (adapter_stream osw x) = Some (base_asplice osw None (r False))"
    by (simp add: adapter_stream_def ar)
  moreover have "s_asplice (obj_stream x tbl) = Some (plain_asplice (r False))"
    using assms(1-4) by (simp add: obj_stream_def obj_asplice_def obj_aread_def patched_tbl_def)
  moreover have "base_asplice osw None (r False) (ObjTarget t) sz' s'' =
      plain_asplice (r False) (ObjTarget t) sz' s''"
    using assms(5) by (simp add: base_asplice_def plain_asplice_def cong: if_cong option.case_cong)
  moreover have "base_asplice osw None (r False) (FdTarget fd) sz s = osw fd d s'"
    using assms(6-8) by (simp add: base_asplice_def)
  moreover have "plain_asplice (r False) (FdTarget fd) sz s = (Inr 0, s')"
    using assms(7,8) by (simp add: plain_asplice_def io_return_def)
  ultimately show ?thesis by blast
qed

end
