(* ===== verification/Async_Print.thy ===== *)
theory Async_Print
  imports Memory_Streams Utf8 File_Streams
begin

text \<open>
  \<open>py_native_io/print.py\<close>: \<open>aprint\<close> on an arbitrary target object (what it writes, the second
  attempt with text after a refused attempt with bytes, when it flushes), and the lazily opened
  streams of \<open>get_async_stdout\<close> and \<open>get_async_stderr\<close>.
\<close>

section \<open>aprint\<close>

text \<open>\<open>sep.join(...)\<close>; the objects are given by their \<open>str()\<close>.\<close>

fun join :: "pstr \<Rightarrow> pstr list \<Rightarrow> pstr" where
  "join sep [] = []"
| "join sep [x] = x"
| "join sep (x # y # ys) = x @ sep @ join sep (y # ys)"

definition aprint_output :: "pstr list \<Rightarrow> pstr \<Rightarrow> pstr \<Rightarrow> pstr" where
  "aprint_output objects sep en = join sep objects @ en"

definition call_flush :: "('s, 'x) stream_scheme \<Rightarrow> ('s, unit) io" where
  "call_flush t = (case s_flush t of Some f \<Rightarrow> f | None \<Rightarrow> io_return ())"

text \<open>\<open>target\<close> is \<open>sys.stdout if file is None else file\<close>; a sync \<open>write\<close> runs on the event loop.\<close>

definition aprint ::
  "('s, 'x) stream_scheme \<Rightarrow> bool \<Rightarrow> pstr list \<Rightarrow> pstr \<Rightarrow> pstr \<Rightarrow> ('s, unit) io" where
  "aprint target flush objects sep en =
     (let output = aprint_output objects sep en in
      case utf8_encode output of
        Inl e \<Rightarrow> io_raise e
      | Inr encoded_bytes \<Rightarrow>
          (case s_awrite target of
             Some awrite \<Rightarrow>
               io_bind (io_catch caught_type_value (awrite (Bytes encoded_bytes)) (awrite (Str output)))
                 (\<lambda>_. case (if flush then s_aflush target else None) of
                        Some aflush \<Rightarrow> aflush
                      | None \<Rightarrow> call_flush target)
           | None \<Rightarrow>
               (case s_write target of
                  Some write \<Rightarrow> io_bind (write True (Str output)) (\<lambda>_. call_flush target)
                | None \<Rightarrow> io_return ())))"

section \<open>Standard streams\<close>

text \<open>
  A module global (\<open>None\<close> at first) and the state of the system; \<open>DefaultCls\<close> is the constructor
  of \<open>DefaultFileIO\<close> and \<open>closed\<close> its property.
\<close>

definition lazy_std_stream ::
  "int \<Rightarrow> (file_arg \<Rightarrow> string \<Rightarrow> bool \<Rightarrow> nat option \<Rightarrow> ('s, 'r) io) \<Rightarrow> ('r \<Rightarrow> 's \<Rightarrow> bool)
     \<Rightarrow> ('r option \<times> 's, 'r) io" where
  "lazy_std_stream fd DefaultCls closed = (\<lambda>(var, s).
     case (case var of Some r \<Rightarrow> if closed r s then None else Some r | None \<Rightarrow> None) of
       Some r \<Rightarrow> (Inr r, (var, s))
     | None \<Rightarrow>
         (case DefaultCls (IntFd fd) ''w'' True None s of
            (Inl e, s') \<Rightarrow> (Inl e, (var, s'))
          | (Inr r, s') \<Rightarrow> (Inr r, (Some r, s'))))"

definition get_async_stdout ::
  "(file_arg \<Rightarrow> string \<Rightarrow> bool \<Rightarrow> nat option \<Rightarrow> ('s, 'r) io) \<Rightarrow> ('r \<Rightarrow> 's \<Rightarrow> bool)
     \<Rightarrow> ('r option \<times> 's, 'r) io" where
  "get_async_stdout = lazy_std_stream 1"

definition get_async_stderr ::
  "(file_arg \<Rightarrow> string \<Rightarrow> bool \<Rightarrow> nat option \<Rightarrow> ('s, 'r) io) \<Rightarrow> ('r \<Rightarrow> 's \<Rightarrow> bool)
     \<Rightarrow> ('r option \<times> 's, 'r) io" where
  "get_async_stderr = lazy_std_stream 2"

section \<open>Properties\<close>

lemma flush_at_end: "mem_at_end s \<Longrightarrow> mem_flush s = (Inr (), s)"
  by (simp add: mem_flush_def mem_open_def mem_at_end_def io_return_def)

text \<open>
  C11: printing to an \<open>AsyncBytesIO\<close> at its end appends the UTF-8 encoding of the objects joined
  by the separator and followed by the end string, and nothing else, with or without \<open>flush\<close>.
\<close>

theorem aprint_to_bytesio:
  assumes "mem_at_end s" and "utf8_encode (join sep objects @ en) = Inr bs"
  shows "\<exists>s'. aprint abytesio_stream flush objects sep en s = (Inr (), s') \<and>
              m_buf s' = m_buf s @ bs \<and> mem_at_end s'"
proof -
  from bytes_snk.wr_exact_step [OF assms(1), of bs] obtain s' where s':
    "abytesio_awrite (Bytes bs) s = (Inr (int (length bs)), s')"
    "m_buf s' = m_buf s @ bs" "mem_at_end s'" by blast
  then show ?thesis
    using assms(2) flush_at_end [OF s'(3)]
    by (simp add: aprint_def aprint_output_def abytesio_stream_def abytesio_aflush_def call_flush_def Let_def)
qed

theorem aprint_to_bytesio_witness:
  "\<exists>s'. aprint abytesio_stream False [[72], [105]] [32] [10] (new_memfile []) = (Inr (), s') \<and>
        m_buf s' = [72, 32, 105, 10]"
proof -
  have "mem_at_end (new_memfile ([] :: byte list))" by (simp add: mem_at_end_def new_memfile_def)
  moreover have "utf8_encode (join [32] [[72], [105]] @ [10]) = Inr [72, 32, 105, 10]"
    by (simp add: encode_ascii)
  ultimately show ?thesis
    using aprint_to_bytesio [of "new_memfile []" "[32]" "[[72], [105]]" "[10]" "[72, 32, 105, 10]" False]
    by (auto simp: new_memfile_def)
qed

text \<open>
  Printing to an \<open>AsyncStringIO\<close> at its end appends the text: the attempt with bytes raises
  \<open>TypeError\<close> without effect, and the second attempt writes the string.
\<close>

lemma aprint_to_stringio:
  assumes "mem_at_end s" and "utf8_encode (aprint_output objects sep en) = Inr bs"
  shows "\<exists>s'. aprint astringio_stream flush objects sep en s = (Inr (), s') \<and>
              m_buf s' = m_buf s @ aprint_output objects sep en \<and> mem_at_end s'"
proof -
  let ?out = "aprint_output objects sep en"
  from text_snk.wr_exact_step [OF assms(1), of ?out] obtain s' where s':
    "astringio_awrite (Str ?out) s = (Inr (int (length ?out)), s')"
    "m_buf s' = m_buf s @ ?out" "mem_at_end s'" by blast
  have "astringio_awrite (Bytes bs) s = (Inl (TypeError ''string argument expected, got 'bytes' ''), s)"
    by (simp add: astringio_awrite_def io_raise_def)
  then show ?thesis
    using s' assms(2) flush_at_end [OF s'(3)]
    by (simp add: aprint_def astringio_stream_def astringio_aflush_def call_flush_def Let_def)
qed

text \<open>
  A print that can be written is flushed even with \<open>flush=False\<close>, the documented default: the
  target's sync \<open>flush\<close> runs right after the write; \<open>flush=True\<close> only chooses \<open>aflush\<close> instead,
  where there is one.
\<close>

lemma aprint_always_flushes:
  assumes "utf8_encode (aprint_output objects sep en) = Inr bs"
    and "s_awrite target = Some aw" and "aw (Bytes bs) s = (Inr n, s1)"
    and "s_flush target = Some fl" and "s_aflush target = Some afl"
  shows "aprint target False objects sep en s = fl s1 \<and> aprint target True objects sep en s = afl s1"
  using assms by (simp add: aprint_def call_flush_def Let_def)

text \<open>
  Text that UTF-8 cannot encode (a lone surrogate, as in undecodable file names) is refused
  with \<open>UnicodeEncodeError\<close> before anything is written, also by targets that take text.
\<close>

lemma aprint_unencodable:
  assumes "\<not> list_all scalar (aprint_output objects sep en)"
  shows "aprint target flush objects sep en s = (Inl UnicodeEncodeError, s)"
  using assms by (simp add: aprint_def utf8_encode_def io_raise_def Let_def)

text \<open>
  \<open>get_async_stdout\<close> opens its stream once: while the stream it returned is not closed,
  further calls return the same object and open nothing.
\<close>

lemma get_async_stdout_once:
  assumes "get_async_stdout cls closed (var, s) = (Inr r, st')" and "\<not> closed r (snd st')"
  shows "get_async_stdout cls closed st' = (Inr r, st')"
  using assms
  by (auto simp: get_async_stdout_def lazy_std_stream_def split: option.splits if_splits prod.splits
      sum.splits)

lemma int_str_fds: "int_str 1 = ''1''" "int_str 2 = ''2''"
  by code_simp+

text \<open>
  With the native engine the first call of \<open>get_async_stdout\<close> does not open descriptor 1: it
  creates, or truncates, the file named \<open>1\<close> in the working directory, and returns a stream on
  that file; \<open>get_async_stderr\<close> does the same with \<open>2\<close>.  The thread-pool engine opens the
  descriptor and touches no file.
\<close>

lemma native_std_streams_open_files:
  "get_async_stdout (native_file_new obj_str) closed (None, fs) =
     (Inr (NativeStream ''1'' (file_mode_parse ''w'')),
      (Some (NativeStream ''1'' (file_mode_parse ''w'')), fs(''1'' \<mapsto> []))) \<and>
   get_async_stderr (native_file_new obj_str) closed (None, fs) =
     (Inr (NativeStream ''2'' (file_mode_parse ''w'')),
      (Some (NativeStream ''2'' (file_mode_parse ''w'')), fs(''2'' \<mapsto> []))) \<and>
   get_async_stdout fallback_file_new closed (None, fs) =
     (Inr (FallbackStream (OrigOpen (IntFd 1) ''w'' (Some True) None)),
      (Some (FallbackStream (OrigOpen (IntFd 1) ''w'' (Some True) None)), fs))"
  by (simp add: get_async_stdout_def get_async_stderr_def lazy_std_stream_def native_file_new_def
      native_flags_eq os_open_def int_str_fds fallback_file_new_def fallback_init_def
      io_defs Let_def split: option.split)

end
