(* ===== verification/Native_File.thy ===== *)
theory Native_File
  imports File_Streams Utf8
begin

text \<open>
  \<open>NativeFileIO\<close> of \<open>src/file_io.rs\<close> on Linux, with \<open>src/seek_whence.rs\<close>.  The state is the file
  system and the stream: whether its handle is open, its path and mode, and the position and
  access of the handle; the path is taken to name the file of the handle throughout.  \<open>ring\<close>
  says whether the kernel ring is usable; a ring operation on a handle without the access it
  needs fails like the corresponding system call.  Every async method falls back to reopening
  the path when the ring operation fails.
\<close>

section \<open>State\<close>

record native_file =
  nf_open :: bool
  nf_path :: string
  nf_mode :: file_mode
  nf_pos :: nat
  nf_access :: access
  nf_append :: bool

type_synonym nstate = "fs \<times> native_file"

definition nf_new :: "string \<Rightarrow> string \<Rightarrow> os_flags \<Rightarrow> native_file" where
  "nf_new path mode fl = \<lparr>nf_open = True, nf_path = path, nf_mode = file_mode_parse mode, nf_pos = 0,
     nf_access = of_access fl, nf_append = of_append fl\<rparr>"

definition nf_data :: "nstate \<Rightarrow> bytes" where
  "nf_data st = (case fst st (nf_path (snd st)) of Some d \<Rightarrow> d | None \<Rightarrow> [])"

definition can_read :: "native_file \<Rightarrow> bool" where
  "can_read f = (nf_access f \<noteq> WrOnly)"

definition can_write :: "native_file \<Rightarrow> bool" where
  "can_write f = (nf_access f \<noteq> RdOnly)"

text \<open>The check \<open>guard.as_mut().ok_or_else(...)\<close> that the handle is open.\<close>

definition nf_guard :: "(nstate, 'a) io \<Rightarrow> (nstate, 'a) io" where
  "nf_guard m = (\<lambda>st. if nf_open (snd st) then m st
                     else (Inl (OSError ''I/O operation on closed file.''), st))"

definition bad_fd :: "(nstate, 'a) io" where
  "bad_fd = io_raise (OSError ''Bad file descriptor'')"

section \<open>System calls on the handle\<close>

definition sys_read :: "nat \<Rightarrow> (nstate, bytes) io" where
  "sys_read n = (\<lambda>(fs, f).
     if can_read f then
       let b = take n (drop (nf_pos f) (nf_data (fs, f)))
       in (Inr b, (fs, f\<lparr>nf_pos := nf_pos f + length b\<rparr>))
     else bad_fd (fs, f))"

definition sys_read_to_end :: "(nstate, bytes) io" where
  "sys_read_to_end = (\<lambda>st. sys_read (length (nf_data st)) st)"

definition sys_pread :: "nat \<Rightarrow> nat \<Rightarrow> (nstate, bytes) io" where
  "sys_pread off n = (\<lambda>(fs, f).
     if can_read f then (Inr (take n (drop off (nf_data (fs, f)))), (fs, f)) else bad_fd (fs, f))"

text \<open>A write at the position of the handle, or at the end in append mode.\<close>

definition sys_write :: "bytes \<Rightarrow> (nstate, nat) io" where
  "sys_write b = (\<lambda>(fs, f).
     if can_write f then
       let d = nf_data (fs, f); p = (if nf_append f then length d else nf_pos f)
       in (Inr (length b),
           (if b = [] then (fs, f)
            else (fs(nf_path f \<mapsto> overwrite 0 p b d), f\<lparr>nf_pos := p + length b\<rparr>)))
     else bad_fd (fs, f))"

text \<open>\<open>File::open(&path)\<close> and \<open>OpenOptions::new().create(true).append(true).open(&path)\<close>.\<close>

definition reopen_read :: "(bytes \<Rightarrow> 'a) \<Rightarrow> (nstate, 'a) io" where
  "reopen_read k = (\<lambda>(fs, f).
     case fs (nf_path f) of
       None \<Rightarrow> (Inl (OSError ''No such file or directory''), (fs, f))
     | Some d \<Rightarrow> (Inr (k d), (fs, f)))"

definition reopen_append :: "bytes \<Rightarrow> (nstate, unit) io" where
  "reopen_append b = (\<lambda>(fs, f). (Inr (), (fs(nf_path f \<mapsto> nf_data (fs, f) @ b), f)))"

section \<open>Arguments\<close>

text \<open>
  \<open>extract::<Vec<u8>>()\<close> or \<open>extract::<&str>()\<close>: the UTF-8 of a string; a string that has none is
  refused like any other object.
\<close>

definition to_bytes :: "string \<Rightarrow> pydata \<Rightarrow> py_error + bytes" where
  "to_bytes msg d =
     (case d of
        Bytes b \<Rightarrow> Inr b
      | Str t \<Rightarrow> (case utf8_encode t of Inr b \<Rightarrow> Inr b | Inl _ \<Rightarrow> Inl (TypeError msg)))"

fun all_to_bytes :: "pydata list \<Rightarrow> py_error + bytes list" where
  "all_to_bytes [] = Inr []"
| "all_to_bytes (d # ds) =
     (case to_bytes ''expected bytes-like object or str in batch'' d of
        Inl e \<Rightarrow> Inl e
      | Inr b \<Rightarrow> (case all_to_bytes ds of Inl e \<Rightarrow> Inl e | Inr bs \<Rightarrow> Inr (b # bs)))"

text \<open>
  The specs of a batch: all sizes (offset \<open>u64::MAX\<close>, here \<open>None\<close>) or all tuples, each number
  an unsigned 64-bit integer.
\<close>

definition is_u64 :: "int \<Rightarrow> bool" where
  "is_u64 n = (0 \<le> n \<and> n < 2 ^ 64)"

definition batch_specs :: "read_spec list \<Rightarrow> py_error + (nat option \<times> nat) list" where
  "batch_specs specs =
     (if list_all (\<lambda>sp. case sp of Size n \<Rightarrow> is_u64 n | OffsetSize off n \<Rightarrow> False) specs
      then Inr (map (\<lambda>sp. (None, nat (spec_size sp))) specs)
      else if list_all (\<lambda>sp. case sp of Size n \<Rightarrow> False | OffsetSize off n \<Rightarrow> is_u64 off \<and> is_u64 n) specs
      then Inr (map (\<lambda>sp. case sp of
                       Size n \<Rightarrow> (None, nat n)
                     | OffsetSize off n \<Rightarrow> (if off = 2 ^ 64 - 1 then None else Some (nat off), nat n)) specs)
      else Inl (TypeError ''expected list of int sizes or (offset, size) tuples''))"

section \<open>Sync methods\<close>

definition nf_read :: "int \<Rightarrow> (nstate, pydata) io" where
  "nf_read sz = nf_guard
     (io_bind (if sz < 0 then sys_read_to_end else sys_read (nat sz)) (\<lambda>b. io_return (Bytes b)))"

definition nf_readinto :: "nat \<Rightarrow> (nstate, bytes) io" where
  "nf_readinto n = nf_guard (sys_read n)"

definition nf_write :: "pydata \<Rightarrow> (nstate, int) io" where
  "nf_write d =
     (case to_bytes ''expected bytes-like object or str'' d of
        Inl e \<Rightarrow> io_raise e
      | Inr b \<Rightarrow> nf_guard (io_bind (sys_write b) (\<lambda>_. io_return (int (length b)))))"

definition nf_close :: "(nstate, unit) io" where
  "nf_close = (\<lambda>(fs, f). (Inr (), (fs, f\<lparr>nf_open := False\<rparr>)))"

definition nf_closed :: "nstate \<Rightarrow> bool" where
  "nf_closed st = (\<not> nf_open (snd st))"

text \<open>\<open>SeekingWhence::to_seek_from\<close>; \<open>pos as u64\<close> wraps a negative position around.\<close>

datatype seek_from = SeekStart nat | SeekCurrent int | SeekEnd int

definition to_seek_from :: "int \<Rightarrow> int \<Rightarrow> py_error + seek_from" where
  "to_seek_from whence pos =
     (if whence = 0 then Inr (SeekStart (nat (pos mod 2 ^ 64)))
      else if whence = 1 then Inr (SeekCurrent pos)
      else if whence = 2 then Inr (SeekEnd pos)
      else Inl (ValueError ''invalid whence''))"

text \<open>\<open>lseek\<close> takes a signed offset: from 2^63 on a start position is negative, and refused.\<close>

definition sys_seek :: "seek_from \<Rightarrow> (nstate, int) io" where
  "sys_seek sf = (\<lambda>(fs, f).
     let p = (case sf of
                SeekStart n \<Rightarrow> (if n < 2 ^ 63 then int n else int n - 2 ^ 64)
              | SeekCurrent d \<Rightarrow> int (nf_pos f) + d
              | SeekEnd d \<Rightarrow> int (length (nf_data (fs, f))) + d)
     in if p < 0 then (Inl (OSError ''Invalid argument''), (fs, f))
        else (Inr p, (fs, f\<lparr>nf_pos := nat p\<rparr>)))"

definition nf_seek :: "int \<Rightarrow> int \<Rightarrow> (nstate, int) io" where
  "nf_seek pos whence = nf_guard
     (case to_seek_from whence pos of Inl e \<Rightarrow> io_raise e | Inr sf \<Rightarrow> sys_seek sf)"

definition nf_tell :: "(nstate, int) io" where
  "nf_tell = nf_seek 0 1"

definition nf_readable :: "nstate \<Rightarrow> bool" where
  "nf_readable st = fm_readable (nf_mode (snd st))"

definition nf_writable :: "nstate \<Rightarrow> bool" where
  "nf_writable st = fm_writable (nf_mode (snd st))"

definition nf_seekable :: "nstate \<Rightarrow> bool" where
  "nf_seekable st = True"

definition nf_flush :: "(nstate, unit) io" where
  "nf_flush = io_return ()"

section \<open>Async methods\<close>

text \<open>\<open>if let Ok(res) = ring operation { return Ok(res) }\<close>, else the fallback.\<close>

definition try_ring :: "bool \<Rightarrow> (nstate, 'a) io \<Rightarrow> (nstate, 'a) io \<Rightarrow> (nstate, 'a) io" where
  "try_ring ring op fallback = (if ring then io_catch (\<lambda>_. True) op fallback else fallback)"

text \<open>A length in a submission entry is a \<open>u32\<close>: \<open>size as u32\<close>.\<close>

definition as_u32 :: "nat \<Rightarrow> nat" where
  "as_u32 n = unat (word_of_nat n :: 32 word)"

definition nf_aread :: "bool \<Rightarrow> int \<Rightarrow> (nstate, pydata) io" where
  "nf_aread ring sz = nf_guard
     (let read_size = (if sz < 0 then 65536 else nat sz) in
      io_bind (try_ring ring (sys_pread 0 (as_u32 read_size))
                 (reopen_read (\<lambda>d. if sz < 0 then d else take (nat sz) d)))
        (\<lambda>b. io_return (Bytes b)))"

definition nf_awrite :: "bool \<Rightarrow> pydata \<Rightarrow> (nstate, int) io" where
  "nf_awrite ring d =
     (case to_bytes ''expected bytes-like object or str'' d of
        Inl e \<Rightarrow> io_raise e
      | Inr b \<Rightarrow> nf_guard
          (try_ring ring
             (io_bind (sys_write (take (as_u32 (length b)) b)) (\<lambda>n. io_return (int n)))
             (io_bind (reopen_append b) (\<lambda>_. io_return (int (length b))))))"

text \<open>
  The reads of a batch are taken in the order of submission; an entry without offset reads at
  the position of the handle (ring), respectively of the reopened file (fallback, which starts
  at 0).  The kernel takes offsets as signed numbers and refuses those from 2^63 on.
\<close>

definition offset_ok :: "nat option \<times> nat \<Rightarrow> bool" where
  "offset_ok sp = (case fst sp of Some off \<Rightarrow> off < 2 ^ 63 | None \<Rightarrow> True)"

definition ring_read_one :: "nat option \<times> nat \<Rightarrow> (nstate, bytes) io" where
  "ring_read_one sp =
     (if \<not> offset_ok sp then io_raise (OSError ''Invalid argument'')
      else (case fst sp of
          Some off \<Rightarrow> sys_pread off (as_u32 (snd sp))
        | None \<Rightarrow> sys_read (as_u32 (snd sp))))"

fun read_seq :: "bytes \<Rightarrow> nat \<Rightarrow> (nat option \<times> nat) list \<Rightarrow> bytes list" where
  "read_seq d p [] = []"
| "read_seq d p ((off, n) # sps) =
     (let q = (case off of Some k \<Rightarrow> k | None \<Rightarrow> p); b = take n (drop q d)
      in b # read_seq d (q + length b) sps)"

definition nf_aread_batch :: "bool \<Rightarrow> read_spec list \<Rightarrow> (nstate, pydata list) io" where
  "nf_aread_batch ring specs =
     (case batch_specs specs of
        Inl e \<Rightarrow> io_raise e
      | Inr sps \<Rightarrow> nf_guard
          (io_bind
             (try_ring ring (io_map ring_read_one sps)
                (io_bind (reopen_read (\<lambda>d. read_seq d 0 sps)) (\<lambda>bs.
                   if list_all offset_ok sps then io_return bs
                   else io_raise (OSError ''Invalid argument''))))
             (\<lambda>bs. io_return (map Bytes bs))))"

definition nf_awrite_batch :: "bool \<Rightarrow> pydata list \<Rightarrow> (nstate, int list) io" where
  "nf_awrite_batch ring chunks =
     (case all_to_bytes chunks of
        Inl e \<Rightarrow> io_raise e
      | Inr bs \<Rightarrow> nf_guard
          (io_bind
             (try_ring ring (io_map (\<lambda>b. sys_write (take (as_u32 (length b)) b)) bs)
                (io_bind (reopen_append (concat bs)) (\<lambda>_. io_return (map length bs))))
             (\<lambda>ns. io_return (map int ns))))"

definition nf_aclose :: "(nstate, unit) io" where
  "nf_aclose = nf_close"

definition nf_aflush :: "(nstate, unit) io" where
  "nf_aflush = io_return ()"

text \<open>
  \<open>asplice\<close> opens the path anew.  \<open>ring_splice\<close> is the ring operation on the two descriptors where it
  succeeds (one of them a pipe); \<open>target_write\<close> is a \<open>write_all\<close> to the target descriptor, in
  the fallback.  The stream's handle takes no part, and is not checked.
\<close>

definition nf_asplice ::
  "(bytes \<Rightarrow> ('t, nat) io) option \<Rightarrow> (bytes \<Rightarrow> ('t, unit) io) \<Rightarrow> nat option \<Rightarrow> (nstate \<times> 't, nat) io"
where
  "nf_asplice ring_splice target_write sz = (\<lambda>((fs, f), t).
     let len = (case sz of Some n \<Rightarrow> n | None \<Rightarrow> 65536) in
     case fs (nf_path f) of
       None \<Rightarrow> (Inl (OSError ''No such file or directory''), ((fs, f), t))
     | Some d \<Rightarrow>
         let fallback = on_snd (io_bind (target_write (take len d)) (\<lambda>_. io_return (length (take len d))))
         in (case ring_splice of
               None \<Rightarrow> fallback ((fs, f), t)
             | Some sp \<Rightarrow>
                 io_catch (\<lambda>_. True) (on_snd (sp (take (as_u32 len) d))) fallback ((fs, f), t)))"

section \<open>Properties\<close>

lemmas nf_defs = nf_guard_def nf_data_def bad_fd_def sys_read_def sys_pread_def sys_write_def
  reopen_read_def reopen_append_def try_ring_def to_bytes_def Let_def

lemma as_u32_id: "n < 2 ^ 32 \<Longrightarrow> as_u32 n = n"
  by (simp add: as_u32_def unat_of_nat take_bit_nat_eq_self)

definition demo_native :: "access \<Rightarrow> nat \<Rightarrow> native_file" where
  "demo_native acc p = \<lparr>nf_open = True, nf_path = ''f'', nf_mode = file_mode_parse ''rb+'', nf_pos = p,
     nf_access = acc, nf_append = False\<rparr>"

text \<open>
  \<open>NativeFileIO.aread(n)\<close> always reads from the beginning of the file: with or without a
  ring it returns the first \<open>n\<close> bytes and leaves the position where it was, so that the next
  \<open>aread\<close> returns the same bytes again and a reader of a non-empty file never sees the end.
\<close>

lemma native_aread_restarts:
  assumes "nf_open f" and "can_read f" and "fs (nf_path f) = Some d" and "0 \<le> n" and "n < 2 ^ 32"
  shows "nf_aread ring n (fs, f) = (Inr (Bytes (take (nat n) d)), (fs, f))"
proof -
  have "as_u32 (nat n) = nat n" using assms(4,5) by (intro as_u32_id) (simp add: nat_less_iff)
  with assms show ?thesis by (simp add: nf_aread_def nf_defs io_defs)
qed



text \<open>
  C33: the sync methods of \<open>NativeFileIO\<close> do what a file does: what \<open>write\<close> puts at the position
  of a read-write stream is there after seeking back, the position is behind it, and the rest of the
  file is unchanged; \<open>tell\<close> reports the position.
\<close>

theorem native_write_seek_read:
  assumes "nf_open f" and "nf_access f = RdWr" and "\<not> nf_append f" and "fs (nf_path f) = Some d"
    and "nf_pos f < 2 ^ 63" and "b \<noteq> []"
  shows "\<exists>st1 st2 st3.
     nf_write (Bytes b) (fs, f) = (Inr (int (length b)), st1) \<and>
     nf_data st1 = overwrite 0 (nf_pos f) b d \<and>
     nf_tell st1 = (Inr (int (nf_pos f + length b)), st1) \<and>
     nf_seek (int (nf_pos f)) 0 st1 = (Inr (int (nf_pos f)), st2) \<and>
     nf_read (int (length b)) st2 = (Inr (Bytes b), st3) \<and> nf_data st3 = nf_data st1"
proof -
  let ?fs = "fs(nf_path f \<mapsto> overwrite 0 (nf_pos f) b d)"
  let ?st1 = "(?fs, f\<lparr>nf_pos := nf_pos f + length b\<rparr>)"
  have pos: "int (nf_pos f) mod 2 ^ 64 = int (nf_pos f)" using assms(5) by simp
  have "nf_write (Bytes b) (fs, f) = (Inr (int (length b)), ?st1)"
    using assms by (simp add: nf_write_def nf_defs can_write_def io_defs)
  moreover have "nf_data ?st1 = overwrite 0 (nf_pos f) b d" by (simp add: nf_data_def)
  moreover have "nf_tell ?st1 = (Inr (int (nf_pos f + length b)), ?st1)"
    using assms(1) by (simp add: nf_tell_def nf_seek_def nf_guard_def to_seek_from_def sys_seek_def Let_def)
  moreover have "nf_seek (int (nf_pos f)) 0 ?st1 = (Inr (int (nf_pos f)), (?fs, f))"
    using assms(1,5) pos
    by (simp add: nf_seek_def nf_guard_def to_seek_from_def sys_seek_def Let_def)
  moreover have "nf_read (int (length b)) (?fs, f) =
      (Inr (Bytes b), (?fs, f\<lparr>nf_pos := nf_pos f + length b\<rparr>))"
    using assms(1,2) by (simp add: nf_read_def nf_defs can_read_def io_defs read_back_overwrite)
  ultimately show ?thesis by blast
qed

theorem native_write_seek_read_witness:
  "\<exists>st1. nf_write (Bytes [9]) ([''f'' \<mapsto> [1, 2, 3]], demo_native RdWr 1) = (Inr 1, st1) \<and>
         nf_data st1 = [1, 9, 3]"
  using native_write_seek_read [of "demo_native RdWr 1" "[''f'' \<mapsto> [1, 2, 3]]" "[1, 2, 3]" "[9]"]
  by (auto simp: demo_native_def overwrite_def)

lemma io_map_pure:
  "(\<And>x. x \<in> set xs \<Longrightarrow> f x s = (Inr (g x), s)) \<Longrightarrow> io_map f xs s = (Inr (map g xs), s)"
  by (induction xs) (simp_all add: io_return_def)

lemma read_seq_offsets:
  "list_all (\<lambda>sp. fst sp \<noteq> None) sps \<Longrightarrow>
   read_seq d p sps = map (\<lambda>sp. take (snd sp) (drop (the (fst sp)) d)) sps"
  by (induction d p sps rule: read_seq.induct) (auto simp: Let_def)

text \<open>
  C37: a batch of \<open>(offset, size)\<close> tuples on a \<open>NativeFileIO\<close> reads each piece at its offset, in
  the order of the list, with or without a ring, and does not move the position (the batches of
  the Python classes ignore the offsets).
\<close>

theorem native_aread_batch_offsets:
  assumes "nf_open f" and "can_read f" and "fs (nf_path f) = Some d"
    and "list_all (\<lambda>(off, n). 0 \<le> off \<and> off < 2 ^ 63 \<and> 0 \<le> n \<and> n < 2 ^ 32) pieces"
  shows "nf_aread_batch ring (map (\<lambda>(off, n). OffsetSize off n) pieces) (fs, f) =
           (Inr (map (\<lambda>(off, n). Bytes (take (nat n) (drop (nat off) d))) pieces), (fs, f))"
proof (cases "pieces = []")
  case True
  with assms(1,3) show ?thesis
    by (simp add: nf_aread_batch_def batch_specs_def nf_guard_def try_ring_def reopen_read_def
        io_defs)
next
  case False
  let ?sps = "map (\<lambda>(off, n). (Some (nat off), nat n)) pieces"
  have specs: "batch_specs (map (\<lambda>(off, n). OffsetSize off n) pieces) = Inr ?sps"
    using assms(4) False
    by (cases pieces) (auto simp: batch_specs_def is_u64_def list_all_iff split: prod.splits)
  have ok: "list_all offset_ok ?sps"
    using assms(4) by (auto simp: list_all_iff offset_ok_def nat_less_iff)
  have one: "ring_read_one sp (fs, f) = (Inr (take (snd sp) (drop (the (fst sp)) d)), (fs, f))"
    if "sp \<in> set ?sps" for sp
  proof -
    from that assms(4) obtain off n where "sp = (Some (nat off), nat n)" "0 \<le> n" "n < 2 ^ 32"
      "offset_ok sp" by (auto simp: list_all_iff offset_ok_def nat_less_iff)
    then show ?thesis
      using assms(2,3) as_u32_id [of "nat n"]
      by (simp add: ring_read_one_def sys_pread_def nf_data_def nat_less_iff)
  qed
  have ring: "io_map ring_read_one ?sps (fs, f) =
      (Inr (map (\<lambda>sp. take (snd sp) (drop (the (fst sp)) d)) ?sps), (fs, f))"
    by (rule io_map_pure) (rule one)
  have fallback: "read_seq d 0 ?sps = map (\<lambda>sp. take (snd sp) (drop (the (fst sp)) d)) ?sps"
    by (rule read_seq_offsets) (auto simp: list_all_iff)
  show ?thesis
    using assms(1,3) specs ring fallback ok
    by (auto simp: nf_aread_batch_def nf_guard_def try_ring_def reopen_read_def io_defs
        split_def comp_def)
qed

theorem native_aread_batch_offsets_witness:
  "nf_aread_batch False [OffsetSize 2 1, OffsetSize 0 2] ([''f'' \<mapsto> [1, 2, 3]], demo_native RdOnly 3) =
     (Inr [Bytes [3], Bytes [1, 2]], ([''f'' \<mapsto> [1, 2, 3]], demo_native RdOnly 3))"
  using native_aread_batch_offsets
    [of "demo_native RdOnly 3" "[''f'' \<mapsto> [1, 2, 3]]" "[1, 2, 3]" "[(2, 1), (0, 2)]" False]
  by (simp add: demo_native_def can_read_def numeral_2_eq_2)

text \<open>
  Where \<open>awrite\<close> puts its data depends on the engine: on a read-write stream the ring writes
  at the position and advances it, over what is there; without a ring the data goes to the end
  of the file and the position stays.
\<close>

lemma native_awrite_position:
  assumes "nf_open f" and "nf_access f = RdWr" and "\<not> nf_append f" and "fs (nf_path f) = Some d"
    and "b \<noteq> []" and "length b < 2 ^ 32"
  shows "nf_awrite True (Bytes b) (fs, f) =
           (Inr (int (length b)),
            (fs(nf_path f \<mapsto> overwrite 0 (nf_pos f) b d), f\<lparr>nf_pos := nf_pos f + length b\<rparr>)) \<and>
         nf_awrite False (Bytes b) (fs, f) =
           (Inr (int (length b)), (fs(nf_path f \<mapsto> d @ b), f))"
  using assms by (simp add: nf_awrite_def nf_defs can_write_def as_u32_id io_defs)

text \<open>
  A splice also starts at the beginning of the file each time, whatever the position, and even
  on a closed stream.
\<close>

lemma native_asplice_restarts:
  assumes "fs (nf_path f) = Some d" and "target_write (take n d) t = (Inr (), t')"
  shows "nf_asplice None target_write (Some n) ((fs, f), t) =
           (Inr (length (take n d)), ((fs, f), t'))"
  using assms by (simp add: nf_asplice_def io_defs)

end
