(* ===== verification/Ring_Config.thy ===== *)
theory Ring_Config
  imports File_Streams
begin

text \<open>
  When the ring engine is used and how large its rings are: \<open>src/engines/mod.rs\<close> and the
  configuration part of \<open>src/engines/linux.rs\<close>, over what the environment and the kernel say.
  Text is a list of code points; parsing and trimming follow Rust's standard library.
\<close>

section \<open>Parsing\<close>

definition ascii :: "string \<Rightarrow> pstr" where
  "ascii s = map of_char s"

definition is_digit :: "nat \<Rightarrow> bool" where
  "is_digit c = (48 \<le> c \<and> c \<le> 57)"

definition digits_val :: "pstr \<Rightarrow> nat" where
  "digits_val ds = foldl (\<lambda>a c. 10 * a + (c - 48)) 0 ds"

text \<open>\<open>str::parse::<u32>\<close>: an optional plus sign and at least one digit, without overflow.\<close>

definition parse_u32 :: "pstr \<Rightarrow> nat option" where
  "parse_u32 s =
     (let ds = (case s of [] \<Rightarrow> [] | c # cs \<Rightarrow> if c = 43 then cs else s)
      in if ds \<noteq> [] \<and> list_all is_digit ds \<and> digits_val ds < 2 ^ 32
         then Some (digits_val ds) else None)"

text \<open>\<open>char::is_whitespace\<close> and \<open>str::trim\<close>.\<close>

definition is_whitespace :: "nat \<Rightarrow> bool" where
  "is_whitespace c =
     (9 \<le> c \<and> c \<le> 13 \<or> c = 0x20 \<or> c = 0x85 \<or> c = 0xA0 \<or> c = 0x1680 \<or>
      0x2000 \<le> c \<and> c \<le> 0x200A \<or> c = 0x2028 \<or> c = 0x2029 \<or> c = 0x202F \<or> c = 0x205F \<or> c = 0x3000)"

definition trim_end :: "pstr \<Rightarrow> pstr" where
  "trim_end s = rev (dropWhile is_whitespace (rev s))"

definition trim :: "pstr \<Rightarrow> pstr" where
  "trim s = trim_end (dropWhile is_whitespace s)"

fun split_on :: "nat \<Rightarrow> pstr \<Rightarrow> pstr list" where
  "split_on c [] = [[]]"
| "split_on c (x # xs) =
     (if x = c then [] # split_on c xs
      else (case split_on c xs of [] \<Rightarrow> [[x]] | p # ps \<Rightarrow> (x # p) # ps))"

section \<open>The size of a ring\<close>

text \<open>\<open>u32::is_power_of_two\<close> counts the bits that are set.\<close>

definition is_power_of_two :: "32 word \<Rightarrow> bool" where
  "is_power_of_two n = (length (filter (bit n) [0..<32]) = 1)"

text \<open>The variable \<open>PY_NATIVE_IO_RING_SIZE\<close>: \<open>None\<close> if it is unset or not Unicode.\<close>

definition get_configured_ring_size :: "pstr option \<Rightarrow> nat" where
  "get_configured_ring_size var =
     (case var of
        None \<Rightarrow> 1024
      | Some val \<Rightarrow>
          (case parse_u32 val of
             None \<Rightarrow> 1024
           | Some parsed \<Rightarrow>
               if 0 < parsed \<and> is_power_of_two (word_of_nat parsed) then parsed else 1024))"

section \<open>Whether there is a ring\<close>

text \<open>
  What the kernel says: the release file (if it can be read), whether a ring can be made, and
  the probe for the read and write operations (if it can be registered).
\<close>

record host =
  h_force_legacy :: "pstr option"
  h_release :: "pstr option"
  h_ring :: bool
  h_probe :: "(bool \<times> bool) option"

definition parse_kernel_version :: "pstr \<Rightarrow> (nat \<times> nat) option" where
  "parse_kernel_version release =
     (case split_on 46 (trim release) of
        [] \<Rightarrow> None
      | major_str # parts \<Rightarrow>
          (case parse_u32 major_str of
             None \<Rightarrow> None
           | Some major \<Rightarrow>
               (case parts of
                  [] \<Rightarrow> None
                | minor_str # _ \<Rightarrow>
                    (case parse_u32 (takeWhile is_digit minor_str) of
                       None \<Rightarrow> None
                     | Some minor \<Rightarrow> Some (major, minor)))))"

definition is_linux_uring_secure_and_supported :: "host \<Rightarrow> bool" where
  "is_linux_uring_secure_and_supported h =
     (if (case h_release h of
            None \<Rightarrow> False
          | Some release \<Rightarrow>
              (case parse_kernel_version release of
                 None \<Rightarrow> False
               | Some (major, minor) \<Rightarrow> major < 5 \<or> (major = 5 \<and> minor < 10)))
      then False
      else if \<not> h_ring h then False
      else (case h_probe h of None \<Rightarrow> False | Some (rd, wr) \<Rightarrow> rd \<and> wr))"

text \<open>\<open>PY_NATIVE_IO_FORCE_LEGACY\<close>: \<open>is_ok()\<close>, that is, set to anything.\<close>

definition is_kernel_ring_supported :: "host \<Rightarrow> bool" where
  "is_kernel_ring_supported h =
     (if h_force_legacy h \<noteq> None then False else is_linux_uring_secure_and_supported h)"

section \<open>Properties\<close>

lemma ascii_simps [simp]:
  "ascii [] = []" "ascii (c # s) = of_char c # ascii s" "ascii (s @ t) = ascii s @ ascii t"
  by (simp_all add: ascii_def)

lemma digits_val_snoc: "digits_val (ds @ [c]) = 10 * digits_val ds + (c - 48)"
  by (simp add: digits_val_def)

text \<open>Decimal digits are read back.\<close>

lemma nat_str_digits:
  "nat_str n \<noteq> [] \<and> list_all is_digit (ascii (nat_str n)) \<and> digits_val (ascii (nat_str n)) = n"
proof (induction n rule: nat_str.induct)
  case (1 n)
  have code: "of_char (char_of (48 + m) :: char) = 48 + m" if "m < 10" for m :: nat
    using that by simp
  show ?case
  proof (cases "n < 10")
    case True
    then show ?thesis
      by (simp add: nat_str.simps [of n] is_digit_def digits_val_def code del: of_char_of)
  next
    case False
    with 1 have "list_all is_digit (ascii (nat_str (n div 10)))"
      "digits_val (ascii (nat_str (n div 10))) = n div 10" by simp_all
    moreover have "is_digit (48 + n mod 10)"
      using mod_less_divisor [of 10 n] by (simp add: is_digit_def)
    ultimately show ?thesis using False
      by (simp add: nat_str.simps [of n] digits_val_snoc code del: of_char_of)
  qed
qed

lemma ascii_eq_Nil [simp]: "ascii s = [] \<longleftrightarrow> s = []"
  by (simp add: ascii_def)

lemma parse_u32_nat_str:
  assumes "n < 2 ^ 32"
  shows "parse_u32 (ascii (nat_str n)) = Some n"
proof -
  let ?ds = "ascii (nat_str n)"
  from nat_str_digits [of n] have ds: "?ds \<noteq> []" "list_all is_digit ?ds" "digits_val ?ds = n"
    by simp_all
  then obtain c cs where c: "?ds = c # cs" by (cases ?ds) auto
  with ds(2) have "c \<noteq> 43" by (auto simp: is_digit_def)
  with c ds assms show ?thesis by (simp add: parse_u32_def Let_def)
qed

lemma unat_word_of_nat32: "n < 2 ^ 32 \<Longrightarrow> unat (word_of_nat n :: 32 word) = n"
  by (simp add: unat_of_nat take_bit_nat_eq_self)

lemma power_less_2_32: "k < 32 \<Longrightarrow> (2 :: nat) ^ k < 2 ^ 32"
  by (rule power_strict_increasing) simp_all

lemma filter_eq_upt: "k < n \<Longrightarrow> filter (\<lambda>i. i = k) [0..<n] = [k]"
  by (induction n) (auto simp: less_Suc_eq filter_empty_conv)

lemma is_power_of_two_iff: "is_power_of_two n \<longleftrightarrow> (\<exists>k<32. unat n = 2 ^ k)"
proof
  assume "is_power_of_two n"
  then obtain k where k: "filter (bit n) [0..<32] = [k]"
    by (auto simp: is_power_of_two_def length_Suc_conv)
  then have "set (filter (bit n) [0..<32]) = {k}" by simp
  then have set: "i < 32 \<and> bit n i \<longleftrightarrow> i = k" for i by auto
  have "n = push_bit k 1"
    by (rule bit_word_eqI) (use set in \<open>auto simp: bit_simps\<close>)
  then have n: "n = word_of_nat (2 ^ k)" by (simp add: push_bit_eq_mult)
  from set have "k < 32" by blast
  then have "unat n = 2 ^ k"
    unfolding n by (intro unat_word_of_nat32 power_less_2_32)
  with \<open>k < 32\<close> show "\<exists>k<32. unat n = 2 ^ k" by blast
next
  assume "\<exists>k<32. unat n = 2 ^ k"
  then obtain k where k: "k < 32" "unat n = 2 ^ k" by blast
  then have "unat n = unat (word_of_nat (2 ^ k) :: 32 word)"
    by (simp only: unat_word_of_nat32 power_less_2_32)
  then have "n = 2 ^ k" by (simp add: word_unat_eq_iff [symmetric])
  with k(1) have "bit n i \<longleftrightarrow> i = k" if "i < 32" for i
    using that by (auto simp: bit_simps)
  then have "filter (bit n) [0..<32] = filter (\<lambda>i. i = k) [0..<32]"
    by (intro filter_cong) auto
  also have "\<dots> = [k]"
    using k(1) by (rule filter_eq_upt)
  finally show "is_power_of_two n" by (simp add: is_power_of_two_def)
qed

lemma ring_size_is_power: "\<exists>j<32. get_configured_ring_size var = 2 ^ j"
proof -
  have "\<exists>j<32. (1024 :: nat) = 2 ^ j" by (intro exI [of _ 10]) simp
  moreover have "unat (word_of_nat n :: 32 word) = n" if "parse_u32 s = Some n" for s n
    using that by (auto simp: parse_u32_def Let_def intro!: unat_word_of_nat32 split: if_splits)
  ultimately show ?thesis
    by (auto simp: get_configured_ring_size_def is_power_of_two_iff split: option.split)
qed

lemma ring_size_positive: "0 < get_configured_ring_size var"
  using ring_size_is_power [of var] by auto

text \<open>
  C38: whatever \<open>PY_NATIVE_IO_RING_SIZE\<close> says, the size asked of the kernel is a power of two that
  fits 32 bits, and each such power of two can be configured.
\<close>

theorem ring_size_power_of_two:
  assumes "k < 32"
  shows "(\<exists>j<32. get_configured_ring_size var = 2 ^ j) \<and>
         get_configured_ring_size (Some (ascii (nat_str (2 ^ k)))) = 2 ^ k"
proof -
  have "parse_u32 (ascii (nat_str (2 ^ k))) = Some (2 ^ k)"
    and "unat (word_of_nat (2 ^ k) :: 32 word) = 2 ^ k"
    using power_less_2_32 [OF assms] by (simp_all only: parse_u32_nat_str unat_word_of_nat32)
  with assms have "get_configured_ring_size (Some (ascii (nat_str (2 ^ k)))) = 2 ^ k"
    by (auto simp: get_configured_ring_size_def is_power_of_two_iff)
  with ring_size_is_power show ?thesis by blast
qed

theorem ring_size_power_of_two_witness:
  "get_configured_ring_size (Some (ascii (nat_str (2 ^ 8)))) = 256"
  using ring_size_power_of_two [of 8 None] by simp

text \<open>The parts of a release string.\<close>

lemma split_on_prefix:
  "c \<notin> set p \<Longrightarrow> split_on c (p @ c # s) = p # split_on c s"
  by (induction p) simp_all

lemma split_on_Cons_exists: "\<exists>p ps. split_on c s = p # ps"
  by (induction s) (auto split: list.split)

lemma split_on_hd:
  "c \<notin> set p \<Longrightarrow> split_on c (p @ s) = (p @ hd (split_on c s)) # tl (split_on c s)"
  using split_on_Cons_exists [of c s] by (induction p) auto

lemma hd_split_on_prefix: "\<exists>t. s = hd (split_on c s) @ t"
proof (induction s)
  case Nil
  then show ?case by simp
next
  case (Cons x s)
  then show ?case using split_on_Cons_exists [of c s] by auto
qed

lemma trim_end_prefix: "\<exists>t. s = trim_end s @ t"
  unfolding trim_end_def by (metis rev_append rev_rev_ident takeWhile_dropWhile_id)

lemma trim_end_append: "p \<noteq> [] \<Longrightarrow> \<not> is_whitespace (last p) \<Longrightarrow> \<exists>t u. s = t @ u \<and> trim_end (p @ s) = p @ t"
proof -
  assume p: "p \<noteq> []" "\<not> is_whitespace (last p)"
  show ?thesis
  proof (cases "list_all is_whitespace s")
    case True
    then have "dropWhile is_whitespace (rev s @ rev p) = rev p"
      using p by (subst dropWhile_append2) (auto simp: list_all_iff dropWhile_eq_self_iff hd_rev)
    then have "trim_end (p @ s) = p @ []" by (simp add: trim_end_def)
    then show ?thesis by (intro exI [of _ "[]"] exI [of _ s]) simp
  next
    case False
    then obtain x where "x \<in> set (rev s)" "\<not> is_whitespace x" by (auto simp: list_all_iff)
    then have "trim_end (p @ s) = p @ trim_end s"
      by (simp add: trim_end_def dropWhile_append1)
    then show ?thesis using trim_end_prefix [of s] by auto
  qed
qed

lemma digit_not_special:
  "is_digit c \<Longrightarrow> \<not> is_whitespace c" "is_digit c \<Longrightarrow> c \<noteq> 46"
  by (auto simp: is_digit_def is_whitespace_def)

lemma not_digit_prefix:
  assumes "s = t @ u" and "\<And>c cs. s = c # cs \<Longrightarrow> \<not> is_digit c"
  shows "takeWhile is_digit t = []"
  using assms by (cases t) auto

lemma parse_kernel_version_release:
  assumes "major < 2 ^ 32" and "minor < 2 ^ 32" and "\<And>c cs. rest = c # cs \<Longrightarrow> \<not> is_digit c"
  shows "parse_kernel_version (ascii (nat_str major) @ 46 # ascii (nat_str minor) @ rest) =
           Some (major, minor)"
proof -
  let ?M = "ascii (nat_str major)" and ?m = "ascii (nat_str minor)"
  have M: "?M \<noteq> []" "list_all is_digit ?M" and m: "?m \<noteq> []" "list_all is_digit ?m"
    using nat_str_digits by simp_all
  then have "is_digit (last (?M @ 46 # ?m))" by (auto simp: list_all_iff)
  then obtain t u where t: "rest = t @ u" "trim_end ((?M @ 46 # ?m) @ rest) = (?M @ 46 # ?m) @ t"
    using trim_end_append [of "?M @ 46 # ?m" rest] digit_not_special(1) by blast
  have "dropWhile is_whitespace (?M @ 46 # ?m @ rest) = ?M @ 46 # ?m @ rest"
    using M by (cases ?M) (auto dest: digit_not_special(1))
  with t(2) have trim: "trim (?M @ 46 # ?m @ rest) = ?M @ 46 # (?m @ t)" by (simp add: trim_def)
  have dots: "46 \<notin> set ?M" "46 \<notin> set ?m"
    using M(2) m(2) digit_not_special(2) by (auto simp: list_all_iff)
  obtain v where "t = hd (split_on 46 t) @ v" using hd_split_on_prefix by blast
  with t(1) have "rest = hd (split_on 46 t) @ v @ u" by simp
  then have "takeWhile is_digit (hd (split_on 46 t)) = []"
    by (rule not_digit_prefix) (rule assms(3))
  with m(2) have "takeWhile is_digit (?m @ hd (split_on 46 t)) = ?m"
    by (simp add: takeWhile_append2 list_all_iff)
  then show ?thesis
    using assms(1,2) dots
    by (simp add: parse_kernel_version_def trim split_on_prefix split_on_hd parse_u32_nat_str)
qed

text \<open>
  On a kernel whose release is a major and a minor number and anything that does not go on
  with a digit, rings are used exactly from 5.10 on, where a ring can be made and both operations
  are supported, unless the environment forces the thread pool.
\<close>

lemma ring_supported_from_5_10:
  assumes "h_release h = Some (ascii (nat_str major) @ 46 # ascii (nat_str minor) @ rest)"
    and "major < 2 ^ 32" and "minor < 2 ^ 32" and "\<And>c cs. rest = c # cs \<Longrightarrow> \<not> is_digit c"
  shows "is_kernel_ring_supported h =
           (h_force_legacy h = None \<and> (5 < major \<or> major = 5 \<and> 10 \<le> minor) \<and> h_ring h \<and>
            h_probe h = Some (True, True))"
proof -
  have "parse_kernel_version (ascii (nat_str major) @ 46 # ascii (nat_str minor) @ rest) =
          Some (major, minor)"
    using assms(2-4) by (rule parse_kernel_version_release)
  with assms(1) show ?thesis
    by (auto simp: is_kernel_ring_supported_def is_linux_uring_secure_and_supported_def
        split: option.splits prod.splits)
qed

text \<open>
  A release that is not understood does not keep rings from being used, however old the kernel.
\<close>

lemma unparsed_release_passes:
  "is_kernel_ring_supported \<lparr>h_force_legacy = None, h_release = Some (ascii ''v4.19''), h_ring = True,
     h_probe = Some (True, True)\<rparr>"
  by (simp add: is_kernel_ring_supported_def is_linux_uring_secure_and_supported_def
      parse_kernel_version_def trim_def trim_end_def is_whitespace_def parse_u32_def is_digit_def)

end
