(* ===== verification/Ring_Engine.thy ===== *)
theory Ring_Engine
  imports Ring_Config Native_File
begin

text \<open>
  The Linux ring engine, \<open>src/engines/linux.rs\<close>: requests are numbered, pushed to the submission
  queue of the ring of the calling thread, and their completions are collected, in whatever order
  they come, in a table from which each caller takes its own.  The \<open>io_uring\<close> crate and the kernel behind it
  are the argument \<open>ops\<close>, with the laws of the locale \<open>uring\<close>.  The state is that of one thread;
  the counter of request numbers is shared by all threads, so nothing is assumed about its value.
\<close>

section \<open>Requests and the ring\<close>

type_synonym id = "64 word"

datatype uerror = Errno int | Other string

text \<open>An operation with its arguments: offset, buffer or target descriptor, and length.\<close>

datatype ring_op =
    ReadOp "64 word" "32 word"
  | WriteOp "64 word" bytes "32 word"
  | SpliceOp int "32 word"

record sqe =
  sq_fd :: int
  sq_op :: ring_op
  sq_id :: id

text \<open>
  \<open>IoUring::new\<close>; \<open>submission().push\<close> (\<open>None\<close>: the queue is full); \<open>submit\<close>; \<open>submit_and_wait\<close> (\<open>None\<close>:
  blocked for ever); the entries that \<open>completion()\<close> takes from the completion queue; and what the
  kernel has put into the buffer of a read request.
\<close>

record 'w ring_ops =
  ur_new :: "nat \<Rightarrow> 'w \<Rightarrow> (uerror + unit) \<times> 'w"
  ur_push :: "sqe \<Rightarrow> 'w \<Rightarrow> 'w option"
  ur_submit :: "'w \<Rightarrow> (uerror + nat) \<times> 'w"
  ur_wait :: "nat \<Rightarrow> 'w \<Rightarrow> ((uerror + nat) \<times> 'w) option"
  ur_completion :: "'w \<Rightarrow> (id \<times> int) list \<times> 'w"
  ur_buffer :: "id \<Rightarrow> 'w \<Rightarrow> bytes"

section \<open>Computations\<close>

text \<open>\<open>std::io::Result\<close> computations that may block for ever.\<close>

type_synonym ('s, 'a) um = "'s \<Rightarrow> ((uerror + 'a) \<times> 's) option"

definition um_return :: "'a \<Rightarrow> ('s, 'a) um" where
  "um_return a = (\<lambda>s. Some (Inr a, s))"

definition um_raise :: "uerror \<Rightarrow> ('s, 'a) um" where
  "um_raise e = (\<lambda>s. Some (Inl e, s))"

definition um_bind :: "('s, 'a) um \<Rightarrow> ('a \<Rightarrow> ('s, 'b) um) \<Rightarrow> ('s, 'b) um" where
  "um_bind m f = (\<lambda>s. case m s of
      None \<Rightarrow> None
    | Some (Inl e, s') \<Rightarrow> Some (Inl e, s')
    | Some (Inr a, s') \<Rightarrow> f a s')"

fun um_map :: "('a \<Rightarrow> ('s, 'b) um) \<Rightarrow> 'a list \<Rightarrow> ('s, 'b list) um" where
  "um_map f [] = um_return []"
| "um_map f (x # xs) = um_bind (f x) (\<lambda>y. um_bind (um_map f xs) (\<lambda>ys. um_return (y # ys)))"

lemma um_simps [simp]:
  "um_return a s = Some (Inr a, s)"
  "um_raise e s = Some (Inl e, s)"
  "m s = None \<Longrightarrow> um_bind m f s = None"
  "m s = Some (Inl e, s') \<Longrightarrow> um_bind m f s = Some (Inl e, s')"
  "m s = Some (Inr a, s') \<Longrightarrow> um_bind m f s = f a s'"
  by (simp_all add: um_return_def um_raise_def um_bind_def)

section \<open>The state of a thread\<close>

text \<open>
  \<open>THREAD_RING\<close>: none before its first use, then the ring with the table \<open>completed\<close>; \<open>world\<close> holds
  the ring itself and everything behind it.
\<close>

record 'w engine =
  next_user_data :: id
  ring_size_var :: "pstr option"
  thread_ring :: "(id \<rightharpoonup> int) option"
  world :: 'w

type_synonym 'w ring_state = "(id \<rightharpoonup> int) \<times> 'w"

definition with_thread_ring_state ::
  "'w ring_ops \<Rightarrow> ('w ring_state, 'a) um \<Rightarrow> ('w engine, 'a) um" where
  "with_thread_ring_state ops f = (\<lambda>e.
     let run = (\<lambda>c w. case f (c, w) of
                  None \<Rightarrow> None
                | Some (r, c', w') \<Rightarrow> Some (r, e\<lparr>thread_ring := Some c', world := w'\<rparr>))
     in (case thread_ring e of
           Some c \<Rightarrow> run c (world e)
         | None \<Rightarrow>
             (case ur_new ops (get_configured_ring_size (ring_size_var e)) (world e) of
                (Inl x, w) \<Rightarrow> Some (Inl x, e\<lparr>world := w\<rparr>)
              | (Inr _, w) \<Rightarrow> run Map.empty w)))"

text \<open>\<open>NEXT_USER_DATA.fetch_add(n)\<close> wraps around.\<close>

definition fetch_add :: "nat \<Rightarrow> ('w engine, id) um" where
  "fetch_add n = (\<lambda>e. Some (Inr (next_user_data e),
     e\<lparr>next_user_data := next_user_data e + word_of_nat n\<rparr>))"

section \<open>Completions\<close>

definition insert_all :: "(id \<times> int) list \<Rightarrow> (id \<rightharpoonup> int) \<Rightarrow> (id \<rightharpoonup> int)" where
  "insert_all cqes completed = foldl (\<lambda>c (i, r). c(i \<mapsto> r)) completed cqes"

definition drain :: "'w ring_ops \<Rightarrow> 'w ring_state \<Rightarrow> 'w ring_state" where
  "drain ops = (\<lambda>(c, w). case ur_completion ops w of (cqes, w') \<Rightarrow> (insert_all cqes c, w'))"

partial_function (option) poll_completion_for_id ::
  "'w ring_ops \<Rightarrow> id \<Rightarrow> 'w ring_state \<Rightarrow> ((uerror + int) \<times> 'w ring_state) option" where
  "poll_completion_for_id ops my_id s =
     (case fst s my_id of
        Some res \<Rightarrow> Some (Inr res, ((fst s)(my_id := None), snd s))
      | None \<Rightarrow>
          (let s1 = drain ops s in
           case fst s1 my_id of
             Some res \<Rightarrow> Some (Inr res, ((fst s1)(my_id := None), snd s1))
           | None \<Rightarrow>
               (let s2 = drain ops (fst s1, snd (ur_submit ops (snd s1))) in
                case fst s2 my_id of
                  Some res \<Rightarrow> Some (Inr res, ((fst s2)(my_id := None), snd s2))
                | None \<Rightarrow>
                    (case ur_wait ops 1 (snd s2) of
                       None \<Rightarrow> None
                     | Some (r, w) \<Rightarrow>
                         (case r of
                            Inl x \<Rightarrow> Some (Inl x, (fst s2, w))
                          | Inr _ \<Rightarrow> poll_completion_for_id ops my_id (fst s2, w))))))"

section \<open>Submission\<close>

definition lift_world :: "('w \<Rightarrow> ((uerror + 'a) \<times> 'w) option) \<Rightarrow> ('w ring_state, 'a) um" where
  "lift_world m = (\<lambda>(c, w). case m w of None \<Rightarrow> None | Some (r, w') \<Rightarrow> Some (r, (c, w')))"

definition try_push :: "'w ring_ops \<Rightarrow> sqe \<Rightarrow> ('w ring_state, bool) um" where
  "try_push ops e = (\<lambda>(c, w). case ur_push ops e w of
      Some w' \<Rightarrow> Some (Inr True, (c, w'))
    | None \<Rightarrow> Some (Inr False, (c, w)))"

definition push_entry :: "'w ring_ops \<Rightarrow> sqe \<Rightarrow> ('w ring_state, unit) um" where
  "push_entry ops e =
     um_bind (try_push ops e) (\<lambda>ok.
       if ok then um_return ()
       else um_bind (lift_world (ur_wait ops 1)) (\<lambda>_.
              um_bind (try_push ops e) (\<lambda>ok.
                if ok then um_return () else um_raise (Other ''SQ queue full''))))"

definition flush_thread_ring :: "'w ring_ops \<Rightarrow> ('w engine, nat) um" where
  "flush_thread_ring ops = with_thread_ring_state ops (lift_world (\<lambda>w. Some (ur_submit ops w)))"

text \<open>Take the result of a request; a negative one is an error.\<close>

definition poll_result :: "'w ring_ops \<Rightarrow> id \<Rightarrow> ('w engine, int) um" where
  "poll_result ops my_id =
     um_bind (with_thread_ring_state ops (poll_completion_for_id ops my_id)) (\<lambda>ret.
       if ret < 0 then um_raise (Errno (- ret)) else um_return ret)"

text \<open>Push one request, then take its result: what the four single operations share.\<close>

definition submit_one :: "'w ring_ops \<Rightarrow> int \<Rightarrow> ring_op \<Rightarrow> ('w engine, id \<times> int) um" where
  "submit_one ops fd op =
     um_bind (fetch_add 1) (\<lambda>my_id.
     um_bind (with_thread_ring_state ops (push_entry ops \<lparr>sq_fd = fd, sq_op = op, sq_id = my_id\<rparr>)) (\<lambda>_.
     um_bind (poll_result ops my_id) (\<lambda>ret. um_return (my_id, ret))))"

text \<open>The zeroed buffer of a read, as the kernel has filled it, cut to the result.\<close>

definition read_buffer :: "'w ring_ops \<Rightarrow> nat \<Rightarrow> id \<times> int \<Rightarrow> ('w engine, bytes) um" where
  "read_buffer ops sz = (\<lambda>(my_id, ret) e.
     Some (Inr (take (nat ret) (overwrite 0 0 (ur_buffer ops my_id (world e)) (replicate sz 0))), e))"

definition submit_uring_read ::
  "'w ring_ops \<Rightarrow> int \<Rightarrow> 64 word \<Rightarrow> nat \<Rightarrow> ('w engine, bytes) um" where
  "submit_uring_read ops fd offset sz =
     um_bind (submit_one ops fd (ReadOp offset (word_of_nat sz))) (read_buffer ops sz)"

definition submit_uring_write :: "'w ring_ops \<Rightarrow> int \<Rightarrow> bytes \<Rightarrow> ('w engine, nat) um" where
  "submit_uring_write ops fd b =
     um_bind (submit_one ops fd (WriteOp (- 1) b (word_of_nat (length b))))
       (\<lambda>(_, ret). um_return (nat ret))"

definition submit_uring_splice ::
  "'w ring_ops \<Rightarrow> int \<Rightarrow> int \<Rightarrow> nat \<Rightarrow> ('w engine, nat) um" where
  "submit_uring_splice ops fd_in fd_out sz =
     um_bind (submit_one ops fd_in (SpliceOp fd_out (word_of_nat sz)))
       (\<lambda>(_, ret). um_return (nat ret))"

text \<open>Batches: consecutive numbers, all requests pushed, one wait for all of them, then one result after the other.\<close>

definition task_ids :: "id \<Rightarrow> nat \<Rightarrow> id list" where
  "task_ids start_id n = map (\<lambda>i. start_id + word_of_nat i) [0..<n]"

definition push_batch :: "'w ring_ops \<Rightarrow> int \<Rightarrow> (id \<times> ring_op) list \<Rightarrow> ('w ring_state, unit) um" where
  "push_batch ops fd tasks =
     um_bind (um_map (\<lambda>(my_id, op). push_entry ops \<lparr>sq_fd = fd, sq_op = op, sq_id = my_id\<rparr>) tasks) (\<lambda>_.
     um_bind (lift_world (ur_wait ops (length tasks))) (\<lambda>_. um_return ()))"

definition submit_uring_read_batch ::
  "'w ring_ops \<Rightarrow> int \<Rightarrow> (64 word \<times> nat) list \<Rightarrow> ('w engine, bytes list) um" where
  "submit_uring_read_batch ops fd read_specs =
     (if read_specs = [] then um_return []
      else um_bind (fetch_add (length read_specs)) (\<lambda>start_id.
        let ids = task_ids start_id (length read_specs) in
        um_bind (with_thread_ring_state ops (push_batch ops fd
                   (zip ids (map (\<lambda>(off, sz). ReadOp off (word_of_nat sz)) read_specs)))) (\<lambda>_.
          um_map (\<lambda>(my_id, (_, sz)).
              um_bind (poll_result ops my_id) (\<lambda>ret. read_buffer ops sz (my_id, ret)))
            (zip ids read_specs))))"

definition submit_uring_write_batch ::
  "'w ring_ops \<Rightarrow> int \<Rightarrow> bytes list \<Rightarrow> ('w engine, nat list) um" where
  "submit_uring_write_batch ops fd chunks =
     (if chunks = [] then um_return []
      else um_bind (fetch_add (length chunks)) (\<lambda>start_id.
        let ids = task_ids start_id (length chunks) in
        um_bind (with_thread_ring_state ops (push_batch ops fd
                   (zip ids (map (\<lambda>b. WriteOp (- 1) b (word_of_nat (length b))) chunks)))) (\<lambda>_.
          um_map (\<lambda>my_id. um_bind (poll_result ops my_id) (\<lambda>ret. um_return (nat ret))) ids)))"

section \<open>The contract of the ring\<close>

text \<open>
  \<open>allowed\<close>: the requests the laws are claimed for; \<open>outst\<close>: the requests pushed and not yet taken from the completion queue; \<open>answered\<close>: the
  result and, for reads, the data of the requests that the kernel has completed; \<open>queued\<close>: how
  many requests the kernel has not been given yet.  The laws say that completions are of
  requests, each once, with the kernel's answer; that a full queue has requests in it; that a
  wait for no more completions than there are requests comes to an end; and that a wait without
  error hands over queued requests or finds a completion.
\<close>

lemma map_leD: "m \<subseteq>\<^sub>m m' \<Longrightarrow> m i = Some x \<Longrightarrow> m' i = Some x"
  by (metis domI map_le_def)

lemma insert_all_distinct:
  "distinct (map fst cs) \<Longrightarrow> insert_all cs c = c ++ map_of cs"
proof (induction cs arbitrary: c)
  case Nil
  then show ?case by (simp add: insert_all_def)
next
  case (Cons x cs)
  then have "insert_all (x # cs) c = c(fst x \<mapsto> snd x) ++ map_of cs"
    by (simp add: insert_all_def split_def)
  moreover have "map_of cs (fst x) = None"
    using Cons.prems by (simp add: map_of_eq_None_iff)
  ultimately show ?case
    by (auto simp: fun_eq_iff map_add_def split: option.splits)
qed

lemma length_task_ids [simp]: "length (task_ids start_id n) = n"
  by (simp add: task_ids_def)

lemma unat_word_of_nat64: "n < 2 ^ 64 \<Longrightarrow> unat (word_of_nat n :: id) = n"
  by (simp add: unat_of_nat take_bit_nat_eq_self)

lemma distinct_task_ids:
  assumes "n \<le> 2 ^ 64"
  shows "distinct (task_ids start_id n)"
proof -
  have "inj_on (\<lambda>i. start_id + word_of_nat i) {0..<n}"
  proof (rule inj_onI)
    fix i j assume ij: "i \<in> {0..<n}" "j \<in> {0..<n}"
      and eq: "start_id + word_of_nat i = start_id + word_of_nat j"
    from ij assms have "i < 2 ^ 64" "j < 2 ^ 64" by auto
    moreover from eq have "unat (word_of_nat i :: id) = unat (word_of_nat j :: id)" by (simp only: add_left_cancel)
    ultimately show "i = j" by (simp add: unat_word_of_nat64)
  qed
  then show ?thesis by (simp add: task_ids_def distinct_map)
qed

locale uring =
  fixes ops :: "'w ring_ops"
    and outst :: "'w \<Rightarrow> id set"
    and answered :: "'w \<Rightarrow> (id \<rightharpoonup> int \<times> bytes)"
    and queued :: "'w \<Rightarrow> nat"
    and wf :: "'w \<Rightarrow> bool"
    and allowed :: "sqe \<Rightarrow> bool"
  assumes finite_outst: "wf w \<Longrightarrow> finite (outst w)"
    and new_law: "wf w \<Longrightarrow> ur_new ops n w = (rn, w') \<Longrightarrow>
        wf w' \<and> outst w' = outst w \<and> answered w \<subseteq>\<^sub>m answered w'"
    and push_law: "wf w \<Longrightarrow> allowed e \<Longrightarrow> sq_id e \<notin> outst w \<Longrightarrow> ur_push ops e w = Some w' \<Longrightarrow>
        wf w' \<and> outst w' = insert (sq_id e) (outst w) \<and>
        answered w' = (answered w)(sq_id e := None)"
    and push_full: "wf w \<Longrightarrow> ur_push ops e w = None \<Longrightarrow> outst w \<noteq> {}"
    and submit_law: "wf w \<Longrightarrow> ur_submit ops w = (rs, w') \<Longrightarrow>
        wf w' \<and> outst w' = outst w \<and> answered w \<subseteq>\<^sub>m answered w' \<and> queued w' \<le> queued w"
    and wait_law: "wf w \<Longrightarrow> ur_wait ops n w = Some (rs, w') \<Longrightarrow>
        wf w' \<and> outst w' = outst w \<and> answered w \<subseteq>\<^sub>m answered w' \<and> queued w' \<le> queued w"
    and wait_progress: "wf w \<Longrightarrow> ur_wait ops 1 w = Some (Inr k, w') \<Longrightarrow> outst w \<noteq> {} \<Longrightarrow>
        queued w' < queued w \<or> fst (ur_completion ops w') \<noteq> []"
    and wait_returns: "wf w \<Longrightarrow> n \<le> card (outst w) \<Longrightarrow> ur_wait ops n w \<noteq> None"
    and completion_law: "wf w \<Longrightarrow> ur_completion ops w = (cs, w') \<Longrightarrow>
        wf w' \<and> distinct (map fst cs) \<and> fst ` set cs \<subseteq> outst w \<and>
        outst w' = outst w - fst ` set cs \<and> answered w' = answered w \<and> queued w' = queued w \<and>
        (\<forall>(i, r) \<in> set cs. \<exists>b. answered w i = Some (r, b))"
    and buffer_law: "wf w \<Longrightarrow> answered w i = Some (r, b) \<Longrightarrow> ur_buffer ops i w = b"
begin

text \<open>
  What a ring state keeps: a request is outstanding or in the table, never both, and the table
  holds the kernel's answers.
\<close>

definition rs_ok :: "'w ring_state \<Rightarrow> bool" where
  "rs_ok s = (wf (snd s) \<and> dom (fst s) \<inter> outst (snd s) = {} \<and>
     (\<forall>i r. fst s i = Some r \<longrightarrow> (\<exists>b. answered (snd s) i = Some (r, b))))"

text \<open>
  Where an error can come from, other than the kernel's answer: a wait that fails, a queue that is
  still full after a wait, and a ring that cannot be made.
\<close>

definition faulty :: "uerror \<Rightarrow> bool" where
  "faulty x =
     ((\<exists>n w w'. wf w \<and> ur_wait ops n w = Some (Inl x, w')) \<or>
      (\<exists>k e w w'. wf w \<and> ur_wait ops 1 w = Some (Inr k, w') \<and> ur_push ops e w' = None \<and>
         x = Other ''SQ queue full''))"

definition new_fails :: "'w engine \<Rightarrow> uerror \<Rightarrow> bool" where
  "new_fails e x = (thread_ring e = None \<and>
     (\<exists>w. ur_new ops (get_configured_ring_size (ring_size_var e)) (world e) = (Inl x, w)))"

definition refused :: "id \<Rightarrow> 'w \<Rightarrow> uerror \<Rightarrow> bool" where
  "refused my_id w x = (\<exists>v b. v < 0 \<and> x = Errno (- v) \<and> answered w my_id = Some (v, b))"

definition tracked :: "'w ring_state \<Rightarrow> id set" where
  "tracked s = outst (snd s) \<union> dom (fst s)"

lemma rs_okD:
  assumes "rs_ok s"
  shows "wf (snd s)" "finite (outst (snd s))"
  using assms finite_outst by (auto simp: rs_ok_def)

lemma rs_ok_keep:
  assumes "rs_ok (c, w)" and "wf w'" and "outst w' = outst w" and "answered w \<subseteq>\<^sub>m answered w'"
  shows "rs_ok (c, w')" "tracked (c, w') = tracked (c, w)"
proof -
  have "answered w' i = Some x" if "answered w i = Some x" for i x
    using assms(4) that by (auto dest: map_leD)
  with assms(1-3) show "rs_ok (c, w')" by (auto simp: rs_ok_def) blast+
  show "tracked (c, w') = tracked (c, w)" by (simp add: tracked_def assms(3))
qed

text \<open>Draining the completion queue moves requests into the table.\<close>

lemma drain_law:
  assumes "rs_ok s"
  shows "rs_ok (drain ops s)" "tracked (drain ops s) = tracked s"
    "answered (snd (drain ops s)) = answered (snd s)"
    "queued (snd (drain ops s)) = queued (snd s)"
    "outst (snd (drain ops s)) \<subseteq> outst (snd s)"
    "fst (ur_completion ops (snd s)) \<noteq> [] \<Longrightarrow>
       card (outst (snd (drain ops s))) < card (outst (snd s))"
proof -
  obtain c w cs w' where s: "s = (c, w)" and cs: "ur_completion ops w = (cs, w')"
    by (metis surj_pair)
  from assms have ok: "wf w" "dom c \<inter> outst w = {}"
    "\<And>i r. c i = Some r \<Longrightarrow> \<exists>b. answered w i = Some (r, b)"
    by (auto simp: s rs_ok_def)
  note law = completion_law [OF ok(1) cs]
  from law have d: "drain ops (c, w) = (c ++ map_of cs, w')"
    by (simp add: drain_def cs insert_all_distinct)
  have dom: "dom (map_of cs) = fst ` set cs" by (rule dom_map_of_conv_image_fst)
  show "answered (snd (drain ops s)) = answered (snd s)"
    "queued (snd (drain ops s)) = queued (snd s)"
    "outst (snd (drain ops s)) \<subseteq> outst (snd s)"
    using law by (auto simp: d s)
  show "tracked (drain ops s) = tracked s"
    using law by (auto simp: tracked_def d s dom)
  have "\<exists>b. answered w i = Some (r, b)" if "(c ++ map_of cs) i = Some r" for i r
    using that law ok(3) by (auto simp: map_add_Some_iff dest!: map_of_SomeD)
  moreover have "dom (c ++ map_of cs) \<inter> outst w' = {}" using law ok(2) by (auto simp: dom)
  ultimately show "rs_ok (drain ops s)"
    using law by (simp add: rs_ok_def d s)
  show "card (outst (snd (drain ops s))) < card (outst (snd s))"
    if "fst (ur_completion ops (snd s)) \<noteq> []"
  proof -
    from that law have "outst w' \<subset> outst w" by (cases cs) (auto simp: s cs)
    then show ?thesis using finite_outst [OF ok(1)] by (simp add: d s psubset_card_mono)
  qed
qed

text \<open>Taking a result out of the table.\<close>

definition poll_post :: "id \<Rightarrow> 'w ring_state \<Rightarrow> uerror + int \<Rightarrow> 'w ring_state \<Rightarrow> bool" where
  "poll_post my_id s r s' =
     (rs_ok s' \<and> answered (snd s) \<subseteq>\<^sub>m answered (snd s') \<and>
      (case r of
         Inl x \<Rightarrow> tracked s' = tracked s \<and> my_id \<in> outst (snd s') \<and> faulty x
       | Inr v \<Rightarrow> tracked s' = tracked s - {my_id} \<and> (\<exists>b. answered (snd s') my_id = Some (v, b))))"

lemma claim_post:
  assumes "rs_ok s" and "fst s my_id = Some res"
  shows "poll_post my_id s (Inr res) ((fst s)(my_id := None), snd s)"
proof -
  from assms have "my_id \<notin> outst (snd s)" by (auto simp: rs_ok_def)
  with assms show ?thesis by (auto simp: poll_post_def rs_ok_def tracked_def)
qed

lemma poll_post_trans:
  assumes "poll_post my_id s2 r s'" and "tracked s2 = tracked s"
    and "answered (snd s) \<subseteq>\<^sub>m answered (snd s2)"
  shows "poll_post my_id s r s'"
  using assms by (auto simp: poll_post_def intro: map_le_trans split: sum.splits)

lemma submit_step:
  assumes "rs_ok s"
  shows "rs_ok (fst s, snd (ur_submit ops (snd s)))"
    "tracked (fst s, snd (ur_submit ops (snd s))) = tracked s"
    "answered (snd s) \<subseteq>\<^sub>m answered (snd (ur_submit ops (snd s)))"
    "queued (snd (ur_submit ops (snd s))) \<le> queued (snd s)"
    "outst (snd (ur_submit ops (snd s))) = outst (snd s)"
proof -
  obtain r w' where w: "ur_submit ops (snd s) = (r, w')" by (metis surj_pair)
  note law = submit_law [OF rs_okD(1) [OF assms] w]
  with assms show "rs_ok (fst s, snd (ur_submit ops (snd s)))"
    "tracked (fst s, snd (ur_submit ops (snd s))) = tracked s"
    using rs_ok_keep [of "fst s" "snd s" w'] by (simp_all add: w)
  from law show "answered (snd s) \<subseteq>\<^sub>m answered (snd (ur_submit ops (snd s)))"
    "queued (snd (ur_submit ops (snd s))) \<le> queued (snd s)"
    "outst (snd (ur_submit ops (snd s))) = outst (snd s)"
    by (simp_all add: w)
qed

text \<open>The part of the loop before the wait.\<close>

lemma poll_round:
  assumes "rs_ok s"
  defines "s1 \<equiv> drain ops s"
  defines "s2 \<equiv> drain ops (fst s1, snd (ur_submit ops (snd s1)))"
  shows "rs_ok s1" "tracked s1 = tracked s" "answered (snd s) \<subseteq>\<^sub>m answered (snd s1)"
    "rs_ok s2" "tracked s2 = tracked s" "answered (snd s) \<subseteq>\<^sub>m answered (snd s2)"
    "queued (snd s2) \<le> queued (snd s)" "card (outst (snd s2)) \<le> card (outst (snd s1))"
proof -
  note d1 = drain_law [OF assms(1), folded s1_def]
  note sb = submit_step [OF d1(1)]
  note d2 = drain_law [OF sb(1), folded s2_def]
  show "rs_ok s1" "tracked s1 = tracked s" "answered (snd s) \<subseteq>\<^sub>m answered (snd s1)"
    using d1 by simp_all
  show "rs_ok s2" "tracked s2 = tracked s" "answered (snd s) \<subseteq>\<^sub>m answered (snd s2)"
    "queued (snd s2) \<le> queued (snd s)"
    using d1 sb d2 by simp_all
  show "card (outst (snd s2)) \<le> card (outst (snd s1))"
    using d2(5) sb(5) rs_okD(2) [OF d1(1)] by (simp add: card_mono)
qed

definition poll_measure :: "'w \<Rightarrow> nat" where
  "poll_measure w = card (outst w) + queued w + (if fst (ur_completion ops w) = [] then 1 else 0)"

lemma poll_decreases:
  assumes "rs_ok s" and "outst (snd s2) \<noteq> {}"
    and "s1 = drain ops s" and "s2 = drain ops (fst s1, snd (ur_submit ops (snd s1)))"
    and "ur_wait ops 1 (snd s2) = Some (Inr k, w')"
  shows "poll_measure w' < poll_measure (snd s)"
proof -
  note round = poll_round [OF assms(1), folded assms(3), folded assms(4)]
  note d1 = drain_law [OF assms(1), folded assms(3)]
  have wf2: "wf (snd s2)" using round(4) by (rule rs_okD)
  note law = wait_law [OF wf2 assms(5)]
  have "card (outst (snd s1)) \<le> card (outst (snd s))"
    using d1(5) rs_okD(2) [OF assms(1)] by (simp add: card_mono)
  moreover have "card (outst w') \<le> card (outst (snd s1))" using law round(8) by simp
  moreover have "queued w' \<le> queued (snd s)" using law round(7) by simp
  moreover have "queued w' < queued (snd s) \<or> fst (ur_completion ops w') \<noteq> []"
    using wait_progress [OF wf2 assms(5,2)] round(7) by auto
  ultimately show ?thesis
    using d1(6) by (cases "fst (ur_completion ops (snd s)) = []") (auto simp: poll_measure_def)
qed

text \<open>The two ways through the body of the loop: the result is found, or there is a wait.\<close>

lemma poll_found:
  assumes "rs_ok s" and "s1 = drain ops s" and "s2 = drain ops (fst s1, snd (ur_submit ops (snd s1)))"
    and found: "fst s my_id \<noteq> None \<or> fst s1 my_id \<noteq> None \<or> fst s2 my_id \<noteq> None"
  shows "\<exists>r s'. poll_completion_for_id ops my_id s = Some (r, s') \<and> poll_post my_id s r s'"
proof -
  note round = poll_round [OF assms(1), folded assms(2), folded assms(3)]
  note eq = poll_completion_for_id.simps [of ops my_id s, unfolded Let_def, folded assms(2), folded assms(3)]
  note post = claim_post [OF assms(1)] poll_post_trans [OF claim_post [OF round(1)] round(2,3)]
    poll_post_trans [OF claim_post [OF round(4)] round(5,6)]
  from found post eq show ?thesis
    by (cases "fst s my_id"; cases "fst s1 my_id"; cases "fst s2 my_id") auto
qed

lemma poll_waits:
  assumes "s1 = drain ops s" and "s2 = drain ops (fst s1, snd (ur_submit ops (snd s1)))"
    and "fst s my_id = None" "fst s1 my_id = None" "fst s2 my_id = None"
    and "ur_wait ops 1 (snd s2) = Some (r, w')"
  shows "poll_completion_for_id ops my_id s =
           (case r of Inl x \<Rightarrow> Some (Inl x, (fst s2, w'))
                    | Inr _ \<Rightarrow> poll_completion_for_id ops my_id (fst s2, w'))"
  by (subst poll_completion_for_id.simps)
    (simp only: Let_def assms(1) [symmetric] assms(2) [symmetric] assms(3-6) option.case prod.case)

text \<open>
  The loop ends for every request that is on its way or already in the table, with the kernel's
  answer to this request, and all other requests stay tracked; only a wait can fail, and then the
  request is still on its way.
\<close>

lemma poll_returns:
  assumes "rs_ok s" and "my_id \<in> tracked s"
  shows "\<exists>r s'. poll_completion_for_id ops my_id s = Some (r, s') \<and> poll_post my_id s r s'"
  using assms
proof (induction "poll_measure (snd s)" arbitrary: s rule: less_induct)
  case less
  define s1 where "s1 = drain ops s"
  define s2 where "s2 = drain ops (fst s1, snd (ur_submit ops (snd s1)))"
  note round = poll_round [OF less.prems(1), folded s1_def, folded s2_def]
  show ?case
  proof (cases "fst s my_id = None \<and> fst s1 my_id = None \<and> fst s2 my_id = None")
    case False
    then show ?thesis using poll_found [OF less.prems(1) s1_def s2_def] by blast
  next
    case True
    with less.prems(2) round(5) have my: "my_id \<in> outst (snd s2)" by (auto simp: tracked_def)
    have wf2: "wf (snd s2)" using round(4) by (rule rs_okD)
    have "1 \<le> card (outst (snd s2))"
      using my rs_okD(2) [OF round(4)] by (auto simp: Suc_le_eq card_gt_0_iff)
    with wait_returns [OF wf2] obtain r w' where w: "ur_wait ops 1 (snd s2) = Some (r, w')"
      by fastforce
    note law = wait_law [OF wf2 w]
    have keep: "rs_ok (fst s2, w')" "tracked (fst s2, w') = tracked s"
      "answered (snd s) \<subseteq>\<^sub>m answered w'"
      using rs_ok_keep [of "fst s2" "snd s2" w'] round(4-6) law by (auto intro: map_le_trans)
    note step = poll_waits [OF s1_def s2_def True [THEN conjunct1]
        True [THEN conjunct2, THEN conjunct1] True [THEN conjunct2, THEN conjunct2] w]
    show ?thesis
    proof (cases r)
      case (Inl x)
      with w wf2 have "faulty x" unfolding faulty_def by blast
      with Inl keep my law show ?thesis by (auto simp: step poll_post_def)
    next
      case (Inr k)
      have "poll_measure w' < poll_measure (snd s)"
        using poll_decreases [OF less.prems(1) _ s1_def s2_def] w my Inr by auto
      with less.hyps [of "(fst s2, w')"] keep less.prems(2) obtain r' s' where
        "poll_completion_for_id ops my_id (fst s2, w') = Some (r', s')"
        "poll_post my_id (fst s2, w') r' s'"
        by auto
      with poll_post_trans [of my_id "(fst s2, w')" r' s' s] keep Inr show ?thesis
        by (auto simp: step)
    qed
  qed
qed

text \<open>Pushing a request that is not tracked yet.\<close>

definition push_post :: "id set \<Rightarrow> 'w ring_state \<Rightarrow> uerror + 'x \<Rightarrow> 'w ring_state \<Rightarrow> bool" where
  "push_post ids s r s' =
     (rs_ok s' \<and> fst s' = fst s \<and> tracked s \<subseteq> tracked s' \<and> tracked s' \<subseteq> ids \<union> tracked s \<and>
      (\<forall>x. r = Inr x \<longrightarrow> tracked s' = ids \<union> tracked s) \<and> (\<forall>x. r = Inl x \<longrightarrow> faulty x))"

lemma try_push_law:
  assumes "rs_ok s" and "sq_id e \<notin> tracked s" and "allowed e"
  shows "(\<exists>s'. try_push ops e s = Some (Inr True, s') \<and> push_post {sq_id e} s (Inr ()) s') \<or>
         try_push ops e s = Some (Inr False, s) \<and> outst (snd s) \<noteq> {}"
proof -
  obtain c w where s: "s = (c, w)" by (cases s)
  from assms have ok: "wf w" "dom c \<inter> outst w = {}" "sq_id e \<notin> outst w" "sq_id e \<notin> dom c"
    "\<And>i r. c i = Some r \<Longrightarrow> \<exists>b. answered w i = Some (r, b)"
    by (auto simp: s rs_ok_def tracked_def)
  show ?thesis
  proof (cases "ur_push ops e w")
    case None
    with push_full [OF ok(1)] show ?thesis by (simp add: s try_push_def)
  next
    case (Some w')
    note law = push_law [OF ok(1) assms(3) ok(3) Some]
    have "\<exists>b. answered w' i = Some (r, b)" if "c i = Some r" for i r
      using that ok(4,5) law by (cases "i = sq_id e") auto
    with law ok have "push_post {sq_id e} s (Inr ()) (c, w')"
      by (auto simp: push_post_def rs_ok_def tracked_def s)
    with Some show ?thesis by (simp add: s try_push_def)
  qed
qed

lemma push_entry_returns:
  assumes "rs_ok s" and "sq_id e \<notin> tracked s" and "allowed e"
  shows "\<exists>r s'. push_entry ops e s = Some (r, s') \<and> push_post {sq_id e} s r s'"
proof (cases "\<exists>s'. try_push ops e s = Some (Inr True, s') \<and> push_post {sq_id e} s (Inr ()) s'")
  case True
  then show ?thesis by (auto simp: push_entry_def)
next
  case False
  with try_push_law [OF assms] have full: "try_push ops e s = Some (Inr False, s)"
    and "outst (snd s) \<noteq> {}" by auto
  then have "1 \<le> card (outst (snd s))"
    using rs_okD(2) [OF assms(1)] by (auto simp: Suc_le_eq card_gt_0_iff)
  with wait_returns [OF rs_okD(1) [OF assms(1)]] obtain r w' where
    w: "ur_wait ops 1 (snd s) = Some (r, w')" by fastforce
  note law = wait_law [OF rs_okD(1) [OF assms(1)] w]
  have keep: "rs_ok (fst s, w')" "tracked (fst s, w') = tracked s"
    using rs_ok_keep [of "fst s" "snd s" w'] assms(1) law by simp_all
  have lifted: "lift_world (ur_wait ops 1) s = Some (r, (fst s, w'))"
    using w by (simp add: lift_world_def split_def)
  have step: "push_entry ops e s = (case r of
      Inl x \<Rightarrow> Some (Inl x, (fst s, w'))
    | Inr _ \<Rightarrow> um_bind (try_push ops e)
        (\<lambda>ok. if ok then um_return () else um_raise (Other ''SQ queue full'')) (fst s, w'))"
    using full lifted
    by (simp add: push_entry_def um_bind_def [of "try_push ops e"] um_bind_def [of "lift_world m" for m]
        split: sum.split del: One_nat_def)
  show ?thesis
  proof (cases r)
    case (Inl x)
    with w rs_okD(1) [OF assms(1)] have "faulty x" unfolding faulty_def by blast
    with Inl step keep show ?thesis by (simp add: push_post_def subset_insertI)
  next
    case (Inr k)
    have "faulty (Other ''SQ queue full'')" if "try_push ops e (fst s, w') = Some (Inr False, q)" for q
    proof -
      from that have "ur_push ops e w' = None" by (simp add: try_push_def split: option.splits)
      with w Inr rs_okD(1) [OF assms(1)] show ?thesis unfolding faulty_def by blast
    qed
    with try_push_law [OF keep(1), of e] assms(2,3) keep(2) step Inr keep show ?thesis
      by (auto simp: push_post_def)
  qed
qed

lemma push_many_returns:
  assumes "rs_ok s" and "distinct (map fst tasks)" and "fst ` set tasks \<inter> tracked s = {}"
    and "\<forall>(my_id, op) \<in> set tasks. allowed \<lparr>sq_fd = fd, sq_op = op, sq_id = my_id\<rparr>"
  shows "\<exists>r s'. um_map (\<lambda>(my_id, op). push_entry ops \<lparr>sq_fd = fd, sq_op = op, sq_id = my_id\<rparr>) tasks s
             = Some (r, s') \<and> push_post (fst ` set tasks) s r s'"
  using assms
proof (induction tasks arbitrary: s)
  case Nil
  then show ?case by (simp add: push_post_def)
next
  case (Cons t tasks)
  let ?e = "\<lparr>sq_fd = fd, sq_op = snd t, sq_id = fst t\<rparr>"
  from push_entry_returns [of s ?e] Cons.prems obtain r s1 where
    one: "push_entry ops ?e s = Some (r, s1)" "push_post {fst t} s r s1" by auto
  show ?case
  proof (cases r)
    case (Inl x)
    with one show ?thesis by (auto simp: split_def push_post_def)
  next
    case (Inr u)
    with one(2) have s1: "rs_ok s1" "tracked s1 = insert (fst t) (tracked s)" "fst s1 = fst s"
      by (auto simp: push_post_def)
    with Cons.prems have "fst ` set tasks \<inter> tracked s1 = {}" by auto
    with Cons.IH [OF s1(1)] Cons.prems obtain r' s' where
      more: "um_map (\<lambda>(my_id, op). push_entry ops \<lparr>sq_fd = fd, sq_op = op, sq_id = my_id\<rparr>) tasks s1
        = Some (r', s')" "push_post (fst ` set tasks) s1 r' s'" by auto
    with one(1) Inr s1 show ?thesis
      by (cases r') (auto simp: split_def push_post_def)
  qed
qed

lemma push_batch_returns:
  assumes "rs_ok s" and "distinct (map fst tasks)" and "fst ` set tasks \<inter> tracked s = {}"
    and "\<forall>(my_id, op) \<in> set tasks. allowed \<lparr>sq_fd = fd, sq_op = op, sq_id = my_id\<rparr>"
  shows "\<exists>r s'. push_batch ops fd tasks s = Some (r, s') \<and> push_post (fst ` set tasks) s r s'"
proof -
  from push_many_returns [OF assms] obtain r s1 where
    one: "um_map (\<lambda>(my_id, op). push_entry ops \<lparr>sq_fd = fd, sq_op = op, sq_id = my_id\<rparr>) tasks s
      = Some (r, s1)" "push_post (fst ` set tasks) s r s1" by blast
  show ?thesis
  proof (cases r)
    case (Inl x)
    with one show ?thesis by (auto simp: push_batch_def push_post_def)
  next
    case (Inr u)
    with one(2) have s1: "rs_ok s1" "tracked s1 = fst ` set tasks \<union> tracked s" "fst s1 = fst s"
      by (auto simp: push_post_def)
    have "fst ` set tasks \<subseteq> outst (snd s1)" using s1 assms(3) by (auto simp: tracked_def)
    then have "card (fst ` set tasks) \<le> card (outst (snd s1))"
      using rs_okD(2) [OF s1(1)] by (rule card_mono [rotated])
    moreover have "card (fst ` set tasks) = length tasks"
      using assms(2) by (metis distinct_card length_map list.set_map)
    ultimately obtain q w' where w: "ur_wait ops (length tasks) (snd s1) = Some (q, w')"
      using wait_returns [OF rs_okD(1) [OF s1(1)]] by fastforce
    note law = wait_law [OF rs_okD(1) [OF s1(1)] w]
    have keep: "rs_ok (fst s1, w')" "tracked (fst s1, w') = tracked s1"
      using rs_ok_keep [of "fst s1" "snd s1" w'] s1(1) law by simp_all
    have "lift_world (ur_wait ops (length tasks)) s1 = Some (q, (fst s1, w'))"
      using w by (simp add: lift_world_def split_def)
    moreover have "faulty x" if "q = Inl x" for x
      using that w rs_okD(1) [OF s1(1)] unfolding faulty_def by blast
    ultimately show ?thesis
      using one(1) Inr keep s1 by (cases q) (auto simp: push_batch_def push_post_def)
  qed
qed

text \<open>The state of the thread as a ring state; before the first use the table is empty.\<close>

definition ring_of :: "'w engine \<Rightarrow> 'w ring_state" where
  "ring_of e = (case thread_ring e of Some c \<Rightarrow> c | None \<Rightarrow> Map.empty, world e)"

definition eng_ok :: "'w engine \<Rightarrow> bool" where
  "eng_ok e = rs_ok (ring_of e)"

lemma with_ring_Some:
  "thread_ring e = Some c \<Longrightarrow> f (c, world e) = Some (r, s') \<Longrightarrow>
   with_thread_ring_state ops f e = Some (r, e\<lparr>thread_ring := Some (fst s'), world := snd s'\<rparr>)"
  by (simp add: with_thread_ring_state_def split_def)

text \<open>The first use makes the ring, or fails and changes nothing else.\<close>

lemma with_ring_returns:
  assumes ok: "eng_ok e"
    and f: "\<And>s. rs_ok s \<Longrightarrow> fst s = fst (ring_of e) \<Longrightarrow> tracked s = tracked (ring_of e) \<Longrightarrow>
              \<exists>r s'. f s = Some (r, s') \<and> Q r s' \<and> rs_ok s'"
  shows "\<exists>r e'. with_thread_ring_state ops f e = Some (r, e') \<and> eng_ok e' \<and>
           next_user_data e' = next_user_data e \<and>
           (Q r (ring_of e') \<and> thread_ring e' \<noteq> None \<or> (\<exists>x. r = Inl x \<and> new_fails e x))"
proof (cases "thread_ring e")
  case (Some c)
  with f [of "ring_of e"] ok obtain r s' where
    "f (c, world e) = Some (r, s')" "Q r s'" "rs_ok s'"
    by (auto simp: eng_ok_def ring_of_def)
  with with_ring_Some [OF Some, of f r s'] show ?thesis
    by (simp add: eng_ok_def ring_of_def)
next
  case None
  let ?n = "get_configured_ring_size (ring_size_var e)"
  obtain q w where new: "ur_new ops ?n (world e) = (q, w)" by (metis surj_pair)
  from ok None have e: "rs_ok (Map.empty, world e)" "ring_of e = (Map.empty, world e)"
    by (simp_all add: eng_ok_def ring_of_def)
  then have wf: "wf (world e)" by (auto dest: rs_okD)
  note keep = rs_ok_keep [OF e(1), of w] new_law [OF wf new]
  show ?thesis
  proof (cases q)
    case (Inl x)
    with None new keep show ?thesis
      by (simp add: with_thread_ring_state_def eng_ok_def ring_of_def new_fails_def)
  next
    case (Inr u)
    from f [of "(Map.empty, w)"] keep e obtain r s' where
      "f (Map.empty, w) = Some (r, s')" "Q r s'" "rs_ok s'"
      by auto
    with None new Inr show ?thesis
      by (simp add: with_thread_ring_state_def eng_ok_def ring_of_def split_def)
  qed
qed

text \<open>The result of one request.\<close>

definition result_post :: "id \<Rightarrow> 'w engine \<Rightarrow> uerror + int \<Rightarrow> 'w engine \<Rightarrow> bool" where
  "result_post my_id e r e' =
     (eng_ok e' \<and> thread_ring e' \<noteq> None \<and> answered (world e) \<subseteq>\<^sub>m answered (world e') \<and>
      (\<forall>v. r = Inr v \<longrightarrow> 0 \<le> v \<and> tracked (ring_of e') = tracked (ring_of e) - {my_id} \<and>
         (\<exists>b. answered (world e') my_id = Some (v, b))) \<and>
      (\<forall>x. r = Inl x \<longrightarrow> faulty x \<or> refused my_id (world e') x))"

lemma poll_result_returns:
  assumes "eng_ok e" and "thread_ring e \<noteq> None" and "my_id \<in> tracked (ring_of e)"
  shows "\<exists>r e'. poll_result ops my_id e = Some (r, e') \<and> result_post my_id e r e'"
proof -
  from assms(2) obtain c where c: "thread_ring e = Some c" by auto
  with assms(1,3) poll_returns [of "(c, world e)" my_id] obtain r s' where
    p: "poll_completion_for_id ops my_id (c, world e) = Some (r, s')"
    "poll_post my_id (c, world e) r s'"
    by (auto simp: eng_ok_def ring_of_def)
  note run = with_ring_Some [where f = "poll_completion_for_id ops my_id", OF c p(1)]
  show ?thesis
  proof (cases r)
    case (Inl x)
    with run p(2) show ?thesis
      by (auto simp: poll_result_def result_post_def poll_post_def eng_ok_def ring_of_def)
  next
    case (Inr v)
    with run p(2) c show ?thesis
      by (auto simp: poll_result_def result_post_def poll_post_def eng_ok_def ring_of_def
          um_bind_def refused_def)
  qed
qed

text \<open>A single operation returns, with the kernel's answer to its own request.\<close>

lemma submit_one_returns:
  assumes "eng_ok e" and fresh: "next_user_data e \<notin> tracked (ring_of e)"
    and "allowed \<lparr>sq_fd = fd, sq_op = op, sq_id = next_user_data e\<rparr>"
  shows "\<exists>r e'. submit_one ops fd op e = Some (r, e') \<and> eng_ok e' \<and>
           (\<forall>my_id v. r = Inr (my_id, v) \<longrightarrow> my_id = next_user_data e \<and> 0 \<le> v \<and>
              (\<exists>b. answered (world e') my_id = Some (v, b))) \<and>
           (\<forall>x. r = Inl x \<longrightarrow> faulty x \<or> new_fails e x \<or> refused (next_user_data e) (world e') x)"
proof -
  let ?id = "next_user_data e"
  define e1 where "e1 = e\<lparr>next_user_data := ?id + word_of_nat 1\<rparr>"
  have ring1: "ring_of e1 = ring_of e" "\<And>x. new_fails e1 x = new_fails e x"
    by (simp_all add: e1_def ring_of_def new_fails_def)
  have fetch: "fetch_add 1 e = Some (Inr ?id, e1)" by (simp add: fetch_add_def e1_def)
  let ?push = "push_entry ops \<lparr>sq_fd = fd, sq_op = op, sq_id = ?id\<rparr>"
  have "\<exists>r s'. ?push s = Some (r, s') \<and> ((\<forall>x. r = Inr x \<longrightarrow> ?id \<in> tracked s') \<and>
      (\<forall>x. r = Inl x \<longrightarrow> faulty x)) \<and> rs_ok s'"
    if "rs_ok s" "tracked s = tracked (ring_of e1)" for s
    using push_entry_returns [OF that(1), of "\<lparr>sq_fd = fd, sq_op = op, sq_id = ?id\<rparr>"] that(2) fresh assms(3)
    by (auto simp: ring1 push_post_def)
  with with_ring_returns [of e1 ?push "\<lambda>r s'. (\<forall>x. r = Inr x \<longrightarrow> ?id \<in> tracked s') \<and> (\<forall>x. r = Inl x \<longrightarrow> faulty x)"]
  obtain r e2 where push: "with_thread_ring_state ops ?push e1 = Some (r, e2)" "eng_ok e2"
    "((\<forall>x. r = Inr x \<longrightarrow> ?id \<in> tracked (ring_of e2)) \<and> (\<forall>x. r = Inl x \<longrightarrow> faulty x)) \<and>
       thread_ring e2 \<noteq> None \<or> (\<exists>x. r = Inl x \<and> new_fails e x)"
    using assms(1) by (auto simp: ring1 eng_ok_def)
  show ?thesis
  proof (cases r)
    case (Inl x)
    with fetch push show ?thesis by (auto simp: submit_one_def)
  next
    case (Inr u)
    with push(3) poll_result_returns [OF push(2), of ?id] obtain q e3 where
      poll: "poll_result ops ?id e2 = Some (q, e3)" "result_post ?id e2 q e3"
      by auto
    with fetch push Inr show ?thesis
      by (cases q) (auto simp: submit_one_def result_post_def)
  qed
qed

text \<open>Collecting the results of a batch.\<close>

lemma collect_returns:
  assumes "eng_ok e" and "thread_ring e \<noteq> None" and "distinct (map key ts)"
    and "key ` set ts \<subseteq> tracked (ring_of e)"
    and k: "\<And>t v e. k t v e = Some (Inr (h t v (ur_buffer ops (key t) (world e))), e)"
  shows "\<exists>r e'. um_map (\<lambda>t. um_bind (poll_result ops (key t)) (k t)) ts e = Some (r, e') \<and>
           eng_ok e' \<and> answered (world e) \<subseteq>\<^sub>m answered (world e') \<and>
           (\<forall>ys. r = Inr ys \<longrightarrow> list_all2 (\<lambda>t y. \<exists>v b. 0 \<le> v \<and>
              answered (world e') (key t) = Some (v, b) \<and> y = h t v b) ts ys) \<and>
           (\<forall>x. r = Inl x \<longrightarrow> faulty x \<or> (\<exists>t \<in> set ts. refused (key t) (world e') x))"
  using assms(1-4)
proof (induction ts arbitrary: e)
  case Nil
  then show ?case by simp
next
  case (Cons t ts)
  from poll_result_returns [OF Cons.prems(1,2), of "key t"] Cons.prems(4) obtain r e1 where
    one: "poll_result ops (key t) e = Some (r, e1)" "result_post (key t) e r e1" by auto
  show ?case
  proof (cases r)
    case (Inl x)
    with one show ?thesis by (auto simp: result_post_def)
  next
    case (Inr v)
    with one(2) obtain b where e1: "eng_ok e1" "thread_ring e1 \<noteq> None" "0 \<le> v"
      "answered (world e) \<subseteq>\<^sub>m answered (world e1)"
      "tracked (ring_of e1) = tracked (ring_of e) - {key t}" "answered (world e1) (key t) = Some (v, b)"
      by (auto simp: result_post_def)
    have "wf (world e1)" using e1(1) by (auto simp: eng_ok_def ring_of_def dest: rs_okD)
    with e1(6) have buf: "ur_buffer ops (key t) (world e1) = b" by (rule buffer_law [rotated])
    have "key ` set ts \<subseteq> tracked (ring_of e1)"
      using Cons.prems(3,4) e1(5) by (force simp: image_iff)
    with Cons.IH [OF e1(1,2)] Cons.prems(3) obtain q e2 where
      more: "um_map (\<lambda>t. um_bind (poll_result ops (key t)) (k t)) ts e1 = Some (q, e2)" "eng_ok e2"
      "answered (world e1) \<subseteq>\<^sub>m answered (world e2)"
      "\<forall>ys. q = Inr ys \<longrightarrow> list_all2 (\<lambda>t y. \<exists>v b. 0 \<le> v \<and>
          answered (world e2) (key t) = Some (v, b) \<and> y = h t v b) ts ys"
      "\<forall>x. q = Inl x \<longrightarrow> faulty x \<or> (\<exists>t \<in> set ts. refused (key t) (world e2) x)"
      by auto
    have ans: "answered (world e2) (key t) = Some (v, b)" using more(3) e1(6) by (rule map_leD)
    have "um_bind (poll_result ops (key t)) (k t) e = Some (Inr (h t v b), e1)"
      using one(1) Inr k [of t v e1] buf by simp
    with more e1(3,4) ans show ?thesis
      by (cases q) (auto intro: map_le_trans)
  qed
qed

lemma batch_returns:
  assumes "eng_ok e" and "n \<le> 2 ^ 64" and "length opl = n"
    and keys: "map key (ts (next_user_data e)) = task_ids (next_user_data e) n"
    and fresh: "set (task_ids (next_user_data e) n) \<inter> tracked (ring_of e) = {}"
    and allowed: "\<forall>(my_id, op) \<in> set (zip (task_ids (next_user_data e) n) opl).
        allowed \<lparr>sq_fd = fd, sq_op = op, sq_id = my_id\<rparr>"
    and k: "\<And>t v e. k t v e = Some (Inr (h t v (ur_buffer ops (key t) (world e))), e)"
  shows "\<exists>r e'. um_bind (fetch_add n) (\<lambda>start_id.
             um_bind (with_thread_ring_state ops (push_batch ops fd (zip (task_ids start_id n) opl))) (\<lambda>_.
               um_map (\<lambda>t. um_bind (poll_result ops (key t)) (k t)) (ts start_id))) e = Some (r, e') \<and>
           eng_ok e' \<and>
           (\<forall>ys. r = Inr ys \<longrightarrow> list_all2 (\<lambda>t y. \<exists>v b. 0 \<le> v \<and>
              answered (world e') (key t) = Some (v, b) \<and> y = h t v b) (ts (next_user_data e)) ys) \<and>
           (\<forall>x. r = Inl x \<longrightarrow> faulty x \<or> new_fails e x \<or>
              (\<exists>t \<in> set (ts (next_user_data e)). refused (key t) (world e') x))"
proof -
  let ?start = "next_user_data e"
  let ?ids = "task_ids ?start n"
  define e1 where "e1 = e\<lparr>next_user_data := ?start + word_of_nat n\<rparr>"
  have ring1: "ring_of e1 = ring_of e" "\<And>x. new_fails e1 x = new_fails e x"
    by (simp_all add: e1_def ring_of_def new_fails_def)
  have fetch: "fetch_add n e = Some (Inr ?start, e1)" by (simp add: fetch_add_def e1_def)
  let ?tasks = "zip ?ids opl"
  have fst_tasks: "map fst ?tasks = ?ids" using assms(3) by simp
  then have set_tasks: "fst ` set ?tasks = set ?ids" by (metis list.set_map)
  have "\<exists>r s'. push_batch ops fd ?tasks s = Some (r, s') \<and>
           ((\<forall>x. r = Inr x \<longrightarrow> set ?ids \<subseteq> tracked s') \<and> (\<forall>x. r = Inl x \<longrightarrow> faulty x)) \<and> rs_ok s'"
    if "rs_ok s" "tracked s = tracked (ring_of e1)" for s
    using push_batch_returns [OF that(1), of ?tasks fd] that(2) fresh allowed distinct_task_ids [OF assms(2)]
    unfolding fst_tasks set_tasks ring1 by (auto simp: push_post_def)
  with with_ring_returns [of e1 "push_batch ops fd ?tasks"
      "\<lambda>r s'. (\<forall>x. r = Inr x \<longrightarrow> set ?ids \<subseteq> tracked s') \<and> (\<forall>x. r = Inl x \<longrightarrow> faulty x)"]
  obtain r e2 where push: "with_thread_ring_state ops (push_batch ops fd ?tasks) e1 = Some (r, e2)"
    "eng_ok e2"
    "((\<forall>x. r = Inr x \<longrightarrow> set ?ids \<subseteq> tracked (ring_of e2)) \<and> (\<forall>x. r = Inl x \<longrightarrow> faulty x)) \<and>
       thread_ring e2 \<noteq> None \<or> (\<exists>x. r = Inl x \<and> new_fails e x)"
    using assms(1) by (auto simp: ring1 eng_ok_def)
  show ?thesis
  proof (cases r)
    case (Inl x)
    with fetch push show ?thesis by auto
  next
    case (Inr u)
    have keys': "key ` set (ts ?start) = set ?ids" using keys by (metis list.set_map)
    from Inr push(3) collect_returns [OF push(2), of key "ts ?start" k h, OF _ _ _ k]
    show ?thesis
      using fetch push(1) keys keys' distinct_task_ids [OF assms(2), of ?start] by auto
  qed
qed

text \<open>
  The operations of the engine always return; a read batch that succeeds has, at each position, the
  data of the request of that position.
\<close>

lemma submit_uring_read_returns:
  assumes "eng_ok e" and "next_user_data e \<notin> tracked (ring_of e)"
    and "allowed \<lparr>sq_fd = fd, sq_op = ReadOp off (word_of_nat sz), sq_id = next_user_data e\<rparr>"
  shows "\<exists>r e'. submit_uring_read ops fd off sz e = Some (r, e') \<and> eng_ok e' \<and>
           (\<forall>d. r = Inr d \<longrightarrow> (\<exists>v b. 0 \<le> v \<and> answered (world e') (next_user_data e) = Some (v, b) \<and>
              d = take (nat v) (overwrite 0 0 b (replicate sz 0)))) \<and>
           (\<forall>x. r = Inl x \<longrightarrow> faulty x \<or> new_fails e x \<or> refused (next_user_data e) (world e') x)"
proof -
  from submit_one_returns [OF assms] obtain r e' where
    one: "submit_one ops fd (ReadOp off (word_of_nat sz)) e = Some (r, e')" "eng_ok e'"
    "\<forall>my_id v. r = Inr (my_id, v) \<longrightarrow> my_id = next_user_data e \<and> 0 \<le> v \<and>
       (\<exists>b. answered (world e') my_id = Some (v, b))"
    "\<forall>x. r = Inl x \<longrightarrow> faulty x \<or> new_fails e x \<or> refused (next_user_data e) (world e') x" by blast
  show ?thesis
  proof (cases r)
    case (Inl x)
    with one show ?thesis by (simp add: submit_uring_read_def)
  next
    case (Inr p)
    with one(3) obtain v b where p: "p = (next_user_data e, v)" "0 \<le> v"
      "answered (world e') (next_user_data e) = Some (v, b)" by (cases p) auto
    have "wf (world e')" using one(2) by (auto simp: eng_ok_def ring_of_def dest: rs_okD)
    with p(3) have "ur_buffer ops (next_user_data e) (world e') = b" by (rule buffer_law [rotated])
    with one(1,2) p Inr show ?thesis
      by (auto simp: submit_uring_read_def read_buffer_def)
  qed
qed

lemma submit_uring_read_batch_returns:
  assumes "eng_ok e" and "length specs \<le> 2 ^ 64"
    and "set (task_ids (next_user_data e) (length specs)) \<inter> tracked (ring_of e) = {}"
    and "\<forall>(my_id, op) \<in> set (zip (task_ids (next_user_data e) (length specs))
            (map (\<lambda>(off, sz). ReadOp off (word_of_nat sz)) specs)).
          allowed \<lparr>sq_fd = fd, sq_op = op, sq_id = my_id\<rparr>"
  shows "\<exists>r e'. submit_uring_read_batch ops fd specs e = Some (r, e') \<and> eng_ok e' \<and>
           (\<forall>ds. r = Inr ds \<longrightarrow> list_all2 (\<lambda>(my_id, (off, sz)) d. \<exists>v b. 0 \<le> v \<and>
              answered (world e') my_id = Some (v, b) \<and>
              d = take (nat v) (overwrite 0 0 b (replicate sz 0)))
              (zip (task_ids (next_user_data e) (length specs)) specs) ds) \<and>
           (\<forall>x. r = Inl x \<longrightarrow> faulty x \<or> new_fails e x \<or>
              (\<exists>t \<in> set (zip (task_ids (next_user_data e) (length specs)) specs).
                 refused (fst t) (world e') x))"
proof (cases "specs = []")
  case True
  with assms(1) show ?thesis by (simp add: submit_uring_read_batch_def)
next
  case False
  have fn: "(\<lambda>(my_id, (_, sz)). um_bind (poll_result ops my_id) (\<lambda>ret. read_buffer ops sz (my_id, ret))) =
      (\<lambda>t :: id \<times> 64 word \<times> nat. um_bind (poll_result ops (fst t))
          (\<lambda>ret. read_buffer ops (snd (snd t)) (fst t, ret)))"
    by (simp add: fun_eq_iff split_def)
  from batch_returns [OF assms(1,2), where opl = "map (\<lambda>(off, sz). ReadOp off (word_of_nat sz)) specs"
      and key = fst and ts = "\<lambda>start. zip (task_ids start (length specs)) specs" and fd = fd
      and k = "\<lambda>t ret. read_buffer ops (snd (snd t)) (fst t, ret)"
      and h = "\<lambda>t v b. take (nat v) (overwrite 0 0 b (replicate (snd (snd t)) 0))"] assms(3,4)
  show ?thesis
    using False
    by (simp add: submit_uring_read_batch_def fn Let_def read_buffer_def split_def)
qed

lemma submit_uring_write_batch_returns:
  assumes "eng_ok e" and "length chunks \<le> 2 ^ 64"
    and "set (task_ids (next_user_data e) (length chunks)) \<inter> tracked (ring_of e) = {}"
    and "\<forall>(my_id, op) \<in> set (zip (task_ids (next_user_data e) (length chunks))
            (map (\<lambda>b. WriteOp (- 1) b (word_of_nat (length b))) chunks)).
          allowed \<lparr>sq_fd = fd, sq_op = op, sq_id = my_id\<rparr>"
  shows "\<exists>r e'. submit_uring_write_batch ops fd chunks e = Some (r, e') \<and> eng_ok e' \<and>
           (\<forall>ns. r = Inr ns \<longrightarrow> list_all2 (\<lambda>my_id n. \<exists>v b. 0 \<le> v \<and>
              answered (world e') my_id = Some (v, b) \<and> n = nat v)
              (task_ids (next_user_data e) (length chunks)) ns) \<and>
           (\<forall>x. r = Inl x \<longrightarrow> faulty x \<or> new_fails e x \<or>
              (\<exists>my_id \<in> set (task_ids (next_user_data e) (length chunks)). refused my_id (world e') x))"
proof (cases "chunks = []")
  case True
  with assms(1) show ?thesis by (simp add: submit_uring_write_batch_def task_ids_def)
next
  case False
  from batch_returns [OF assms(1,2), where opl = "map (\<lambda>b. WriteOp (- 1) b (word_of_nat (length b))) chunks"
      and key = id and ts = "\<lambda>start. task_ids start (length chunks)" and fd = fd
      and k = "\<lambda>t ret. um_return (nat ret)" and h = "\<lambda>t v b. nat v"] assms(3,4)
  show ?thesis
    using False by (simp add: submit_uring_write_batch_def Let_def)
qed

end

end
