(* ===== verification/Ring_Kernel.thy ===== *)
theory Ring_Kernel
  imports Ring_Engine
begin

text \<open>
  A model of the kernel's side of a ring, on which the contract of \<open>Ring_Engine\<close> is interpreted.
  Requests wait in the submission queue, are in flight, or have their completion in the
  completion queue; \<open>exec\<close> is what the kernel does for one request when it completes it.  The
  schedule says, for each entry into the kernel, whether the call is interrupted and which of the
  requests in flight are completed in it; it stands for the kernel's freedom to take requests in any
  order.  When the schedule has ended, requests are completed in the order of submission, as
  late as possible.
\<close>

section \<open>The ring\<close>

record 'k kring =
  kr_cap :: nat
  kr_sq :: "sqe list"
  kr_fly :: "sqe list"
  kr_cq :: "(id \<times> int) list"
  kr_ans :: "id \<rightharpoonup> int \<times> bytes"
  kr_sched :: "(bool \<times> nat list) list"
  kr_kern :: 'k

type_synonym 'k exec = "sqe \<Rightarrow> 'k \<Rightarrow> (int \<times> bytes) \<times> 'k"

text \<open>Completing the \<open>j\<close>-th request in flight.\<close>

definition complete_one :: "'k exec \<Rightarrow> nat \<Rightarrow> 'k kring \<Rightarrow> 'k kring" where
  "complete_one exec j w =
     (if kr_fly w = [] then w
      else let i = j mod length (kr_fly w); e = kr_fly w ! i in
        (case exec e (kr_kern w) of
           ((r, b), k') \<Rightarrow>
             w\<lparr>kr_fly := take i (kr_fly w) @ drop (Suc i) (kr_fly w),
               kr_cq := kr_cq w @ [(sq_id e, r)],
               kr_ans := (kr_ans w)(sq_id e \<mapsto> (r, b)), kr_kern := k'\<rparr>))"

definition flush_sq :: "'k kring \<Rightarrow> 'k kring" where
  "flush_sq w = w\<lparr>kr_fly := kr_fly w @ kr_sq w, kr_sq := []\<rparr>"

definition next_decision :: "'k kring \<Rightarrow> (bool \<times> nat list) \<times> 'k kring" where
  "next_decision w =
     (case kr_sched w of [] \<Rightarrow> ((False, []), w) | d # ds \<Rightarrow> (d, w\<lparr>kr_sched := ds\<rparr>))"

text \<open>Rings have at most 32768 entries.\<close>

definition kr_new :: "nat \<Rightarrow> 'k kring \<Rightarrow> (uerror + unit) \<times> 'k kring" where
  "kr_new n w = (if 0 < n \<and> n \<le> 32768 then (Inr (), w\<lparr>kr_cap := n\<rparr>) else (Inl (Errno 22), w))"

definition kr_push :: "sqe \<Rightarrow> 'k kring \<Rightarrow> 'k kring option" where
  "kr_push e w =
     (if kr_cap w \<le> length (kr_sq w) then None
      else Some (w\<lparr>kr_sq := kr_sq w @ [e], kr_ans := (kr_ans w)(sq_id e := None)\<rparr>))"

definition kr_submit :: "'k exec \<Rightarrow> 'k kring \<Rightarrow> (uerror + nat) \<times> 'k kring" where
  "kr_submit exec w =
     (case next_decision w of
        ((True, _), w1) \<Rightarrow> (Inl (Errno 11), w1)
      | ((False, js), w1) \<Rightarrow> (Inr (length (kr_sq w)), fold (complete_one exec) js (flush_sq w1)))"

text \<open>
  An interrupted wait that has submitted something reports that, and has not waited; otherwise
  the kernel goes on until there are enough completions, or for ever.
\<close>

definition kr_wait :: "'k exec \<Rightarrow> nat \<Rightarrow> 'k kring \<Rightarrow> ((uerror + nat) \<times> 'k kring) option" where
  "kr_wait exec n w =
     (case next_decision w of
        ((True, _), w1) \<Rightarrow>
          (if kr_sq w = [] then Some (Inl (Errno 4), w1)
           else Some (Inr (length (kr_sq w)), flush_sq w1))
      | ((False, js), w1) \<Rightarrow>
          (let w2 = fold (complete_one exec) js (flush_sq w1);
               w3 = fold (complete_one exec) (replicate (n - length (kr_cq w2)) 0) w2
           in if n \<le> length (kr_cq w3) then Some (Inr (length (kr_sq w)), w3) else None))"

definition kr_completion :: "'k kring \<Rightarrow> (id \<times> int) list \<times> 'k kring" where
  "kr_completion w = (kr_cq w, w\<lparr>kr_cq := []\<rparr>)"

definition kr_buffer :: "id \<Rightarrow> 'k kring \<Rightarrow> bytes" where
  "kr_buffer i w = (case kr_ans w i of Some (_, b) \<Rightarrow> b | None \<Rightarrow> [])"

definition kring_ops :: "'k exec \<Rightarrow> 'k kring ring_ops" where
  "kring_ops exec = \<lparr>ur_new = kr_new, ur_push = kr_push, ur_submit = kr_submit exec,
     ur_wait = kr_wait exec, ur_completion = kr_completion, ur_buffer = kr_buffer\<rparr>"

lemma kring_ops_simps [simp]:
  "ur_new (kring_ops exec) = kr_new" "ur_push (kring_ops exec) = kr_push"
  "ur_submit (kring_ops exec) = kr_submit exec" "ur_wait (kring_ops exec) = kr_wait exec"
  "ur_completion (kring_ops exec) = kr_completion" "ur_buffer (kring_ops exec) = kr_buffer"
  by (simp_all add: kring_ops_def)

section \<open>The contract holds\<close>

definition kr_pending :: "'k kring \<Rightarrow> id set" where
  "kr_pending w = sq_id ` set (kr_sq w) \<union> sq_id ` set (kr_fly w)"

definition kr_outst :: "'k kring \<Rightarrow> id set" where
  "kr_outst w = kr_pending w \<union> fst ` set (kr_cq w)"

definition kr_wf :: "'k kring \<Rightarrow> bool" where
  "kr_wf w =
     (distinct (map sq_id (kr_sq w @ kr_fly w) @ map fst (kr_cq w)) \<and> 0 < kr_cap w \<and>
      (\<forall>i \<in> kr_pending w. kr_ans w i = None) \<and>
      (\<forall>(i, r) \<in> set (kr_cq w). \<exists>b. kr_ans w i = Some (r, b)))"

text \<open>What the kernel's own activity keeps.\<close>

definition kr_keeps :: "'k kring \<Rightarrow> 'k kring \<Rightarrow> bool" where
  "kr_keeps w w' = (kr_wf w' \<and> kr_outst w' = kr_outst w \<and> kr_ans w \<subseteq>\<^sub>m kr_ans w' \<and>
     length (kr_sq w') \<le> length (kr_sq w))"

lemma kr_keeps_refl: "kr_wf w \<Longrightarrow> kr_keeps w w"
  by (simp add: kr_keeps_def)

lemma kr_keeps_trans: "kr_keeps w w1 \<Longrightarrow> kr_keeps w1 w2 \<Longrightarrow> kr_keeps w w2"
  by (auto simp: kr_keeps_def intro: map_le_trans)

lemma complete_one_keeps:
  assumes "kr_wf w"
  shows "kr_keeps w (complete_one exec j w)"
proof (cases "kr_fly w = []")
  case True
  with assms show ?thesis by (simp add: complete_one_def kr_keeps_refl)
next
  case False
  define i where "i = j mod length (kr_fly w)"
  define e where "e = kr_fly w ! i"
  from False have i: "i < length (kr_fly w)" by (simp add: i_def)
  let ?fly = "take i (kr_fly w) @ drop (Suc i) (kr_fly w)"
  from i have fly: "kr_fly w = take i (kr_fly w) @ e # drop (Suc i) (kr_fly w)"
    by (simp add: e_def id_take_nth_drop)
  then have sets: "set (kr_fly w) = insert e (set ?fly)" by (metis list.set(2) set_append Un_insert_right)
  obtain r b k' where ex: "exec e (kr_kern w) = ((r, b), k')" by (metis surj_pair)
  have w': "complete_one exec j w = w\<lparr>kr_fly := ?fly, kr_cq := kr_cq w @ [(sq_id e, r)],
      kr_ans := (kr_ans w)(sq_id e \<mapsto> (r, b)), kr_kern := k'\<rparr>"
    using False ex by (simp add: complete_one_def Let_def i_def e_def)
  have "distinct (map sq_id (kr_sq w @ (take i (kr_fly w) @ e # drop (Suc i) (kr_fly w))) @
          map fst (kr_cq w))"
    using assms fly by (simp add: kr_wf_def)
  then have dist: "distinct (map sq_id (kr_sq w @ ?fly) @ map fst (kr_cq w @ [(sq_id e, r)]))"
    and new: "sq_id e \<notin> sq_id ` set (kr_sq w)" "sq_id e \<notin> sq_id ` set ?fly" "sq_id e \<notin> fst ` set (kr_cq w)"
    by auto
  have none: "kr_ans w (sq_id e) = None" using assms sets by (auto simp: kr_wf_def kr_pending_def)
  have "kr_outst (complete_one exec j w) = kr_outst w"
    using sets by (auto simp: kr_outst_def kr_pending_def w')
  moreover have "kr_wf (complete_one exec j w)"
  proof -
    have "kr_ans (complete_one exec j w) k = None" if "k \<in> kr_pending (complete_one exec j w)" for k
    proof -
      from that new sets have "k \<noteq> sq_id e" "k \<in> kr_pending w"
        unfolding kr_pending_def w' by auto
      with assms show ?thesis by (simp add: kr_wf_def w')
    qed
    moreover have "\<exists>b. kr_ans (complete_one exec j w) k = Some (q, b)"
      if "(k, q) \<in> set (kr_cq (complete_one exec j w))" for k q
    proof (cases "(k, q) \<in> set (kr_cq w)")
      case True
      with new(3) have "k \<noteq> sq_id e" by force
      moreover from True assms have "\<exists>b. kr_ans w k = Some (q, b)" by (auto simp: kr_wf_def)
      ultimately show ?thesis by (simp add: w')
    next
      case False
      with that have "k = sq_id e" "q = r" by (simp_all add: w')
      then show ?thesis by (simp add: w')
    qed
    moreover have "distinct (map sq_id (kr_sq (complete_one exec j w) @ kr_fly (complete_one exec j w)) @
        map fst (kr_cq (complete_one exec j w)))"
      using dist unfolding w' by simp
    moreover have "0 < kr_cap (complete_one exec j w)"
      using assms by (simp add: w' kr_wf_def)
    ultimately show ?thesis by (simp only: kr_wf_def) blast
  qed
  ultimately show ?thesis using none by (auto simp: kr_keeps_def w' map_le_def)
qed

lemma fold_complete_keeps:
  "kr_wf w \<Longrightarrow> kr_keeps w (fold (complete_one exec) js w)"
proof (induction js arbitrary: w)
  case Nil
  then show ?case by (simp add: kr_keeps_refl)
next
  case (Cons j js)
  then have one: "kr_keeps w (complete_one exec j w)" by (simp add: complete_one_keeps)
  with Cons.IH [of "complete_one exec j w"] show ?case
    by (auto simp: kr_keeps_def intro: map_le_trans)
qed

lemma complete_one_sq [simp]: "kr_sq (complete_one exec j w) = kr_sq w"
  by (simp add: complete_one_def Let_def split: prod.split)

lemma complete_one_lengths:
  "length (kr_fly (complete_one exec j w)) = length (kr_fly w) - 1"
  "length (kr_cq (complete_one exec j w)) = length (kr_cq w) + min 1 (length (kr_fly w))"
proof -
  have "j mod length (kr_fly w) < length (kr_fly w)" if "kr_fly w \<noteq> []" using that by simp
  then show "length (kr_fly (complete_one exec j w)) = length (kr_fly w) - 1"
    "length (kr_cq (complete_one exec j w)) = length (kr_cq w) + min 1 (length (kr_fly w))"
    by (cases "kr_fly w = []"; simp add: complete_one_def Let_def Suc_leI split: prod.split)+
qed

lemma fold_complete_sq [simp]: "kr_sq (fold (complete_one exec) js w) = kr_sq w"
  by (induction js arbitrary: w) simp_all

lemma fold_complete_lengths:
  "length (kr_fly (fold (complete_one exec) js w)) = length (kr_fly w) - length js"
  "length (kr_cq (fold (complete_one exec) js w)) = length (kr_cq w) + min (length js) (length (kr_fly w))"
  by (induction js arbitrary: w) (simp_all add: complete_one_lengths)

lemma flush_sq_keeps: "kr_wf w \<Longrightarrow> kr_keeps w (flush_sq w)"
  by (auto simp: kr_keeps_def kr_wf_def kr_outst_def kr_pending_def flush_sq_def)

lemma next_decision_keeps: "kr_wf w \<Longrightarrow> kr_keeps w (snd (next_decision w))"
  by (auto simp: next_decision_def kr_keeps_def kr_wf_def kr_outst_def kr_pending_def
      split: list.split)

lemma next_decision_sq [simp]:
  "kr_sq (snd (next_decision w)) = kr_sq w" "kr_fly (snd (next_decision w)) = kr_fly w"
  "kr_cq (snd (next_decision w)) = kr_cq w"
  by (simp_all add: next_decision_def split: list.split)

lemma kr_outst_card:
  assumes "kr_wf w"
  shows "card (kr_outst w) = length (kr_sq w) + length (kr_fly w) + length (kr_cq w)"
proof -
  from assms have "card (set (map sq_id (kr_sq w @ kr_fly w) @ map fst (kr_cq w))) =
      length (map sq_id (kr_sq w @ kr_fly w) @ map fst (kr_cq w))"
    by (intro distinct_card) (simp add: kr_wf_def)
  moreover have "set (map sq_id (kr_sq w @ kr_fly w) @ map fst (kr_cq w)) = kr_outst w"
    by (auto simp: kr_outst_def kr_pending_def)
  ultimately show ?thesis by simp
qed

text \<open>Entering the kernel: what a submit and a wait keep, and how they make progress.\<close>

lemma kr_submit_keeps:
  assumes "kr_wf w"
  shows "kr_keeps w (snd (kr_submit exec w))"
proof -
  obtain b js w1 where d: "next_decision w = ((b, js), w1)" by (metis surj_pair)
  with next_decision_keeps [OF assms] have k1: "kr_keeps w w1" by simp
  then have k2: "kr_keeps w (fold (complete_one exec) js (flush_sq w1))"
    by (meson kr_keeps_trans kr_keeps_def flush_sq_keeps fold_complete_keeps)
  with k1 show ?thesis by (cases b) (simp_all add: kr_submit_def d)
qed

lemma kr_wait_keeps:
  assumes "kr_wf w" and "kr_wait exec n w = Some (r, w')"
  shows "kr_keeps w w'"
proof -
  obtain b js w1 where d: "next_decision w = ((b, js), w1)" by (metis surj_pair)
  with next_decision_keeps [OF assms(1)] have k1: "kr_keeps w w1" by simp
  then have k2: "kr_keeps w (flush_sq w1)"
    by (meson kr_keeps_trans kr_keeps_def flush_sq_keeps)
  then have k3: "kr_keeps w (fold (complete_one exec) ks (fold (complete_one exec) js (flush_sq w1)))"
    for ks by (meson kr_keeps_trans kr_keeps_def fold_complete_keeps)
  from k1 k2 k3 assms(2) show ?thesis
    by (cases b) (auto simp: kr_wait_def d Let_def simp del: fold_replicate split: if_splits)
qed

lemma kr_wait_progress:
  assumes "kr_wait exec 1 w = Some (Inr k, w')"
  shows "length (kr_sq w') < length (kr_sq w) \<or> kr_cq w' \<noteq> []"
proof -
  obtain b js w1 where d: "next_decision w = ((b, js), w1)" by (metis surj_pair)
  with assms show ?thesis
    by (cases b) (auto simp: kr_wait_def d Let_def flush_sq_def simp del: fold_replicate split: if_splits)
qed

lemma kr_wait_returns:
  assumes "kr_wf w" and "n \<le> card (kr_outst w)"
  shows "kr_wait exec n w \<noteq> None"
proof -
  obtain b js w1 where d: "next_decision w = ((b, js), w1)" by (metis surj_pair)
  then have w1: "kr_sq w1 = kr_sq w" "kr_fly w1 = kr_fly w" "kr_cq w1 = kr_cq w"
    using next_decision_sq [of w] by simp_all
  define w2 where "w2 = fold (complete_one exec) js (flush_sq w1)"
  define w3 where "w3 = fold (complete_one exec) (replicate (n - length (kr_cq w2)) 0) w2"
  have "length (kr_cq w2) + length (kr_fly w2) = card (kr_outst w)"
    using kr_outst_card [OF assms(1)] w1 by (simp add: w2_def flush_sq_def fold_complete_lengths)
  moreover have "length (kr_cq w3) = length (kr_cq w2) + min (n - length (kr_cq w2)) (length (kr_fly w2))"
    by (simp add: w3_def fold_complete_lengths del: fold_replicate)
  ultimately have "n \<le> length (kr_cq w3)" using assms(2) by simp
  then show ?thesis
    by (cases b) (auto simp: kr_wait_def d Let_def w2_def w3_def simp del: fold_replicate)
qed

lemma kr_new_keeps:
  assumes "kr_wf w"
  shows "kr_keeps w (snd (kr_new n w))"
  using assms
  by (simp add: kr_new_def kr_keeps_def kr_wf_def kr_outst_def kr_pending_def)

lemma kr_push_Some:
  assumes "kr_wf w" and "sq_id e \<notin> kr_outst w" and "kr_push e w = Some w'"
  shows "kr_wf w'" "kr_outst w' = insert (sq_id e) (kr_outst w)"
    "kr_ans w' = (kr_ans w)(sq_id e := None)"
proof -
  from assms(3) have w': "w' = w\<lparr>kr_sq := kr_sq w @ [e], kr_ans := (kr_ans w)(sq_id e := None)\<rparr>"
    by (simp add: kr_push_def split: if_splits)
  show "kr_outst w' = insert (sq_id e) (kr_outst w)" "kr_ans w' = (kr_ans w)(sq_id e := None)"
    by (auto simp: w' kr_outst_def kr_pending_def)
  from assms(2) have new: "sq_id e \<notin> kr_pending w" "\<And>r. (sq_id e, r) \<notin> set (kr_cq w)"
    "sq_id e \<notin> fst ` set (kr_cq w)"
    by (force simp: kr_outst_def)+
  have "distinct (map sq_id (kr_sq w' @ kr_fly w') @ map fst (kr_cq w'))"
    using assms(1) new by (simp add: w' kr_wf_def kr_pending_def)
  moreover have "kr_pending w' = insert (sq_id e) (kr_pending w)"
    by (auto simp: w' kr_pending_def)
  moreover have "\<forall>(i, r) \<in> set (kr_cq w'). \<exists>b. kr_ans w' i = Some (r, b)"
    using assms(1) new(2) by (fastforce simp: w' kr_wf_def)
  moreover have "0 < kr_cap w'" using assms(1) by (simp add: w' kr_wf_def)
  ultimately show "kr_wf w'" using assms(1) by (simp add: kr_wf_def w')
qed

lemma kr_push_None:
  assumes "kr_wf w" and "kr_push e w = None"
  shows "kr_outst w \<noteq> {}"
  using assms by (cases "kr_sq w") (auto simp: kr_push_def kr_wf_def kr_outst_def kr_pending_def)

lemma kr_completion_law:
  assumes "kr_wf w" and "kr_completion w = (cs, w')"
  shows "kr_wf w'" "distinct (map fst cs)" "kr_outst w' = kr_outst w - fst ` set cs"
    "fst ` set cs \<subseteq> kr_outst w" "kr_ans w' = kr_ans w" "kr_sq w' = kr_sq w"
    "\<forall>(i, r) \<in> set cs. \<exists>b. kr_ans w i = Some (r, b)"
proof -
  from assms(2) have w': "cs = kr_cq w" "w' = w\<lparr>kr_cq := []\<rparr>" by (auto simp: kr_completion_def)
  from assms(1) have disj: "kr_pending w \<inter> fst ` set (kr_cq w) = {}"
    by (auto simp: kr_wf_def kr_pending_def)
  have "kr_pending w' = kr_pending w" by (simp add: w' kr_pending_def)
  with assms(1) show "kr_wf w'" by (auto simp: kr_wf_def w')
  show "distinct (map fst cs)" using assms(1) by (simp add: kr_wf_def w')
  show "kr_outst w' = kr_outst w - fst ` set cs" "fst ` set cs \<subseteq> kr_outst w"
    using disj \<open>kr_pending w' = kr_pending w\<close> by (auto simp: kr_outst_def w')
  show "kr_ans w' = kr_ans w" "kr_sq w' = kr_sq w" by (simp_all add: w')
  show "\<forall>(i, r) \<in> set cs. \<exists>b. kr_ans w i = Some (r, b)" using assms(1) by (simp add: kr_wf_def w')
qed

interpretation kr: uring "kring_ops exec" kr_outst kr_ans "\<lambda>w. length (kr_sq w)" kr_wf "\<lambda>_. True"
  for exec :: "'k exec"
proof unfold_locales
  fix w w' :: "'k kring" and n rn rs k e cs i r b
  show "finite (kr_outst w)" by (simp add: kr_outst_def kr_pending_def)
  show "kr_wf w' \<and> kr_outst w' = kr_outst w \<and> kr_ans w \<subseteq>\<^sub>m kr_ans w'"
    if "kr_wf w" "ur_new (kring_ops exec) n w = (rn, w')"
    using kr_new_keeps [OF that(1), of n] that(2) by (simp add: kr_keeps_def)
  show "kr_wf w' \<and> kr_outst w' = insert (sq_id e) (kr_outst w) \<and> kr_ans w' = (kr_ans w)(sq_id e := None)"
    if "kr_wf w" "True" "sq_id e \<notin> kr_outst w" "ur_push (kring_ops exec) e w = Some w'"
    using kr_push_Some [of w e w'] that by simp
  show "kr_outst w \<noteq> {}" if "kr_wf w" "ur_push (kring_ops exec) e w = None"
    using kr_push_None [of w e] that by simp
  show "kr_wf w' \<and> kr_outst w' = kr_outst w \<and> kr_ans w \<subseteq>\<^sub>m kr_ans w' \<and> length (kr_sq w') \<le> length (kr_sq w)"
    if "kr_wf w" "ur_submit (kring_ops exec) w = (rs, w')"
    using kr_submit_keeps [OF that(1), of exec] that(2) by (simp add: kr_keeps_def)
  show "kr_wf w' \<and> kr_outst w' = kr_outst w \<and> kr_ans w \<subseteq>\<^sub>m kr_ans w' \<and> length (kr_sq w') \<le> length (kr_sq w)"
    if "kr_wf w" "ur_wait (kring_ops exec) n w = Some (rs, w')"
    using kr_wait_keeps [OF that(1), of exec n rs w'] that(2) by (simp add: kr_keeps_def)
  show "length (kr_sq w') < length (kr_sq w) \<or> fst (ur_completion (kring_ops exec) w') \<noteq> []"
    if "kr_wf w" "ur_wait (kring_ops exec) 1 w = Some (Inr k, w')" "kr_outst w \<noteq> {}"
    using kr_wait_progress [of exec w k w'] that by (simp add: kr_completion_def)
  show "ur_wait (kring_ops exec) n w \<noteq> None" if "kr_wf w" "n \<le> card (kr_outst w)"
    using kr_wait_returns [OF that] by simp
  show "kr_wf w' \<and> distinct (map fst cs) \<and> fst ` set cs \<subseteq> kr_outst w \<and>
      kr_outst w' = kr_outst w - fst ` set cs \<and> kr_ans w' = kr_ans w \<and>
      length (kr_sq w') = length (kr_sq w) \<and> (\<forall>(i, r) \<in> set cs. \<exists>b. kr_ans w i = Some (r, b))"
    if "kr_wf w" "ur_completion (kring_ops exec) w = (cs, w')"
    using kr_completion_law [of w cs w'] that by simp
  show "ur_buffer (kring_ops exec) i w = b" if "kr_wf w" "kr_ans w i = Some (r, b)"
    using that by (simp add: kr_buffer_def)
qed

section \<open>One request on a quiet ring\<close>

text \<open>Nothing on its way, and no interruption to come.\<close>

definition quiet :: "'k kring \<Rightarrow> bool" where
  "quiet w = (kr_sq w = [] \<and> kr_fly w = [] \<and> kr_cq w = [] \<and> 0 < kr_cap w \<and>
     (\<forall>d \<in> set (kr_sched w). \<not> fst d))"

definition idle :: "'k kring engine \<Rightarrow> bool" where
  "idle e = (quiet (world e) \<and>
     (thread_ring e = Some Map.empty \<or>
      thread_ring e = None \<and> get_configured_ring_size (ring_size_var e) \<le> 32768))"

text \<open>The ring after the only request has been completed.\<close>

definition answered_only :: "'k exec \<Rightarrow> sqe \<Rightarrow> 'k \<Rightarrow> 'k kring \<Rightarrow> bool" where
  "answered_only exec q k w =
     (case exec q k of ((r, b), k') \<Rightarrow>
        kr_sq w = [] \<and> kr_fly w = [] \<and> kr_cq w = [(sq_id q, r)] \<and> 0 < kr_cap w \<and>
        kr_ans w (sq_id q) = Some (r, b) \<and> kr_kern w = k' \<and> (\<forall>d \<in> set (kr_sched w). \<not> fst d))"

lemma fold_complete_none: "kr_fly w = [] \<Longrightarrow> fold (complete_one exec) js w = w"
  by (induction js) (simp_all add: complete_one_def)

lemma fold_complete_single:
  assumes "kr_fly w = [q]" and "kr_sq w = []" and "kr_cq w = []" and "0 < kr_cap w"
    and "\<forall>d \<in> set (kr_sched w). \<not> fst d" and "js \<noteq> []"
  shows "answered_only exec q (kr_kern w) (fold (complete_one exec) js w)"
proof -
  obtain j js' where js: "js = j # js'" using assms(6) by (cases js) auto
  have "kr_fly (complete_one exec j w) = []"
    using assms(1) by (simp add: complete_one_def split: prod.split)
  then have "fold (complete_one exec) js w = complete_one exec j w"
    by (simp add: js fold_complete_none)
  then show ?thesis
    using assms(1-5) by (simp add: complete_one_def answered_only_def split: prod.split)
qed

lemma steady_decision:
  assumes "\<forall>d \<in> set (kr_sched w). \<not> fst d"
  obtains js w' where "next_decision w = ((False, js), w')" "kr_sq w' = kr_sq w"
    "kr_fly w' = kr_fly w" "kr_cq w' = kr_cq w" "kr_cap w' = kr_cap w" "kr_kern w' = kr_kern w"
    "\<forall>d \<in> set (kr_sched w'). \<not> fst d"
  using that assms by (cases "kr_sched w") (force simp: next_decision_def)+

lemma poll_answered:
  assumes "answered_only exec q k w" and "exec q k = ((r, b), k')"
  shows "poll_completion_for_id (kring_ops exec) (sq_id q) (Map.empty, w) =
           Some (Inr r, (Map.empty, w\<lparr>kr_cq := []\<rparr>))"
  using assms
  by (subst poll_completion_for_id.simps)
    (simp add: answered_only_def drain_def kr_completion_def insert_all_def)

lemma poll_single:
  assumes w: "kr_sq w = [q]" "kr_fly w = []" "kr_cq w = []" "0 < kr_cap w"
    "\<forall>d \<in> set (kr_sched w). \<not> fst d"
    and ex: "exec q (kr_kern w) = ((r, b), k')"
  shows "\<exists>w'. poll_completion_for_id (kring_ops exec) (sq_id q) (Map.empty, w) =
             Some (Inr r, (Map.empty, w'\<lparr>kr_cq := []\<rparr>)) \<and> answered_only exec q (kr_kern w) w'"
proof -
  have same: "w\<lparr>kr_cq := []\<rparr> = w" using w(3) by simp
  then have d1: "drain (kring_ops exec) (Map.empty, w) = (Map.empty, w)"
    using w(3) by (simp add: drain_def kr_completion_def insert_all_def)
  obtain js w1 where dec: "next_decision w = ((False, js), w1)" "kr_sq w1 = kr_sq w"
    "kr_fly w1 = kr_fly w" "kr_cq w1 = kr_cq w" "kr_cap w1 = kr_cap w" "kr_kern w1 = kr_kern w"
    "\<forall>d \<in> set (kr_sched w1). \<not> fst d" using steady_decision [OF w(5)] .
  define v where "v = flush_sq w1"
  have v: "kr_fly v = [q]" "kr_sq v = []" "kr_cq v = []" "0 < kr_cap v" "kr_kern v = kr_kern w"
    "\<forall>d \<in> set (kr_sched v). \<not> fst d"
    using dec w by (simp_all add: v_def flush_sq_def)
  have sub: "kr_submit exec w = (Inr 1, fold (complete_one exec) js v)"
    using dec(1) w(1) by (simp add: kr_submit_def v_def)
  show ?thesis
  proof (cases "js = []")
    case False
    from fold_complete_single [OF v(1-4,6) False, of exec] v(5)
    have only: "answered_only exec q (kr_kern w) (fold (complete_one exec) js v)" by simp
    then have "drain (kring_ops exec) (Map.empty, fold (complete_one exec) js v) =
        ([sq_id q \<mapsto> r], (fold (complete_one exec) js v)\<lparr>kr_cq := []\<rparr>)"
      using ex by (simp add: answered_only_def drain_def kr_completion_def insert_all_def)
    with only show ?thesis
      by (intro exI [of _ "fold (complete_one exec) js v"])
        (subst poll_completion_for_id.simps, simp add: d1 sub)
  next
    case True
    have d2: "drain (kring_ops exec) (Map.empty, v) = (Map.empty, v)"
      using v(3) by (simp add: drain_def kr_completion_def insert_all_def)
    obtain js2 v1 where dec2: "next_decision v = ((False, js2), v1)" "kr_sq v1 = kr_sq v"
      "kr_fly v1 = kr_fly v" "kr_cq v1 = kr_cq v" "kr_cap v1 = kr_cap v" "kr_kern v1 = kr_kern v"
      "\<forall>d \<in> set (kr_sched v1). \<not> fst d" using steady_decision [OF v(6)] .
    have fl: "flush_sq v1 = v1" using dec2(2) v(2) by (simp add: flush_sq_def)
    define u where "u = fold (complete_one exec) js2 v1"
    define u' where "u' = fold (complete_one exec) (replicate (1 - length (kr_cq u)) 0) u"
    have u': "u' = fold (complete_one exec) (js2 @ replicate (1 - length (kr_cq u)) 0) v1"
      by (simp add: u'_def u_def del: fold_replicate)
    have some: "js2 @ replicate (1 - length (kr_cq u)) 0 \<noteq> []"
      using dec2(4) v(3) by (cases js2) (simp_all add: u_def)
    have only: "answered_only exec q (kr_kern w) u'"
      using fold_complete_single [OF _ _ _ _ _ some, of v1 q exec] dec2 v by (simp only: u')
    then have "length (kr_cq u') = 1" by (auto simp: answered_only_def split: prod.splits)
    then have wait: "kr_wait exec 1 v = Some (Inr 0, u')"
      using dec2(1) v(2) fl by (simp add: kr_wait_def Let_def u_def [symmetric] u'_def [symmetric]
          del: fold_replicate One_nat_def)
    have "poll_completion_for_id (kring_ops exec) (sq_id q) (Map.empty, w) =
        poll_completion_for_id (kring_ops exec) (sq_id q) (Map.empty, u')"
      using wait by (subst poll_completion_for_id.simps) (simp add: d1 sub True d2 del: One_nat_def)
    with poll_answered [OF only ex] only show ?thesis by auto
  qed
qed

lemma submit_one_idle:
  fixes exec :: "'k exec" and e :: "'k kring engine"
  assumes "idle e" and "exec \<lparr>sq_fd = fd, sq_op = op, sq_id = next_user_data e\<rparr> (kr_kern (world e)) = ((r, b), k')"
  shows "\<exists>e'. submit_one (kring_ops exec) fd op e =
             Some (if r < 0 then Inl (Errno (- r)) else Inr (next_user_data e, r), e') \<and>
           idle e' \<and> kr_kern (world e') = k' \<and> kr_ans (world e') (next_user_data e) = Some (r, b)"
proof -
  let ?id = "next_user_data e"
  let ?q = "\<lparr>sq_fd = fd, sq_op = op, sq_id = ?id\<rparr>"
  define e1 where "e1 = e\<lparr>next_user_data := ?id + word_of_nat 1\<rparr>"
  have fetch: "fetch_add 1 e = Some (Inr ?id, e1)" by (simp add: fetch_add_def e1_def)
  have e1: "thread_ring e1 = thread_ring e" "world e1 = world e" "ring_size_var e1 = ring_size_var e"
    by (simp_all add: e1_def)
  have size: "0 < get_configured_ring_size (ring_size_var e)" by (rule ring_size_positive)
  obtain c where c: "0 < c" "with_thread_ring_state (kring_ops exec) f e1 =
      (case f (Map.empty, (world e)\<lparr>kr_cap := c\<rparr>) of
         None \<Rightarrow> None | Some (r, c', w') \<Rightarrow> Some (r, e1\<lparr>thread_ring := Some c', world := w'\<rparr>))"
    for f :: "('k kring ring_state, unit) um"
  proof (cases "thread_ring e")
    case None
    with assms(1) size that [of "get_configured_ring_size (ring_size_var e)"] show ?thesis
      by (simp add: with_thread_ring_state_def e1 idle_def kr_new_def)
  next
    case (Some t)
    with assms(1) that [of "kr_cap (world e)"] show ?thesis
      by (simp add: with_thread_ring_state_def e1 idle_def quiet_def)
  qed
  define w where "w = (world e)\<lparr>kr_cap := c, kr_sq := [?q], kr_ans := (kr_ans (world e))(?id := None)\<rparr>"
  have w: "kr_sq w = [?q]" "kr_fly w = []" "kr_cq w = []" "0 < kr_cap w"
    "\<forall>d \<in> set (kr_sched w). \<not> fst d" "kr_kern w = kr_kern (world e)"
    using assms(1) c(1) by (simp_all add: w_def idle_def quiet_def)
  have "try_push (kring_ops exec) ?q (Map.empty, (world e)\<lparr>kr_cap := c\<rparr>) = Some (Inr True, (Map.empty, w))"
    using assms(1) c(1) by (simp add: try_push_def kr_push_def w_def idle_def quiet_def)
  then have push: "with_thread_ring_state (kring_ops exec) (push_entry (kring_ops exec) ?q) e1 =
      Some (Inr (), e1\<lparr>thread_ring := Some Map.empty, world := w\<rparr>)"
    by (simp add: c(2) push_entry_def)
  from poll_single [where q = ?q and w = w and exec = exec and r = r] w assms(2) obtain w' where
    poll: "poll_completion_for_id (kring_ops exec) ?id (Map.empty, w) =
        Some (Inr r, (Map.empty, w'\<lparr>kr_cq := []\<rparr>))" "answered_only exec ?q (kr_kern w) w'"
    by auto
  let ?e' = "e1\<lparr>thread_ring := Some Map.empty, world := w'\<lparr>kr_cq := []\<rparr>\<rparr>"
  have "poll_result (kring_ops exec) ?id (e1\<lparr>thread_ring := Some Map.empty, world := w\<rparr>) =
      Some (if r < 0 then Inl (Errno (- r)) else Inr r, ?e')"
    using poll(1) by (simp add: poll_result_def with_thread_ring_state_def um_bind_def)
  then have "submit_one (kring_ops exec) fd op e =
      Some (if r < 0 then Inl (Errno (- r)) else Inr (?id, r), ?e')"
    using fetch push by (simp add: submit_one_def)
  moreover have "idle ?e'" "kr_kern (world ?e') = k'" "kr_ans (world ?e') ?id = Some (r, b)"
    using poll(2) assms(2) w(6) by (simp_all add: answered_only_def idle_def quiet_def)
  ultimately show ?thesis by blast
qed

section \<open>Reads at offsets, under any schedule\<close>

text \<open>
  While all requests on the ring are reads that change nothing, it does not matter when the kernel
  performs them: \<open>ans\<close> gives the answer of each, \<open>st\<close> is the unchanging state of the files, and
  \<open>ids\<close> are the requests of interest.  \<open>steady\<close> excludes interruptions where it is true.
\<close>

definition only_reads ::
  "'k exec \<Rightarrow> 'k \<Rightarrow> (id \<Rightarrow> int \<times> bytes) \<Rightarrow> id set \<Rightarrow> bool \<Rightarrow> 'k kring \<Rightarrow> bool" where
  "only_reads exec st ans ids steady w =
     (kr_wf w \<and> kr_kern w = st \<and>
      (\<forall>q \<in> set (kr_sq w) \<union> set (kr_fly w). exec q st = (ans (sq_id q), st)) \<and>
      (\<forall>i \<in> ids. \<forall>x. kr_ans w i = Some x \<longrightarrow> x = ans i) \<and>
      (steady \<longrightarrow> (\<forall>d \<in> set (kr_sched w). \<not> fst d)))"

lemma only_reads_wf: "only_reads exec st ans ids steady w \<Longrightarrow> kr_wf w"
  by (simp add: only_reads_def)

lemma complete_one_only_reads:
  assumes "only_reads exec st ans ids steady w"
  shows "only_reads exec st ans ids steady (complete_one exec j w)"
proof (cases "kr_fly w = []")
  case True
  with assms show ?thesis by (simp add: complete_one_def)
next
  case False
  let ?i = "j mod length (kr_fly w)"
  let ?e = "kr_fly w ! ?i"
  from False have i: "?e \<in> set (kr_fly w)" by simp
  with assms have ex: "exec ?e st = (ans (sq_id ?e), st)" "kr_kern w = st" by (simp_all add: only_reads_def)
  from assms have "kr_wf (complete_one exec j w)"
    using complete_one_keeps by (auto simp: only_reads_def kr_keeps_def)
  moreover have "set (take ?i (kr_fly w) @ drop (Suc ?i) (kr_fly w)) \<subseteq> set (kr_fly w)"
    by (auto dest: in_set_takeD in_set_dropD)
  ultimately show ?thesis
    using assms ex False
    by (auto simp: only_reads_def complete_one_def Let_def split: prod.split)
qed

lemma fold_complete_only_reads:
  "only_reads exec st ans ids steady w \<Longrightarrow>
   only_reads exec st ans ids steady (fold (complete_one exec) js w)"
  by (induction js arbitrary: w) (simp_all add: complete_one_only_reads)

lemma next_decision_only_reads:
  assumes "only_reads exec st ans ids steady w" and "next_decision w = (d, w')"
  shows "only_reads exec st ans ids steady (flush_sq w')" "only_reads exec st ans ids steady w'"
    "steady \<Longrightarrow> \<not> fst d"
proof -
  from assms(2) next_decision_keeps [of w] have wf: "kr_wf w'"
    using assms(1) by (simp add: only_reads_def kr_keeps_def)
  then have wf': "kr_wf (flush_sq w')" using flush_sq_keeps by (auto simp: kr_keeps_def)
  from wf wf' assms show "only_reads exec st ans ids steady (flush_sq w')"
    "only_reads exec st ans ids steady w'" "steady \<Longrightarrow> \<not> fst d"
    by (auto simp: only_reads_def next_decision_def flush_sq_def split: list.splits)
qed

lemma kr_submit_only_reads:
  assumes "only_reads exec st ans ids steady w" and "kr_submit exec w = (r, w')"
  shows "only_reads exec st ans ids steady w'"
proof -
  obtain b js w1 where d: "next_decision w = ((b, js), w1)" by (metis surj_pair)
  from assms(2) next_decision_only_reads(1,2) [OF assms(1) d] show ?thesis
    by (cases b) (auto simp: kr_submit_def d intro: fold_complete_only_reads)
qed

lemma kr_wait_only_reads:
  assumes "only_reads exec st ans ids steady w" and "kr_wait exec n w = Some (r, w')"
  shows "only_reads exec st ans ids steady w'" "steady \<Longrightarrow> \<exists>k. r = Inr k"
    "steady \<Longrightarrow> kr_sq w' = []"
proof -
  obtain b js w1 where d: "next_decision w = ((b, js), w1)" by (metis surj_pair)
  note kept = next_decision_only_reads [OF assms(1) d]
  from assms(2) kept(1,2) show "only_reads exec st ans ids steady w'"
    by (cases b) (auto simp: kr_wait_def d Let_def simp del: fold_replicate
        intro!: fold_complete_only_reads split: if_splits)
  show "\<exists>k. r = Inr k" if steady
    using assms(2) kept(3) [OF that] by (auto simp: kr_wait_def d Let_def split: if_splits)
  show "kr_sq w' = []" if steady
    using assms(2) kept(3) [OF that]
    by (auto simp: kr_wait_def d Let_def flush_sq_def simp del: fold_replicate split: if_splits)
qed

interpretation rd: uring "kring_ops exec" kr_outst kr_ans "\<lambda>w. length (kr_sq w)"
  "only_reads exec st ans ids steady" "\<lambda>q. exec q st = (ans (sq_id q), st)"
  for exec :: "'k exec" and st ans ids steady
proof unfold_locales
  fix w w' :: "'k kring" and n rn rs k e cs i r b
  show "finite (kr_outst w)" by (simp add: kr_outst_def kr_pending_def)
  show "only_reads exec st ans ids steady w' \<and> kr_outst w' = kr_outst w \<and> kr_ans w \<subseteq>\<^sub>m kr_ans w'"
    if "only_reads exec st ans ids steady w" "ur_new (kring_ops exec) n w = (rn, w')"
    using that kr.new_law [OF only_reads_wf that(2)] by (auto simp: only_reads_def kr_new_def split: if_splits)
  show "only_reads exec st ans ids steady w' \<and> kr_outst w' = insert (sq_id e) (kr_outst w) \<and>
      kr_ans w' = (kr_ans w)(sq_id e := None)"
    if "only_reads exec st ans ids steady w" "exec e st = (ans (sq_id e), st)" "sq_id e \<notin> kr_outst w"
      "ur_push (kring_ops exec) e w = Some w'"
    using that kr_push_Some [OF only_reads_wf that(3), of exec st ans ids steady w']
    by (auto simp: only_reads_def kr_push_def split: if_splits)
  show "kr_outst w \<noteq> {}"
    if "only_reads exec st ans ids steady w" "ur_push (kring_ops exec) e w = None"
    using kr.push_full [OF only_reads_wf [OF that(1)] that(2)] .
  show "only_reads exec st ans ids steady w' \<and> kr_outst w' = kr_outst w \<and> kr_ans w \<subseteq>\<^sub>m kr_ans w' \<and>
      length (kr_sq w') \<le> length (kr_sq w)"
    if "only_reads exec st ans ids steady w" "ur_submit (kring_ops exec) w = (rs, w')"
    using kr.submit_law [OF only_reads_wf [OF that(1)] that(2)] kr_submit_only_reads [OF that(1)] that(2)
    by simp
  show "only_reads exec st ans ids steady w' \<and> kr_outst w' = kr_outst w \<and> kr_ans w \<subseteq>\<^sub>m kr_ans w' \<and>
      length (kr_sq w') \<le> length (kr_sq w)"
    if "only_reads exec st ans ids steady w" "ur_wait (kring_ops exec) n w = Some (rs, w')"
    using kr.wait_law [OF only_reads_wf [OF that(1)] that(2)] kr_wait_only_reads(1) [OF that(1)] that(2)
    by simp
  show "length (kr_sq w') < length (kr_sq w) \<or> fst (ur_completion (kring_ops exec) w') \<noteq> []"
    if "only_reads exec st ans ids steady w" "ur_wait (kring_ops exec) 1 w = Some (Inr k, w')"
      "kr_outst w \<noteq> {}"
    using kr.wait_progress [OF only_reads_wf [OF that(1)] that(2,3)] .
  show "ur_wait (kring_ops exec) n w \<noteq> None"
    if "only_reads exec st ans ids steady w" "n \<le> card (kr_outst w)"
    using kr.wait_returns [OF only_reads_wf [OF that(1)] that(2)] .
  show "only_reads exec st ans ids steady w' \<and> distinct (map fst cs) \<and> fst ` set cs \<subseteq> kr_outst w \<and>
      kr_outst w' = kr_outst w - fst ` set cs \<and> kr_ans w' = kr_ans w \<and>
      length (kr_sq w') = length (kr_sq w) \<and> (\<forall>(i, r) \<in> set cs. \<exists>b. kr_ans w i = Some (r, b))"
    if "only_reads exec st ans ids steady w" "ur_completion (kring_ops exec) w = (cs, w')"
    using kr.completion_law [OF only_reads_wf [OF that(1)] that(2)] that
    by (auto simp: only_reads_def kr_completion_def)
  show "ur_buffer (kring_ops exec) i w = b"
    if "only_reads exec st ans ids steady w" "kr_ans w i = Some (r, b)"
    using kr.buffer_law [OF only_reads_wf [OF that(1)] that(2)] .
qed

lemma steady_not_faulty:
  fixes exec :: "'k exec"
  shows "\<not> rd.faulty TYPE('k) exec st ans ids True x"
proof
  assume "rd.faulty TYPE('k) exec st ans ids True x"
  then consider (wait) n w w' where "only_reads exec st ans ids True w"
      "kr_wait exec n w = Some (Inl x, w')"
    | (push) k e w w' where "only_reads exec st ans ids True w"
      "kr_wait exec 1 w = Some (Inr k, w')" "kr_push e w' = None"
    by (auto simp: rd.faulty_def)
  then show False
  proof cases
    case wait
    from kr_wait_only_reads(2) [OF this] show ?thesis by simp
  next
    case push
    from kr_wait_only_reads [OF push(1,2)] have "kr_wf w'" "kr_sq w' = []"
      by (auto dest: only_reads_wf)
    with push(3) show ?thesis by (simp add: kr_push_def kr_wf_def split: if_splits)
  qed
qed

text \<open>The state of an idle engine meets the contract for reads.\<close>

lemma idle_only_reads:
  assumes "idle e" and "\<forall>i \<in> ids. kr_ans (world e) i = None"
  shows "rd.eng_ok exec (kr_kern (world e)) ans ids True e" "rd.tracked (rd.ring_of e) = {}"
    "\<not> rd.new_fails exec e x"
proof -
  from assms have "only_reads exec (kr_kern (world e)) ans ids True (world e)"
    "kr_outst (world e) = {}" "rd.ring_of e = (Map.empty, world e)"
    by (auto simp: idle_def quiet_def only_reads_def kr_wf_def kr_pending_def kr_outst_def rd.ring_of_def)
  then show "rd.eng_ok exec (kr_kern (world e)) ans ids True e" "rd.tracked (rd.ring_of e) = {}"
    by (simp_all add: rd.eng_ok_def rd.rs_ok_def rd.tracked_def)
  show "\<not> rd.new_fails exec e x"
    using assms(1) ring_size_positive [of "ring_size_var e"]
    by (auto simp: rd.new_fails_def idle_def kr_new_def)
qed

section \<open>Waiting\<close>

definition demo_engine :: "(bool \<times> nat list) list \<Rightarrow> 'k \<Rightarrow> 'k kring engine" where
  "demo_engine sched st = \<lparr>next_user_data = 1, ring_size_var = None, thread_ring = None,
     world = \<lparr>kr_cap = 1, kr_sq = [], kr_fly = [], kr_cq = [], kr_ans = Map.empty,
       kr_sched = sched, kr_kern = st\<rparr>\<rparr>"

lemma demo_engine_simps [simp]:
  "kr_kern (world (demo_engine sched st)) = st" "kr_ans (world (demo_engine sched st)) i = None"
  by (simp_all add: demo_engine_def)

lemma demo_engine_idle: "\<forall>d \<in> set sched. \<not> fst d \<Longrightarrow> idle (demo_engine sched st)"
  by (simp add: demo_engine_def idle_def quiet_def get_configured_ring_size_def)

text \<open>
  C14: waiting for a completion never hangs.  For a request that is on its way or already in the
  table, \<open>poll_completion_for_id\<close> returns, whatever the kernel's schedule and however many
  completions of other requests come first: either with the kernel's answer to this request,
  leaving every other request tracked as before, or, if a wait failed, with its error, the request
  being still on its way.
\<close>

theorem poll_completes:
  assumes "kr_wf w" and "dom c \<inter> kr_outst w = {}"
    and "\<forall>i r. c i = Some r \<longrightarrow> (\<exists>b. kr_ans w i = Some (r, b))"
    and "my_id \<in> dom c \<union> kr_outst w"
  shows "\<exists>r c' w'. poll_completion_for_id (kring_ops exec) my_id (c, w) = Some (r, (c', w')) \<and>
           (case r of
              Inr v \<Rightarrow> (\<exists>b. kr_ans w' my_id = Some (v, b)) \<and>
                dom c' \<union> kr_outst w' = dom c \<union> kr_outst w - {my_id}
            | Inl x \<Rightarrow> my_id \<in> kr_outst w' \<and> dom c' \<union> kr_outst w' = dom c \<union> kr_outst w)"
proof -
  from assms(1-3) have "kr.rs_ok (c, w)" by (simp add: kr.rs_ok_def)
  moreover from assms(4) have "my_id \<in> kr.tracked (c, w)" by (auto simp: kr.tracked_def)
  ultimately obtain r s' where "poll_completion_for_id (kring_ops exec) my_id (c, w) = Some (r, s')"
    "kr.poll_post exec my_id (c, w) r s'"
    using kr.poll_returns [of "(c, w)" my_id exec] by blast
  then show ?thesis
    by (cases s'; cases r) (auto simp: kr.poll_post_def kr.tracked_def)
qed

theorem poll_completes_witness:
  "\<exists>r c' w'. poll_completion_for_id (kring_ops (\<lambda>_ k. ((-22, []), k))) 7
     (Map.empty, (world (demo_engine [] (0 :: nat)))\<lparr>kr_sq := [\<lparr>sq_fd = 3, sq_op = SpliceOp 4 1, sq_id = 7\<rparr>]\<rparr>) =
     Some (r, (c', w'))"
  using poll_completes [of "(world (demo_engine [] (0 :: nat)))\<lparr>kr_sq := [\<lparr>sq_fd = 3, sq_op = SpliceOp 4 1, sq_id = 7\<rparr>]\<rparr>"
      Map.empty 7 "\<lambda>_ k. ((-22, []), k)"]
  by (auto simp: demo_engine_def kr_wf_def kr_outst_def kr_pending_def)

end
