(* ===== verification/Ring_Files.thy ===== *)
theory Ring_Files
  imports Ring_Kernel
begin

text \<open>
  The ring engine over the files of \<open>Native_File\<close>: where it does what \<open>Native_File\<close> takes a ring
  operation to do, and what the freedom of the kernel makes of batches and of interrupted calls.
\<close>

section \<open>Requests on files\<close>

text \<open>
  What the kernel does for a request on the handle of a \<open>NativeFileIO\<close>: the operations that
  \<open>Native_File\<close> takes for granted.  A splice between a file and anything but a pipe is refused.
\<close>

definition errno_of :: "py_error \<Rightarrow> int" where
  "errno_of e = (if e = OSError ''Invalid argument'' then 22 else 9)"

definition word_spec :: "64 word \<Rightarrow> 32 word \<Rightarrow> nat option \<times> nat" where
  "word_spec off len = (if off = - 1 then None else Some (unat off), unat len)"

definition file_exec :: "nstate exec" where
  "file_exec q st =
     (case sq_op q of
        ReadOp off len \<Rightarrow>
          (case ring_read_one (word_spec off len) st of
             (Inr b, st') \<Rightarrow> ((int (length b), b), st')
           | (Inl x, st') \<Rightarrow> ((- errno_of x, []), st'))
      | WriteOp off b len \<Rightarrow>
          (case sys_write (take (unat len) b) st of
             (Inr n, st') \<Rightarrow> ((int n, []), st')
           | (Inl x, st') \<Rightarrow> ((- errno_of x, []), st'))
      | SpliceOp fd_out len \<Rightarrow> ((-22, []), st))"

lemma errno_of_pos: "0 < errno_of x"
  by (simp add: errno_of_def)

text \<open>An engine result as a result of \<open>Native_File\<close>: the error is only compared as such.\<close>

definition same_result :: "uerror + 'a \<Rightarrow> py_error + 'a \<Rightarrow> bool" where
  "same_result r q = (case q of Inr a \<Rightarrow> r = Inr a | Inl x \<Rightarrow> r = Inl (Errno (errno_of x)))"

lemma ring_read_refines:
  assumes "idle e" and "ring_read_one (word_spec off (word_of_nat sz)) (kr_kern (world e)) = (q, st')"
  shows "\<exists>r e'. submit_uring_read (kring_ops file_exec) fd off sz e = Some (r, e') \<and> idle e' \<and>
           same_result r q \<and> kr_kern (world e') = st'"
proof (cases q)
  case (Inl x)
  with submit_one_idle [OF assms(1), of file_exec fd "ReadOp off (word_of_nat sz)"] assms(2)
  obtain e' where "submit_one (kring_ops file_exec) fd (ReadOp off (word_of_nat sz)) e =
      Some (Inl (Errno (errno_of x)), e')" "idle e'" "kr_kern (world e') = st'"
    by (auto simp: file_exec_def errno_of_pos)
  with Inl show ?thesis by (simp add: submit_uring_read_def same_result_def)
next
  case (Inr d)
  with submit_one_idle [OF assms(1), of file_exec fd "ReadOp off (word_of_nat sz)"] assms(2)
  obtain e' where e': "submit_one (kring_ops file_exec) fd (ReadOp off (word_of_nat sz)) e =
        Some (Inr (next_user_data e, int (length d)), e')"
      "idle e'" "kr_kern (world e') = st'"
      "kr_ans (world e') (next_user_data e) = Some (int (length d), d)"
    by (auto simp: file_exec_def)
  have "take (length d) (overwrite 0 0 d (replicate sz 0)) = d"
    using read_back_overwrite [of d 0] by simp
  with e' have "submit_uring_read (kring_ops file_exec) fd off sz e = Some (Inr d, e')"
    by (simp add: submit_uring_read_def read_buffer_def kr_buffer_def)
  with e' Inr show ?thesis by (simp add: same_result_def)
qed

lemma ring_write_refines:
  assumes "idle e" and "sys_write (take (as_u32 (length b)) b) (kr_kern (world e)) = (q, st')"
  shows "\<exists>r e'. submit_uring_write (kring_ops file_exec) fd b e = Some (r, e') \<and> idle e' \<and>
           same_result r q \<and> kr_kern (world e') = st'"
proof (cases q)
  case (Inl x)
  with submit_one_idle [OF assms(1), of file_exec fd "WriteOp (- 1) b (word_of_nat (length b))"] assms(2)
  obtain e' where "submit_one (kring_ops file_exec) fd (WriteOp (- 1) b (word_of_nat (length b))) e =
      Some (Inl (Errno (errno_of x)), e')" "idle e'" "kr_kern (world e') = st'"
    by (auto simp: file_exec_def errno_of_pos as_u32_def)
  with Inl show ?thesis by (simp add: submit_uring_write_def same_result_def)
next
  case (Inr n)
  with submit_one_idle [OF assms(1), of file_exec fd "WriteOp (- 1) b (word_of_nat (length b))"] assms(2)
  obtain e' where "submit_one (kring_ops file_exec) fd (WriteOp (- 1) b (word_of_nat (length b))) e =
      Some (Inr (next_user_data e, int n), e')" "idle e'" "kr_kern (world e') = st'"
    by (auto simp: file_exec_def as_u32_def)
  with Inr show ?thesis by (simp add: submit_uring_write_def same_result_def)
qed

text \<open>
  C15: on a quiet ring over files, \<open>submit_uring_read\<close> and \<open>submit_uring_write\<close> have exactly the
  effect and the result of the system calls by which \<open>NativeFileIO\<close> is modelled, however the kernel
  schedules the completions, and leave the ring quiet.
\<close>

theorem ring_refines_system_calls:
  assumes "idle e"
  shows "(\<exists>r e'. submit_uring_read (kring_ops file_exec) fd off sz e = Some (r, e') \<and> idle e' \<and>
            same_result r (fst (ring_read_one (word_spec off (word_of_nat sz)) (kr_kern (world e)))) \<and>
            kr_kern (world e') = snd (ring_read_one (word_spec off (word_of_nat sz)) (kr_kern (world e)))) \<and>
         (\<exists>r e'. submit_uring_write (kring_ops file_exec) fd b e = Some (r, e') \<and> idle e' \<and>
            same_result r (fst (sys_write (take (as_u32 (length b)) b) (kr_kern (world e)))) \<and>
            kr_kern (world e') = snd (sys_write (take (as_u32 (length b)) b) (kr_kern (world e))))"
  using ring_read_refines [OF assms prod.collapse [symmetric]]
    ring_write_refines [OF assms prod.collapse [symmetric]]
  by blast

lemma filled_buffer: "take (nat (int (length b))) (overwrite 0 0 b (replicate sz 0)) = b"
  using read_back_overwrite [of b 0] by simp

definition piece :: "bytes \<Rightarrow> 64 word \<times> nat \<Rightarrow> bytes" where
  "piece d = (\<lambda>(off, sz). take sz (drop (unat off) d))"

text \<open>What the kernel answers to a read at an offset.\<close>

lemma file_exec_read:
  assumes "can_read f" and "fs (nf_path f) = Some d" and "unat off < 2 ^ 63" and "sz < 2 ^ 32"
  shows "file_exec \<lparr>sq_fd = fd, sq_op = ReadOp off (word_of_nat sz), sq_id = i\<rparr> (fs, f) =
           ((int (length (piece d (off, sz))), piece d (off, sz)), (fs, f))"
proof -
  have "unat (- 1 :: 64 word) = 2 ^ 64 - 1" by (simp add: unsigned_minus_1_eq_mask mask_eq_exp_minus_1)
  with assms(3) have "off \<noteq> - 1" by auto
  moreover have "unat (word_of_nat sz :: 32 word) = sz" using assms(4) by (rule unat_word_of_nat32)
  ultimately show ?thesis
    using assms by (simp add: file_exec_def word_spec_def ring_read_one_def offset_ok_def
      sys_pread_def nf_data_def as_u32_id piece_def)
qed

lemma file_batch_allowed:
  assumes "can_read f" and "fs (nf_path f) = Some d" and "n = length pieces"
    and "\<forall>(off, sz) \<in> set pieces. unat off < 2 ^ 63 \<and> sz < 2 ^ 32"
    and "distinct ids" and "length ids = n"
    and "\<And>k. k < n \<Longrightarrow> ans (ids ! k) = (int (length (piece d (pieces ! k))), piece d (pieces ! k))"
  shows "\<forall>(my_id, op) \<in> set (zip ids (map (\<lambda>(off, sz). ReadOp off (word_of_nat sz)) pieces)).
           file_exec \<lparr>sq_fd = fd, sq_op = op, sq_id = my_id\<rparr> (fs, f) =
             (ans (sq_id \<lparr>sq_fd = fd, sq_op = op, sq_id = my_id\<rparr>), (fs, f))"
proof clarify
  fix my_id op
  assume "(my_id, op) \<in> set (zip ids (map (\<lambda>(off, sz). ReadOp off (word_of_nat sz)) pieces))"
  then obtain k where k: "k < n" "my_id = ids ! k"
    "op = (case pieces ! k of (off, sz) \<Rightarrow> ReadOp off (word_of_nat sz))"
    using assms(3,6) by (auto simp: in_set_zip)
  obtain off sz where p: "pieces ! k = (off, sz)" by (metis surj_pair)
  from k(1) assms(3) p have "(off, sz) \<in> set pieces" by (metis nth_mem)
  with assms(4) have "unat off < 2 ^ 63" "sz < 2 ^ 32" by auto
  with file_exec_read [where fs = fs and f = f and d = d and off = off and sz = sz] assms(1,2) k p assms(7)
  show "file_exec \<lparr>sq_fd = fd, sq_op = op, sq_id = my_id\<rparr> (fs, f) =
      (ans (sq_id \<lparr>sq_fd = fd, sq_op = op, sq_id = my_id\<rparr>), (fs, f))" by simp
qed

text \<open>Pieces that each come from an answer with the data at its offset.\<close>

lemma answered_pieces:
  assumes each: "list_all2 (\<lambda>(my_id, (off, sz)) x. \<exists>v b. 0 \<le> v \<and> A my_id = Some (v, b) \<and>
      x = take (nat v) (overwrite 0 0 b (replicate sz 0))) (zip ids pieces) ds"
    and len: "length ids = length pieces"
    and own: "\<And>k a. k < length pieces \<Longrightarrow> A (ids ! k) = Some a \<Longrightarrow>
      a = (int (length (piece d (pieces ! k))), piece d (pieces ! k))"
  shows "ds = map (piece d) pieces"
proof (rule nth_equalityI)
  show "length ds = length (map (piece d) pieces)" using each len by (auto dest: list_all2_lengthD)
  fix k assume k: "k < length ds"
  then have k': "k < length pieces" using each len by (auto dest: list_all2_lengthD)
  obtain off sz where p: "pieces ! k = (off, sz)" by (metis surj_pair)
  from list_all2_nthD2 [OF each k] k' len p obtain v b where
    "A (ids ! k) = Some (v, b)" "ds ! k = take (nat v) (overwrite 0 0 b (replicate sz 0))" by auto
  with own [OF k' this(1)] k' show "ds ! k = map (piece d) pieces ! k"
    using filled_buffer by simp
qed

text \<open>
  C13: a batch of reads at offsets gives each caller its own data: on a quiet ring over files the
  pieces come back in the order of the list, each read at its offset, in whatever order the
  kernel completes the requests.
\<close>

theorem read_batch_any_schedule:
  assumes "idle e" and "kr_kern (world e) = (fs, f)" and "can_read f" and "fs (nf_path f) = Some d"
    and "\<forall>(off, sz) \<in> set pieces. unat off < 2 ^ 63 \<and> sz < 2 ^ 32" and "length pieces \<le> 2 ^ 64"
    and "\<forall>i \<in> set (task_ids (next_user_data e) (length pieces)). kr_ans (world e) i = None"
  shows "\<exists>e'. submit_uring_read_batch (kring_ops file_exec) fd pieces e =
           Some (Inr (map (piece d) pieces), e')"
proof -
  let ?ids = "task_ids (next_user_data e) (length pieces)"
  have dist: "distinct ?ids" using assms(6) by (rule distinct_task_ids)
  define ans where "ans = (\<lambda>i. case map_of (zip ?ids pieces) i of
      Some p \<Rightarrow> (int (length (piece d p)), piece d p) | None \<Rightarrow> (0, []))"
  have ans: "ans (?ids ! k) = (int (length (piece d (pieces ! k))), piece d (pieces ! k))"
    if "k < length pieces" for k
    using that dist by (simp add: ans_def map_of_zip_nth)
  note allowed = file_batch_allowed [where fs = fs and ids = ?ids and ans = ans and fd = fd,
      OF assms(3,4) refl assms(5) dist length_task_ids ans]
  note idle = idle_only_reads [OF assms(1,7), unfolded assms(2)]
  have "set ?ids \<inter> rd.tracked (rd.ring_of e) = {}" by (simp add: idle(2))
  from rd.submit_uring_read_batch_returns [where ans = ans and specs = pieces and fd = fd and
      exec = file_exec and st = "(fs, f)" and steady = True and e = e,
      OF idle(1) assms(6) this allowed]
  obtain r e' where r: "submit_uring_read_batch (kring_ops file_exec) fd pieces e = Some (r, e')"
    "rd.eng_ok file_exec (fs, f) ans (set ?ids) True e'"
    "\<And>ds. r = Inr ds \<Longrightarrow> list_all2 (\<lambda>(my_id, (off, sz)) x. \<exists>v b. 0 \<le> v \<and>
       kr_ans (world e') my_id = Some (v, b) \<and> x = take (nat v) (overwrite 0 0 b (replicate sz 0)))
       (zip ?ids pieces) ds"
    "\<And>x. r = Inl x \<Longrightarrow> \<exists>t \<in> set (zip ?ids pieces). rd.refused (fst t) (world e') x"
    using steady_not_faulty [of file_exec] idle(3) by auto
  have own: "(v, b) = ans my_id" if "kr_ans (world e') my_id = Some (v, b)" "my_id \<in> set ?ids" for my_id v b
    using r(2) that by (auto simp: rd.eng_ok_def rd.rs_ok_def rd.ring_of_def only_reads_def)
  show ?thesis
  proof (cases r)
    case (Inl x)
    from r(4) [OF Inl] obtain my_id p v b where t: "(my_id, p) \<in> set (zip ?ids pieces)" "v < 0"
      "kr_ans (world e') my_id = Some (v, b)" by (auto simp: rd.refused_def)
    then obtain k where "k < length pieces" "my_id = ?ids ! k" by (auto simp: in_set_zip)
    with own [OF t(3)] ans t(2) show ?thesis by simp
  next
    case (Inr ds)
    have "ds = map (piece d) pieces"
    proof (rule answered_pieces [OF r(3) [OF Inr]])
      show "a = (int (length (piece d (pieces ! k))), piece d (pieces ! k))"
        if "k < length pieces" "kr_ans (world e') (?ids ! k) = Some a" for k a
        using own [of "?ids ! k" "fst a" "snd a"] that ans by simp
    qed simp
    with r(1) Inr show ?thesis by blast
  qed
qed

text \<open>The kernel takes the second request first.\<close>

theorem read_batch_any_schedule_witness:
  "\<exists>e'. submit_uring_read_batch (kring_ops file_exec) 3 [(2, 1), (0, 2)]
      (demo_engine [(False, [1, 0])] ([''f'' \<mapsto> [1, 2, 3]], demo_native RdOnly 0)) =
    Some (Inr [[3], [1, 2]], e')"
proof -
  let ?fs = "[''f'' \<mapsto> [1, 2, 3]] :: fs"
  let ?e = "demo_engine [(False, [1, 0])] (?fs, demo_native RdOnly 0)"
  have "\<exists>e'. submit_uring_read_batch (kring_ops file_exec) 3 [(2, 1), (0, 2)] ?e =
      Some (Inr (map (piece [1, 2, 3]) [(2, 1), (0, 2)]), e')"
    by (rule read_batch_any_schedule [where fs = ?fs and f = "demo_native RdOnly 0"])
      (simp_all add: demo_engine_idle, simp_all add: demo_native_def can_read_def)
  moreover have "map (piece [1, 2, 3]) [(2, 1), (0, 2)] = [[3], [1, 2]]" by (simp add: piece_def)
  ultimately show ?thesis by (simp only:)
qed

theorem ring_refines_system_calls_witness:
  "\<exists>e'. submit_uring_write (kring_ops file_exec) 3 [9]
      (demo_engine [(False, []), (False, [0])] ([''f'' \<mapsto> [1, 2]], demo_native RdWr 1)) = Some (Inr 1, e') \<and>
     kr_kern (world e') = ([''f'' \<mapsto> [1, 9]], demo_native RdWr 2)"
proof -
  let ?e = "demo_engine [(False, []), (False, [0])] ([''f'' \<mapsto> [1, 2]], demo_native RdWr 1)"
  have "sys_write (take (as_u32 (length [9])) [9]) (kr_kern (world ?e)) =
      (Inr 1, ([''f'' \<mapsto> [1, 9]], demo_native RdWr 2))"
    by (simp add: demo_engine_def demo_native_def sys_write_def can_write_def nf_data_def Let_def
        as_u32_def overwrite_def numeral_2_eq_2)
  moreover have "idle ?e" by (simp add: demo_engine_idle)
  ultimately show ?thesis
    using ring_refines_system_calls [of ?e 3 0 1 "[9]", THEN conjunct2]
    by (auto simp: same_result_def)
qed

lemma overwrite_end_append: "overwrite z (length a + length b) c (a @ b) = a @ b @ c"
  using overwrite_at_end [of z "a @ b" c] by simp

lemmas engine_steps = fetch_add_def with_thread_ring_state_def kr_new_def
  get_configured_ring_size_def push_entry_def um_bind_def try_push_def kr_push_def poll_result_def
  drain_def kr_completion_def insert_all_def kr_submit_def next_decision_def flush_sq_def kr_wait_def
  lift_world_def Let_def

text \<open>
  C39: an interrupted wait can write data twice.  If the wait of \<open>submit_uring_write\<close> is
  interrupted, it returns the error while the request is in flight; \<open>awrite\<close> then appends the data
  through the reopened path, and the kernel still performs the request.  In append mode the file
  ends with the data twice.
\<close>

theorem interrupted_write_twice:
  assumes "can_write f" and "nf_append f" and "fs (nf_path f) = Some d" and "length b < 2 ^ 32"
  shows "\<exists>e'. submit_uring_write (kring_ops file_exec) fd b
             (demo_engine [(False, []), (True, [])] (fs, f)) = Some (Inl (Errno 4), e') \<and>
           fst (kr_kern (complete_one file_exec 0
             ((world e')\<lparr>kr_kern := snd (reopen_append b (kr_kern (world e')))\<rparr>))) (nf_path f) =
             Some (d @ b @ b)"
proof -
  let ?w = "\<lparr>kr_cap = 1024, kr_sq = [], kr_fly = [\<lparr>sq_fd = fd,
      sq_op = WriteOp (- 1) b (word_of_nat (length b)), sq_id = 1\<rparr>], kr_cq = [],
      kr_ans = Map.empty, kr_sched = [], kr_kern = (fs, f)\<rparr>"
  let ?e' = "\<lparr>next_user_data = 2, ring_size_var = None, thread_ring = Some Map.empty, world = ?w\<rparr>"
  have "submit_uring_write (kring_ops file_exec) fd b
      (demo_engine [(False, []), (True, [])] (fs, f)) = Some (Inl (Errno 4), ?e')"
    by (simp add: submit_uring_write_def submit_one_def demo_engine_def engine_steps
        poll_completion_for_id.simps)
  moreover have "unat (word_of_nat (length b) :: 32 word) = length b"
    using assms(4) by (rule unat_word_of_nat32)
  then have "fst (kr_kern (complete_one file_exec 0
      ((world ?e')\<lparr>kr_kern := snd (reopen_append b (kr_kern (world ?e')))\<rparr>))) (nf_path f) =
      Some (d @ b @ b)"
    using assms by (simp add: complete_one_def file_exec_def sys_write_def reopen_append_def
        nf_data_def Let_def overwrite_end_append)
  ultimately show ?thesis by blast
qed

theorem interrupted_write_twice_witness:
  "\<exists>e'. submit_uring_write (kring_ops file_exec) 3 [7]
      (demo_engine [(False, []), (True, [])] ([''f'' \<mapsto> [1]], (demo_native RdWr 0)\<lparr>nf_append := True\<rparr>)) =
      Some (Inl (Errno 4), e')"
  using interrupted_write_twice [of "(demo_native RdWr 0)\<lparr>nf_append := True\<rparr>" "[''f'' \<mapsto> [1]]" "[1]" "[7]" 3]
  by (auto simp: demo_native_def can_write_def)

text \<open>
  C40: a batch of writes is not ordered.  The requests of \<open>submit_uring_write_batch\<close> are independent
  writes at the current position; when the kernel completes the second of two first, the call
  succeeds and the file has the chunks in the other order.
\<close>

theorem write_batch_reorders:
  assumes "can_write f" and "nf_append f" and "fs (nf_path f) = Some d"
    and "length b1 < 2 ^ 32" and "length b2 < 2 ^ 32"
  shows "\<exists>e'. submit_uring_write_batch (kring_ops file_exec) fd [b1, b2]
             (demo_engine [(False, [1])] (fs, f)) = Some (Inr [length b1, length b2], e') \<and>
           fst (kr_kern (world e')) (nf_path f) = Some (d @ b2 @ b1)"
proof -
  have len: "unat (word_of_nat (length b1) :: 32 word) = length b1"
    "unat (word_of_nat (length b2) :: 32 word) = length b2"
    using assms(4,5) by (simp_all only: unat_word_of_nat32)
  let ?q1 = "\<lparr>sq_fd = fd, sq_op = WriteOp (- 1) b1 (word_of_nat (length b1)), sq_id = 1\<rparr>"
  let ?q2 = "\<lparr>sq_fd = fd, sq_op = WriteOp (- 1) b2 (word_of_nat (length b2)), sq_id = 2\<rparr>"
  have first: "file_exec ?q2 (fs, f) = ((int (length b2), []), snd (sys_write b2 (fs, f)))"
    "file_exec ?q1 (snd (sys_write b2 (fs, f))) =
       ((int (length b1), []), snd (sys_write b1 (snd (sys_write b2 (fs, f)))))"
    using assms(1) len by (simp_all add: file_exec_def sys_write_def Let_def can_write_def)
  have data: "fst (snd (sys_write b1 (snd (sys_write b2 (fs, f))))) (nf_path f) = Some (d @ b2 @ b1)"
    using assms(1-3)
    by (simp add: sys_write_def Let_def nf_data_def can_write_def overwrite_end_append)
  show ?thesis
    using first data
    by (simp add: submit_uring_write_batch_def demo_engine_def engine_steps push_batch_def
        task_ids_def poll_completion_for_id.simps complete_one_def numeral_2_eq_2)
qed

theorem write_batch_reorders_witness:
  "\<exists>e'. submit_uring_write_batch (kring_ops file_exec) 3 [[7], [8]]
      (demo_engine [(False, [1])] ([''f'' \<mapsto> [1]], (demo_native RdWr 0)\<lparr>nf_append := True\<rparr>)) =
      Some (Inr [1, 1], e') \<and> fst (kr_kern (world e')) ''f'' = Some [1, 8, 7]"
  using write_batch_reorders [of "(demo_native RdWr 0)\<lparr>nf_append := True\<rparr>" "[''f'' \<mapsto> [1]]" "[1]" "[7]" "[8]" 3]
  by (auto simp: demo_native_def can_write_def)

end
