(* ===== verification/CPython_File.thy ===== *)
theory CPython_File
  imports Native_File Fallback_Stream
begin

text \<open>
  The binary files of the standard library, as \<open>FallbackFileIO\<close> wraps them: CPython's buffered
  reader, writer and random over a descriptor of the operating system (after \<open>_pyio\<close>; the
  descriptor and its system calls are those of \<open>Native_File\<close>).  One record serves the three
  classes, which differ in what they allow.  A regular file takes a write in one system call
  and answers a read with all it has, so the loops of \<open>_pyio\<close> run once.
\<close>

section \<open>State\<close>

record cpbuf =
  cp_size :: nat
  cp_rbuf :: bytes
  cp_wbuf :: bytes
  cp_closed :: bool
  cp_readable :: bool
  cp_writable :: bool

type_synonym cpstate = "nstate \<times> cpbuf"

text \<open>A newly opened file: nothing read ahead, nothing pending.\<close>

definition cp_new :: "nat \<Rightarrow> access \<Rightarrow> cpbuf" where
  "cp_new bs acc = \<lparr>cp_size = bs, cp_rbuf = [], cp_wbuf = [], cp_closed = False,
     cp_readable = (acc \<noteq> WrOnly), cp_writable = (acc \<noteq> RdOnly)\<rparr>"

definition cp_check :: "(cpstate, 'a) io \<Rightarrow> (cpstate, 'a) io" where
  "cp_check m = (\<lambda>st. if cp_closed (snd st)
                     then (Inl (ValueError ''I/O operation on closed file.''), st) else m st)"

text \<open>A system call on the descriptor below the buffer.\<close>

definition os_call :: "(nstate, 'a) io \<Rightarrow> (cpstate, 'a) io" where
  "os_call m = on_fst m"

definition os_lseek :: "int \<Rightarrow> int \<Rightarrow> (nstate, int) io" where
  "os_lseek off whence = (\<lambda>st.
     if whence = 0 \<and> off < 0 then (Inl (OSError ''Invalid argument''), st)
     else case to_seek_from whence off of
            Inl e \<Rightarrow> (Inl e, st)
          | Inr sf \<Rightarrow> sys_seek sf st)"

section \<open>Operations\<close>

definition cp_flush_pending :: "(cpstate, unit) io" where
  "cp_flush_pending = (\<lambda>(st, b).
     if cp_wbuf b = [] then (Inr (), (st, b))
     else (case sys_write (cp_wbuf b) st of
         (Inl e, st') \<Rightarrow> (Inl e, (st', b))
       | (Inr n, st') \<Rightarrow> (Inr (), (st', b\<lparr>cp_wbuf := drop n (cp_wbuf b)\<rparr>))))"

definition cp_flush :: "(cpstate, unit) io" where
  "cp_flush = cp_check cp_flush_pending"

text \<open>Data that was read ahead is given back by moving the descriptor.\<close>

definition cp_unread :: "(cpstate, unit) io" where
  "cp_unread = (\<lambda>(st, b).
     if cp_rbuf b = [] then (Inr (), (st, b))
     else (case os_lseek (- int (length (cp_rbuf b))) 1 st of
         (Inl e, st') \<Rightarrow> (Inl e, (st', b))
       | (Inr _, st') \<Rightarrow> (Inr (), (st', b\<lparr>cp_rbuf := []\<rparr>))))"

definition cp_fill :: "nat \<Rightarrow> (cpstate, pydata) io" where
  "cp_fill k = (\<lambda>(st, b).
     if k \<le> length (cp_rbuf b) then
       (Inr (Bytes (take k (cp_rbuf b))), (st, b\<lparr>cp_rbuf := drop k (cp_rbuf b)\<rparr>))
     else (case sys_read (max (cp_size b) k) st of
         (Inl e, st') \<Rightarrow> (Inl e, (st', b))
       | (Inr c, st') \<Rightarrow>
           (Inr (Bytes (take k (cp_rbuf b @ c))), (st', b\<lparr>cp_rbuf := drop k (cp_rbuf b @ c)\<rparr>))))"

definition cp_readall :: "(cpstate, pydata) io" where
  "cp_readall = (\<lambda>(st, b).
     case sys_read_to_end st of
       (Inl e, st') \<Rightarrow> (Inl e, (st', b\<lparr>cp_rbuf := []\<rparr>))
     | (Inr c, st') \<Rightarrow> (Inr (Bytes (cp_rbuf b @ c)), (st', b\<lparr>cp_rbuf := []\<rparr>)))"

definition cp_read :: "int \<Rightarrow> (cpstate, pydata) io" where
  "cp_read n = cp_check (\<lambda>st.
     if \<not> cp_readable (snd st) then (Inl (UnsupportedOperation ''read''), st)
     else io_bind cp_flush_pending (\<lambda>_.
            if n < -1 then io_raise (ValueError ''read length must be non-negative or -1'')
            else if n = -1 then cp_readall else cp_fill (nat n)) st)"

definition cp_readinto :: "nat \<Rightarrow> (cpstate, bytes) io" where
  "cp_readinto n = io_bind (cp_read (int n)) (\<lambda>d.
     case d of Bytes b \<Rightarrow> io_return b | Str _ \<Rightarrow> io_raise (TypeError ''bytes''))"

definition cp_flush_if_over :: "(cpstate, unit) io" where
  "cp_flush_if_over = (\<lambda>(st, b).
     if cp_size b < length (cp_wbuf b) then cp_flush_pending (st, b) else (Inr (), (st, b)))"

definition cp_append :: "bytes \<Rightarrow> (cpstate, unit) io" where
  "cp_append d = (\<lambda>(st, b). (Inr (), (st, b\<lparr>cp_wbuf := cp_wbuf b @ d\<rparr>)))"

definition cp_write :: "pydata \<Rightarrow> (cpstate, int) io" where
  "cp_write d = cp_check (\<lambda>st.
     if \<not> cp_writable (snd st) then (Inl (UnsupportedOperation ''write''), st)
     else (case d of
         Str _ \<Rightarrow> (Inl (TypeError ''can't write str to binary stream''), st)
       | Bytes c \<Rightarrow>
           io_bind cp_unread (\<lambda>_.
           io_bind cp_flush_if_over (\<lambda>_.
           io_bind (cp_append c) (\<lambda>_.
           io_bind cp_flush_if_over (\<lambda>_. io_return (int (length c)))))) st))"

definition cp_seek :: "int \<Rightarrow> int \<Rightarrow> (cpstate, int) io" where
  "cp_seek off whence =
     (if whence \<noteq> 0 \<and> whence \<noteq> 1 \<and> whence \<noteq> 2 then io_raise (ValueError ''invalid whence value'')
      else io_bind cp_flush (\<lambda>_.
           io_bind cp_unread (\<lambda>_. os_call (os_lseek off whence))))"

definition cp_tell :: "(cpstate, int) io" where
  "cp_tell = cp_check (\<lambda>(st, b).
     case os_lseek 0 1 st of
       (Inl e, st') \<Rightarrow> (Inl e, (st', b))
     | (Inr p, st') \<Rightarrow>
         (Inr (if cp_wbuf b \<noteq> [] then p + int (length (cp_wbuf b))
               else p - int (length (cp_rbuf b))), (st', b)))"

text \<open>\<open>close\<close> flushes, and closes the descriptor even if that fails.\<close>

definition cp_close :: "(cpstate, unit) io" where
  "cp_close = (\<lambda>st.
     if cp_closed (snd st) then (Inr (), st)
     else (case cp_flush_pending st of
       (r, ((fs, f), b)) \<Rightarrow> (r, ((fs, f\<lparr>nf_open := False\<rparr>), b\<lparr>cp_closed := True\<rparr>))))"

definition cp_stream :: "int \<Rightarrow> cpstate file_stream" where
  "cp_stream fd = \<lparr>
     s_write = Some (\<lambda>_. cp_write), s_awrite = None,
     s_fileno = Some (cp_check (io_return fd)),
     s_read = Some (\<lambda>_. cp_read), s_close = Some cp_close, s_flush = Some cp_flush,
     s_aread = None, s_aclose = None, s_aflush = None,
     s_aread_batch = None, s_awrite_batch = None, s_asplice = None,
     s_readinto = Some cp_readinto, s_seek = Some cp_seek, s_tell = Some cp_tell,
     s_readable = Some (cp_check (\<lambda>st. (Inr (cp_readable (snd st)), st))),
     s_writable = Some (cp_check (\<lambda>st. (Inr (cp_writable (snd st)), st))),
     s_seekable = Some (cp_check (io_return True)),
     s_isatty = Some (cp_check (io_return False)),
     s_closed = Some (\<lambda>st. (Inr (cp_closed (snd st)), st))\<rparr>"

end
