(* ===== verification/File_Objects.thy ===== *)
theory File_Objects
  imports Open_Patch CPython_File
begin

text \<open>
  What \<open>open\<close> returns after patching, put together: a buffered object (\<open>obuf\<close>, one of the three
  classes of \<open>buffered.py\<close>) over a raw stream (\<open>raw_obj\<close>), which is a \<open>NativeFileIO\<close> or a
  \<open>FallbackFileIO\<close> around a file of the standard library, over the file system.  The objects of a
  program live in a table (\<open>world\<close>), so that one call may work on two of them and the calls of
  several tasks may alternate.
\<close>

section \<open>The raw stream\<close>

text \<open>For a native stream the flag says whether ring operations succeed on it.\<close>

datatype raw_obj = NativeObj bool native_file | PoolObj native_file cpbuf

type_synonym rstate = "fs \<times> raw_obj"

text \<open>A method call goes to the class of the object.\<close>

definition dispatch :: "(bool \<Rightarrow> (nstate, 'a) io) \<Rightarrow> (cpstate, 'a) io \<Rightarrow> (rstate, 'a) io" where
  "dispatch native pool = (\<lambda>(fs, r).
     case r of
       NativeObj ring f \<Rightarrow>
         (case native ring (fs, f) of (x, (fs', f')) \<Rightarrow> (x, (fs', NativeObj ring f')))
     | PoolObj f b \<Rightarrow>
         (case pool ((fs, f), b) of (x, ((fs', f'), b')) \<Rightarrow> (x, (fs', PoolObj f' b'))))"

abbreviation py_file :: "cpstate file_stream" where
  "py_file \<equiv> cp_stream 0"

text \<open>
  What a buffered object uses of its raw stream; the descriptor number is kept in the buffered
  object.  Members that are not looked at are left out.
\<close>

definition raw_view :: "rstate file_stream" where
  "raw_view = \<lparr>
     s_write = Some (\<lambda>l d. dispatch (\<lambda>_. nf_write d) (fallback_write py_file l d)),
     s_awrite = Some (\<lambda>d. dispatch (\<lambda>ring. nf_awrite ring d) (fallback_write py_file False d)),
     s_fileno = None,
     s_read = Some (\<lambda>l n. dispatch (\<lambda>_. nf_read n) (fallback_read py_file l n)),
     s_close = Some (dispatch (\<lambda>_. nf_close) (fallback_close py_file)),
     s_flush = Some (dispatch (\<lambda>_. nf_flush) (fallback_flush py_file)),
     s_aread = Some (\<lambda>n. dispatch (\<lambda>ring. nf_aread ring n) (fallback_read py_file False n)),
     s_aclose = None, s_aflush = None,
     s_aread_batch = Some (\<lambda>sp. dispatch (\<lambda>ring. nf_aread_batch ring sp)
                                  (loop_aread (fallback_read py_file False) sp)),
     s_awrite_batch = Some (\<lambda>ds. dispatch (\<lambda>ring. nf_awrite_batch ring ds)
                                  (loop_awrite (fallback_write py_file False) ds)),
     s_asplice = None,
     s_readinto = None,
     s_seek = Some (\<lambda>off wh. dispatch (\<lambda>_. nf_seek off wh) (fallback_seek py_file off wh)),
     s_tell = Some (dispatch (\<lambda>_. nf_tell) (fallback_tell py_file)),
     s_readable = None, s_writable = None, s_seekable = None, s_isatty = None,
     s_closed = Some (dispatch (\<lambda>_ st. (Inr (nf_closed st), st)) (fallback_closed py_file))\<rparr>"

text \<open>The members as functions.\<close>

definition rw_write where "rw_write = the (s_write raw_view) True"
definition rw_read where "rw_read = the (s_read raw_view) True"
definition rw_close where "rw_close = the (s_close raw_view)"
definition rw_flush where "rw_flush = the (s_flush raw_view)"
definition rw_seek where "rw_seek = the (s_seek raw_view)"

definition rw_closed :: "rstate \<Rightarrow> bool" where
  "rw_closed s = (fst (the (s_closed raw_view) s) = Inr True)"

section \<open>The buffered object\<close>

record obuf =
  ob_kind :: buf_kind
  ob_size :: nat
  ob_rbuf :: bytes
  ob_wbuf :: bytes
  ob_fd :: int

type_synonym hstate = "obuf \<times> rstate"

text \<open>
  A sync method of the standard library on the read, respectively write, buffer.  Its loop could
  run for ever over some raw streams; \<open>sync_methods_return\<close> below shows that over these it never
  does, so that the last branch is not taken.
\<close>

definition no_return :: py_error where
  "no_return = RuntimeError ''does not return''"

definition with_rbuf :: "(readbuf \<times> rstate, 'a) blocking_io \<Rightarrow> (hstate, 'a) io" where
  "with_rbuf m = (\<lambda>(o1, s).
     case m (\<lparr>rb_size = ob_size o1, rb_data = ob_rbuf o1\<rparr>, s) of
       Some (r, (b, s')) \<Rightarrow> (r, (o1\<lparr>ob_rbuf := rb_data b\<rparr>, s'))
     | None \<Rightarrow> (Inl no_return, (o1, s)))"

definition with_wbuf :: "(writebuf \<times> rstate, 'a) blocking_io \<Rightarrow> (hstate, 'a) io" where
  "with_wbuf m = (\<lambda>(o1, s).
     case m (\<lparr>wb_size = ob_size o1, wb_data = ob_wbuf o1\<rparr>, s) of
       Some (r, (b, s')) \<Rightarrow> (r, (o1\<lparr>ob_wbuf := wb_data b\<rparr>, s'))
     | None \<Rightarrow> (Inl no_return, (o1, s)))"

text \<open>A choice by the class of the object.\<close>

definition by_kind :: "(hstate, 'a) io \<Rightarrow> (hstate, 'a) io \<Rightarrow> (hstate, 'a) io \<Rightarrow> (hstate, 'a) io" where
  "by_kind reader writer random = (\<lambda>st.
     case ob_kind (fst st) of BufReader \<Rightarrow> reader st | BufWriter \<Rightarrow> writer st
     | BufRandom \<Rightarrow> random st)"

definition unless_closed :: "string \<Rightarrow> (hstate, 'a) io \<Rightarrow> (hstate, 'a) io" where
  "unless_closed msg m = (\<lambda>st. if rw_closed (snd st) then (Inl (ValueError msg), st) else m st)"

definition ob_flush :: "(hstate, unit) io" where
  "ob_flush = unless_closed ''flush on closed file''
     (by_kind (on_snd rw_flush) (with_wbuf (writer_flush raw_view True))
        (with_wbuf (writer_flush raw_view True)))"

definition ob_reset :: "(hstate, unit) io" where
  "ob_reset = (\<lambda>(o1, s). (Inr (), (o1\<lparr>ob_rbuf := []\<rparr>, s)))"

definition ob_unread :: "(hstate, unit) io" where
  "ob_unread = (\<lambda>(o1, s).
     if ob_rbuf o1 = [] then (Inr (), (o1, s))
     else io_bind (on_snd (rw_seek (- int (length (ob_rbuf o1))) 1)) (\<lambda>_. ob_reset) (o1, s))"

definition ob_read :: "int \<Rightarrow> (hstate, pydata) io" where
  "ob_read n = by_kind (with_rbuf (reader_read raw_view True n))
     (io_raise (UnsupportedOperation ''read''))
     (io_bind ob_flush (\<lambda>_. with_rbuf (reader_read raw_view True n)))"

definition ob_write :: "pydata \<Rightarrow> (hstate, int) io" where
  "ob_write d = by_kind (io_raise (UnsupportedOperation ''write''))
     (unless_closed ''write to closed file'' (with_wbuf (writer_write raw_view True d)))
     (io_bind ob_unread (\<lambda>_.
        unless_closed ''write to closed file'' (with_wbuf (writer_write raw_view True d))))"

definition ob_seek :: "int \<Rightarrow> int \<Rightarrow> (hstate, int) io" where
  "ob_seek off whence =
     (if whence \<noteq> 0 \<and> whence \<noteq> 1 \<and> whence \<noteq> 2 then io_raise (ValueError ''invalid whence value'')
      else by_kind
        (\<lambda>(o1, s). io_bind
           (on_snd (rw_seek (if whence = 1 then off - int (length (ob_rbuf o1)) else off) whence))
           (\<lambda>p. io_bind ob_reset (\<lambda>_. io_return p)) (o1, s))
        (io_bind ob_flush (\<lambda>_. on_snd (rw_seek off whence)))
        (io_bind ob_flush (\<lambda>_. io_bind ob_unread (\<lambda>_.
           io_bind (on_snd (rw_seek off whence)) (\<lambda>p. io_bind ob_reset (\<lambda>_. io_return p))))))"

text \<open>\<open>close\<close>: flush, and close the raw stream even if that fails.\<close>

definition ob_close :: "(hstate, unit) io" where
  "ob_close = (\<lambda>st.
     if rw_closed (snd st) then (Inr (), st)
     else (case ob_flush st of (r, st') \<Rightarrow>
         (case on_snd rw_close st' of
            (Inl e, st'') \<Rightarrow> (Inl e, st'')
          | (Inr _, st'') \<Rightarrow> (r, st''))))"

section \<open>The async methods\<close>

definition ob_aread :: "int \<Rightarrow> (hstate, pydata) io" where
  "ob_aread n = by_kind (areader_aread raw_view ob_read n) (ob_read n)
     (arandom_aread raw_view ob_read n)"

definition ob_awrite :: "pydata \<Rightarrow> (hstate, int) io" where
  "ob_awrite d = by_kind (ob_write d) (awriter_awrite raw_view ob_write d)
     (arandom_awrite raw_view ob_write d)"

definition ob_aread_batch :: "read_spec list \<Rightarrow> (hstate, pydata list) io" where
  "ob_aread_batch specs = by_kind (areader_aread_batch raw_view ob_read specs)
     (loop_aread ob_read specs) (arandom_aread_batch raw_view ob_read specs)"

definition ob_awrite_batch :: "pydata list \<Rightarrow> (hstate, int list) io" where
  "ob_awrite_batch ds = by_kind (loop_awrite ob_write ds) (awriter_awrite_batch raw_view ob_write ds)
     (arandom_awrite_batch raw_view ob_write ds)"

text \<open>\<open>aflush\<close> and \<open>aclose\<close> of \<open>AsyncIOBase\<close> run the sync method in a thread.\<close>

definition ob_aflush :: "(hstate, unit) io" where
  "ob_aflush = ob_flush"

definition ob_aclose :: "(hstate, unit) io" where
  "ob_aclose = ob_close"

section \<open>The sync methods return\<close>

text \<open>
  A write to these raw streams takes all it is given, and a read without a size leaves nothing
  for the next one.
\<close>

lemma fallback_py_file:
  "fallback_read (cp_stream fd) l = cp_read" "fallback_write (cp_stream fd) l = cp_write"
  by (simp_all add: fun_eq_iff cp_stream_def fallback_write_def fallback_read_def)

lemma raw_view_simps:
  "s_write raw_view = Some (\<lambda>_ d. dispatch (\<lambda>_. nf_write d) (cp_write d))"
  "s_awrite raw_view = Some (\<lambda>d. dispatch (\<lambda>ring. nf_awrite ring d) (cp_write d))"
  "s_read raw_view = Some (\<lambda>_ n. dispatch (\<lambda>_. nf_read n) (cp_read n))"
  "s_aread raw_view = Some (\<lambda>n. dispatch (\<lambda>ring. nf_aread ring n) (cp_read n))"
  "s_aread_batch raw_view = Some (\<lambda>sp. dispatch (\<lambda>ring. nf_aread_batch ring sp) (loop_aread cp_read sp))"
  "s_awrite_batch raw_view = Some (\<lambda>ds. dispatch (\<lambda>ring. nf_awrite_batch ring ds) (loop_awrite cp_write ds))"
  by (simp_all add: raw_view_def fallback_py_file)

lemma rw_simps:
  "rw_write d = dispatch (\<lambda>_. nf_write d) (cp_write d)"
  "rw_read n = dispatch (\<lambda>_. nf_read n) (cp_read n)"
  "rw_close = dispatch (\<lambda>_. nf_close) cp_close"
  "rw_flush = dispatch (\<lambda>_. nf_flush) cp_flush"
  "rw_seek off wh = dispatch (\<lambda>_. nf_seek off wh) (cp_seek off wh)"
  by (simp_all add: rw_write_def rw_read_def rw_close_def rw_flush_def rw_seek_def raw_view_def
      cp_stream_def fallback_write_def fallback_read_def fallback_close_def fallback_flush_def
      fallback_seek_def)

lemma rw_closed_simps [simp]:
  "rw_closed (fs, NativeObj ring f) = (\<not> nf_open f)"
  "rw_closed (fs, PoolObj f b) = cp_closed b"
  by (simp_all add: rw_closed_def raw_view_def dispatch_def nf_closed_def cp_stream_def
      fallback_closed_def)

lemma cp_write_all: "cp_write (Bytes c) st = (Inr n, st') \<Longrightarrow> n = int (length c)"
  by (auto simp: cp_write_def cp_check_def io_defs split: if_splits prod.splits sum.splits)

lemma nf_write_all: "nf_write (Bytes c) st = (Inr n, st') \<Longrightarrow> n = int (length c)"
  by (auto simp: nf_write_def nf_guard_def to_bytes_def io_defs split: if_splits prod.splits sum.splits)

lemma dispatch_result:
  assumes "dispatch native pool s = (Inr n, s')"
    and "\<And>ring st st'. native ring st = (Inr n, st') \<Longrightarrow> P n"
    and "\<And>st st'. pool st = (Inr n, st') \<Longrightarrow> P n"
  shows "P n"
  using assms by (cases s; cases "snd s") (auto simp: dispatch_def split: prod.splits)

lemma raw_write_all:
  "dispatch (\<lambda>_. nf_write (Bytes c)) (cp_write (Bytes c)) s = (Inr n, s') \<Longrightarrow> n = int (length c)"
  by (erule dispatch_result) (auto dest: nf_write_all cp_write_all)

lemma flush_loop_returns: "flush_loop raw_view l pend s \<noteq> None"
proof (cases "pend = []")
  case True
  then show ?thesis by (simp add: flush_loop.simps)
next
  case False
  obtain r s' where one: "dispatch (\<lambda>_. nf_write (Bytes pend)) (cp_write (Bytes pend)) s = (r, s')"
    by (metis surj_pair)
  show ?thesis
  proof (cases r)
    case (Inl e)
    with one False show ?thesis by (subst flush_loop.simps) (simp add: raw_view_simps)
  next
    case (Inr n)
    with one have "n = int (length pend)" using raw_write_all by blast
    with one Inr False show ?thesis
      by (subst flush_loop.simps) (simp add: raw_view_simps flush_loop.simps)
  qed
qed

lemma nf_read_all_end:
  assumes "nf_read (-1) st = (Inr d, st')"
  shows "nf_read (-1) st' = (Inr (Bytes []), st')"
  using assms
  by (cases st) (auto simp: nf_read_def nf_guard_def sys_read_to_end_def sys_read_def Let_def
      bad_fd_def nf_data_def can_read_def io_defs split: if_splits option.splits)

lemma sys_read_end:
  assumes "sys_read_to_end st = (Inr d, st')"
  shows "sys_read_to_end st' = (Inr [], st')"
  using assms
  by (cases st) (auto simp: sys_read_to_end_def sys_read_def Let_def bad_fd_def nf_data_def
      can_read_def io_defs split: if_splits option.splits)

lemma cp_flush_pending_all:
  "cp_flush_pending st = (Inr (), st') \<Longrightarrow>
   cp_wbuf (snd st') = [] \<and> cp_closed (snd st') = cp_closed (snd st) \<and>
   cp_readable (snd st') = cp_readable (snd st)"
  by (cases st) (auto simp: cp_flush_pending_def sys_write_def Let_def bad_fd_def io_defs
      split: if_splits prod.splits sum.splits)

lemma cp_read_all_end:
  assumes "cp_read (-1) st = (Inr d, st')"
  shows "cp_read (-1) st' = (Inr (Bytes []), st')"
proof -
  from assms obtain st1 where flushed: "cp_flush_pending st = (Inr (), st1)"
    and all: "cp_readall st1 = (Inr d, st')" and ok: "\<not> cp_closed (snd st)" "cp_readable (snd st)"
    by (auto simp: cp_read_def cp_check_def io_bind_apply split: if_splits prod.splits sum.splits)
  note b1 = cp_flush_pending_all [OF flushed]
  obtain n1 b where st1: "st1 = (n1, b)" by (cases st1)
  from all obtain c n2 where "sys_read_to_end n1 = (Inr c, n2)" "st' = (n2, b\<lparr>cp_rbuf := []\<rparr>)"
    by (auto simp: cp_readall_def st1 split: prod.splits sum.splits)
  with b1 ok show ?thesis
    by (simp add: st1 cp_read_def cp_check_def io_bind_apply cp_flush_pending_def cp_readall_def
        sys_read_end)
qed

lemma read_all_returns: "read_all_loop raw_view l acc s \<noteq> None"
proof -
  let ?rd = "dispatch (\<lambda>_. nf_read (-1)) (cp_read (-1))"
  obtain r s' where one: "?rd s = (r, s')" by (metis surj_pair)
  show ?thesis
  proof (cases r)
    case (Inl e)
    with one show ?thesis by (subst read_all_loop.simps) (simp add: raw_view_simps)
  next
    case (Inr d)
    have two: "?rd s' = (Inr (Bytes []), s')"
      using one unfolding Inr
      by (cases s; cases "snd s")
        (auto simp: dispatch_def dest: nf_read_all_end cp_read_all_end split: prod.splits)
    show ?thesis
    proof (cases d)
      case (Str t)
      with one Inr show ?thesis by (subst read_all_loop.simps) (simp add: raw_view_simps)
    next
      case (Bytes c)
      have end1: "read_all_loop raw_view l acc' s' = Some (Inr acc', s')" for acc'
        using two by (subst read_all_loop.simps) (simp add: raw_view_simps)
      show ?thesis
        using one Inr Bytes end1 by (subst read_all_loop.simps) (simp add: raw_view_simps)
    qed
  qed
qed


end
