(* ===== verification/Open_Files.thy ===== *)
theory Open_Files
  imports File_Objects
begin

text \<open>
  Opening files and working on them, end to end: \<open>open\<close> after patching on a chosen engine, the
  table of open objects, and the contract \<open>raw_file\<close> that the two engines share: a file opened
  with \<open>w+b\<close> collects what is written asynchronously, after \<open>seek(0)\<close> it can be read, and closing
  it leaves the data on disk.  The contract is interpreted for the thread-pool engine and for the
  native engine, with a ring and without; its consequences for buffered objects are proved once.
\<close>

section \<open>Opening\<close>

record engine_choice =
  en_native :: bool
  en_ring :: bool

fun path_of :: "file_arg \<Rightarrow> string option" where
  "path_of (StrPath p) = Some p"
| "path_of (BytesPath p) = Some p"
| "path_of (FsPath p) = Some p"
| "path_of _ = None"

text \<open>The descriptor that \<open>NativeFileIO::new\<close> holds, from the mode it has parsed.\<close>

definition native_desc :: "string \<Rightarrow> file_mode \<Rightarrow> native_file" where
  "native_desc p fm =
     (let fl = rust_flags (configure_open_options fm open_options_new) in
      \<lparr>nf_open = True, nf_path = p, nf_mode = fm, nf_pos = 0,
       nf_access = (case fl of Some f \<Rightarrow> of_access f | None \<Rightarrow> RdOnly),
       nf_append = (case fl of Some f \<Rightarrow> of_append f | None \<Rightarrow> False)\<rparr>)"

text \<open>The object behind what \<open>create_default_file_io\<close> returned, where it is a binary file.\<close>

fun raw_object :: "bool \<Rightarrow> opened \<Rightarrow> raw_obj option" where
  "raw_object ring (NativeStream p fm) = Some (NativeObj ring (native_desc p fm))"
| "raw_object ring (FallbackStream (OrigOpen f mode closefd None)) =
     (case (path_of f, py_open_flags mode) of
        (Some p, Some fl) \<Rightarrow>
          if is_binary mode
          then Some (PoolObj (nf_new p mode fl) (cp_new default_buffer_size (of_access fl)))
          else None
      | _ \<Rightarrow> None)"
| "raw_object ring _ = None"

definition new_obuf :: "buf_kind \<Rightarrow> nat \<Rightarrow> int \<Rightarrow> obuf" where
  "new_obuf kind bs fd = \<lparr>ob_kind = kind, ob_size = bs, ob_rbuf = [], ob_wbuf = [], ob_fd = fd\<rparr>"

text \<open>
  \<open>open(path, mode)\<close> for the modes that give a buffered object, or text over one; whether it is
  text is known from the mode.
\<close>

definition py_open :: "engine_choice \<Rightarrow> string \<Rightarrow> string \<Rightarrow> int \<Rightarrow> (fs, obuf \<times> raw_obj) io" where
  "py_open e path mode fd =
     io_bind (fs_patched_open (en_native e) (\<lambda>_ _. io_raise (OSError ''not a path''))
                (StrPath path) (plain_args mode (-1))) (\<lambda>l.
       let found = (\<lambda>kind bs r. case raw_object (en_ring e) r of
                      Some ro \<Rightarrow> io_return (new_obuf kind bs fd, ro)
                    | None \<Rightarrow> io_raise (OSError ''not a binary file'')) in
       case l of
         BufLayer kind bs r \<Rightarrow> found kind bs r
       | TextLayer kind bs r _ _ _ \<Rightarrow> found kind bs r
       | RawLayer r \<Rightarrow> io_raise (OSError ''unbuffered''))"

section \<open>The table of objects\<close>

text \<open>Variables are numbered; the object of variable \<open>k\<close> has the descriptor \<open>3 + k\<close>.\<close>

type_synonym world = "fs \<times> (nat \<rightharpoonup> obuf \<times> raw_obj)"

definition w_open :: "engine_choice \<Rightarrow> nat \<Rightarrow> string \<Rightarrow> string \<Rightarrow> (world, unit) io" where
  "w_open e k path mode = (\<lambda>(fs, H).
     case py_open e path mode (3 + int k) fs of
       (Inl er, fs') \<Rightarrow> (Inl er, (fs', H))
     | (Inr ob, fs') \<Rightarrow> (Inr (), (fs', H(k \<mapsto> ob))))"

definition at :: "nat \<Rightarrow> (hstate, 'a) io \<Rightarrow> (world, 'a) io" where
  "at k m = (\<lambda>(fs, H).
     case H k of
       None \<Rightarrow> (Inl (RuntimeError ''unbound variable''), (fs, H))
     | Some (o1, r) \<Rightarrow>
         (case m (o1, (fs, r)) of (x, (o1', (fs', r'))) \<Rightarrow> (x, (fs', H(k \<mapsto> (o1', r'))))))"

definition ob_fileno :: "(hstate, int) io" where
  "ob_fileno = unless_closed ''I/O operation on closed file'' (\<lambda>st. (Inr (ob_fd (fst st)), st))"

text \<open>An object as the target of a splice.\<close>

definition w_target :: "nat \<Rightarrow> world target_ops" where
  "w_target k = \<lparr>s_write = Some (\<lambda>_ d. at k (ob_write d)), s_awrite = Some (\<lambda>d. at k (ob_awrite d)),
     s_fileno = Some (at k ob_fileno)\<rparr>"

definition w_asplice ::
  "(int \<Rightarrow> pydata \<Rightarrow> (world, int) io) \<Rightarrow> nat \<Rightarrow> nat \<Rightarrow> int \<Rightarrow> (world, int) io" where
  "w_asplice osw src dst sz =
     base_asplice osw None (\<lambda>n. at src (ob_aread n)) (ObjTarget (w_target dst)) sz"

section \<open>The contract of the engines\<close>

definition rw_awrite where "rw_awrite = the (s_awrite raw_view)"
definition rw_aread where "rw_aread = the (s_aread raw_view)"
definition rw_aread_batch where "rw_aread_batch = the (s_aread_batch raw_view)"
definition rw_awrite_batch where "rw_awrite_batch = the (s_awrite_batch raw_view)"

text \<open>Only the file \<open>p\<close> may have changed.\<close>

definition same_else :: "string \<Rightarrow> fs \<Rightarrow> fs \<Rightarrow> bool" where
  "same_else p fs fs' = (\<forall>q. q \<noteq> p \<longrightarrow> fs' q = fs q)"

lemma same_else_refl [simp]: "same_else p fs fs"
  by (simp add: same_else_def)

lemma same_else_upd [simp]: "same_else p fs (fs(p := x))"
  by (simp add: same_else_def)

lemma same_else_trans: "same_else p a b \<Longrightarrow> same_else p b c \<Longrightarrow> same_else p a c"
  by (simp add: same_else_def)

text \<open>
  \<open>app p c\<close>: the stream on \<open>p\<close> has collected \<open>c\<close>; \<open>rdp p c k\<close>: it can be read, the next async
  read starts \<open>k\<close> bytes in; \<open>fin p c\<close>: closing it leaves \<open>c\<close> in the file.  Where the engines
  differ, in whether a read moves on, the contract leaves it open.
\<close>

locale raw_file =
  fixes e :: engine_choice
    and app :: "string \<Rightarrow> bytes \<Rightarrow> rstate \<Rightarrow> bool"
    and rdp :: "string \<Rightarrow> bytes \<Rightarrow> nat \<Rightarrow> rstate \<Rightarrow> bool"
    and fin :: "string \<Rightarrow> bytes \<Rightarrow> rstate \<Rightarrow> bool"
  assumes open_write: "\<exists>r. py_open e p ''w+b'' fd fs =
        (Inr (new_obuf BufRandom default_buffer_size fd, r), fs(p \<mapsto> [])) \<and> app p [] (fs(p \<mapsto> []), r)"
    and open_read: "fs p = Some c \<Longrightarrow> \<exists>r. py_open e p ''rb'' fd fs =
        (Inr (new_obuf BufReader default_buffer_size fd, r), fs) \<and> rdp p c 0 (fs, r)"
    and awrite_law: "app p c s \<Longrightarrow> length b < 2 ^ 32 \<Longrightarrow>
        \<exists>s'. rw_awrite (Bytes b) s = (Inr (int (length b)), s') \<and> app p (c @ b) s' \<and>
             same_else p (fst s) (fst s')"
    and awrite_batch_law: "app p c s \<Longrightarrow> (\<forall>b \<in> set bs. length b < 2 ^ 32) \<Longrightarrow>
        \<exists>s'. rw_awrite_batch (map Bytes bs) s = (Inr (map (int \<circ> length) bs), s') \<and>
             app p (c @ concat bs) s' \<and> same_else p (fst s) (fst s')"
    and write_law: "app p [] s \<Longrightarrow>
        \<exists>s'. rw_write (Bytes b) s = (Inr (int (length b)), s') \<and> fin p b s' \<and>
             same_else p (fst s) (fst s')"
    and seek_law: "app p c s \<Longrightarrow>
        \<exists>s'. rw_seek 0 0 s = (Inr 0, s') \<and> rdp p c 0 s' \<and> same_else p (fst s) (fst s')"
    and aread_law: "rdp p c k s \<Longrightarrow> 0 \<le> n \<Longrightarrow> n < 2 ^ 32 \<Longrightarrow>
        \<exists>s' k'. rw_aread n s = (Inr (Bytes (take (nat n) (drop k c))), s') \<and> rdp p c k' s' \<and>
             (k' = 0 \<or> k' = k + length (take (nat n) (drop k c))) \<and> same_else p (fst s) (fst s')"
    and aread_batch_law: "rdp p c 0 s \<Longrightarrow> (\<forall>n \<in> set ns. n < 2 ^ 32) \<Longrightarrow>
        \<exists>s'. rw_aread_batch (map (\<lambda>n. Size (int n)) ns) s = (Inr (map Bytes (cut ns c)), s') \<and>
             fin p c s' \<and> same_else p (fst s) (fst s')"
    and read_law: "rdp p c 0 s \<Longrightarrow>
        \<exists>s'. rw_read (-1) s = (Inr (Bytes c), s') \<and> fin p c s' \<and> same_else p (fst s) (fst s')"
    and read_again: "rdp p c 0 s \<Longrightarrow> rw_read (-1) s = (Inr (Bytes c), s') \<Longrightarrow>
        rw_read (-1) s' = (Inr (Bytes []), s')"
    and aread_all_law: "rdp p c 0 s \<Longrightarrow> length c \<le> 65536 \<Longrightarrow>
        \<exists>s'. rw_aread (-1) s = (Inr (Bytes c), s') \<and> fin p c s' \<and> same_else p (fst s) (fst s')"
    and app_fin: "app p c s \<Longrightarrow> fin p c s"
    and rdp_fin: "rdp p c k s \<Longrightarrow> fin p c s"
    and fin_open: "fin p c s \<Longrightarrow> \<not> rw_closed s"
    and close_law: "fin p c s \<Longrightarrow>
        \<exists>s'. rw_close s = (Inr (), s') \<and> fst s' p = Some c \<and> same_else p (fst s) (fst s') \<and>
             rw_closed s'"
    and flush_law: "fin p c s \<Longrightarrow>
        \<exists>s'. rw_flush s = (Inr (), s') \<and> fin p c s' \<and> same_else p (fst s) (fst s')"
    and app_local: "app p c (fs, r) \<Longrightarrow> fs' p = fs p \<Longrightarrow> app p c (fs', r)"
    and rdp_local: "rdp p c k (fs, r) \<Longrightarrow> fs' p = fs p \<Longrightarrow> rdp p c k (fs', r)"
    and fin_local: "fin p c (fs, r) \<Longrightarrow> fs' p = fs p \<Longrightarrow> fin p c (fs', r)"
begin

end

section \<open>The thread-pool engine\<close>

lemma rw_async_simps:
  "rw_awrite d = dispatch (\<lambda>ring. nf_awrite ring d) (cp_write d)"
  "rw_aread n = dispatch (\<lambda>ring. nf_aread ring n) (cp_read n)"
  "rw_aread_batch sp = dispatch (\<lambda>ring. nf_aread_batch ring sp) (loop_aread cp_read sp)"
  "rw_awrite_batch ds = dispatch (\<lambda>ring. nf_awrite_batch ring ds) (loop_awrite cp_write ds)"
  by (simp_all add: rw_awrite_def rw_aread_def rw_aread_batch_def rw_awrite_batch_def raw_view_simps)

text \<open>The descriptor of a file opened for reading, or for both, and the data below the buffer.\<close>

definition pool_ok :: "string \<Rightarrow> native_file \<Rightarrow> cpbuf \<Rightarrow> bool" where
  "pool_ok p f b = (nf_path f = p \<and> \<not> nf_append f \<and> \<not> cp_closed b \<and> cp_readable b \<and> can_read f)"

fun pool_fin :: "string \<Rightarrow> bytes \<Rightarrow> rstate \<Rightarrow> bool" where
  "pool_fin p c (fs, PoolObj f b) =
     (pool_ok p f b \<and> (\<exists>d. fs p = Some d \<and>
        (if cp_wbuf b = [] then d = c
         else can_write f \<and> overwrite 0 (nf_pos f) (cp_wbuf b) d = c)))"
| "pool_fin p c (fs, NativeObj ring f) = False"

fun pool_app :: "string \<Rightarrow> bytes \<Rightarrow> rstate \<Rightarrow> bool" where
  "pool_app p c (fs, PoolObj f b) =
     (pool_ok p f b \<and> can_write f \<and> cp_writable b \<and> cp_rbuf b = [] \<and>
      (\<exists>d. fs p = Some d \<and> nf_pos f = length d \<and> d @ cp_wbuf b = c))"
| "pool_app p c (fs, NativeObj ring f) = False"

fun pool_rdp :: "string \<Rightarrow> bytes \<Rightarrow> nat \<Rightarrow> rstate \<Rightarrow> bool" where
  "pool_rdp p c k (fs, PoolObj f b) =
     (pool_ok p f b \<and> cp_wbuf b = [] \<and> fs p = Some c \<and>
      nf_pos f = k + length (cp_rbuf b) \<and> nf_pos f \<le> length c \<and>
      cp_rbuf b @ drop (nf_pos f) c = drop k c)"
| "pool_rdp p c k (fs, NativeObj ring f) = False"

lemmas pool_defs = pool_ok_def can_read_def can_write_def

lemma pool_flush:
  assumes "pool_app p c (fs, PoolObj f b)"
  shows "\<exists>fs' f' b'. cp_flush_pending ((fs, f), b) = (Inr (), ((fs', f'), b')) \<and>
           pool_app p c (fs', PoolObj f' b') \<and> cp_wbuf b' = [] \<and> same_else p fs fs'"
proof (cases "cp_wbuf b = []")
  case True
  with assms show ?thesis by (auto simp: cp_flush_pending_def)
next
  case False
  with assms show ?thesis
    by (auto simp: cp_flush_pending_def sys_write_def nf_data_def pool_defs Let_def)
qed

lemma pool_flush_over:
  assumes "pool_app p c (fs, PoolObj f b)"
  shows "\<exists>fs' f' b'. cp_flush_if_over ((fs, f), b) = (Inr (), ((fs', f'), b')) \<and>
           pool_app p c (fs', PoolObj f' b') \<and> same_else p fs fs'"
  using pool_flush [OF assms] assms by (auto simp: cp_flush_if_over_def)

lemma pool_write:
  assumes "pool_app p c (fs, PoolObj f b)"
  shows "\<exists>fs' f' b'. cp_write (Bytes d) ((fs, f), b) = (Inr (int (length d)), ((fs', f'), b')) \<and>
           pool_app p (c @ d) (fs', PoolObj f' b') \<and> same_else p fs fs'"
proof -
  from pool_flush_over [OF assms] obtain fs1 f1 b1 where one:
    "cp_flush_if_over ((fs, f), b) = (Inr (), ((fs1, f1), b1))"
    "pool_app p c (fs1, PoolObj f1 b1)" "same_else p fs fs1" by blast
  let ?b = "b1\<lparr>cp_wbuf := cp_wbuf b1 @ d\<rparr>"
  have "pool_app p (c @ d) (fs1, PoolObj f1 ?b)"
    using one(2) by (auto simp: pool_defs)
  from pool_flush_over [OF this] obtain fs2 f2 b2 where two:
    "cp_flush_if_over ((fs1, f1), ?b) = (Inr (), ((fs2, f2), b2))"
    "pool_app p (c @ d) (fs2, PoolObj f2 b2)" "same_else p fs1 fs2" by blast
  from assms one two show ?thesis
    by (auto simp: cp_write_def cp_check_def cp_unread_def cp_append_def io_defs pool_ok_def
        intro: same_else_trans)
qed

lemma dispatch_pool:
  "m ((fs, f), b) = (x, ((fs', f'), b')) \<Longrightarrow>
   dispatch nt m (fs, PoolObj f b) = (x, (fs', PoolObj f' b'))"
  by (simp add: dispatch_def)

lemma dispatch_native:
  "nt ring (fs, f) = (x, (fs', f')) \<Longrightarrow>
   dispatch nt m (fs, NativeObj ring f) = (x, (fs', NativeObj ring f'))"
  by (simp add: dispatch_def)

lemma pool_write_batch:
  assumes "pool_app p c (fs, PoolObj f b)"
  shows "\<exists>fs' f' b'. loop_awrite cp_write (map Bytes bs) ((fs, f), b) =
             (Inr (map (int \<circ> length) bs), ((fs', f'), b')) \<and>
           pool_app p (c @ concat bs) (fs', PoolObj f' b') \<and> same_else p fs fs'"
  using assms
proof (induction bs arbitrary: c fs f b)
  case Nil
  then show ?case by (auto simp: loop_awrite_def io_defs)
next
  case (Cons d bs)
  from pool_write [OF Cons.prems, of d] obtain fs1 f1 b1 where one:
    "cp_write (Bytes d) ((fs, f), b) = (Inr (int (length d)), ((fs1, f1), b1))"
    "pool_app p (c @ d) (fs1, PoolObj f1 b1)" "same_else p fs fs1" by blast
  from Cons.IH [OF one(2)] obtain fs2 f2 b2 where two:
    "loop_awrite cp_write (map Bytes bs) ((fs1, f1), b1) =
       (Inr (map (int \<circ> length) bs), ((fs2, f2), b2))"
    "pool_app p ((c @ d) @ concat bs) (fs2, PoolObj f2 b2)" "same_else p fs1 fs2" by blast
  have "loop_awrite cp_write (map Bytes (d # bs)) ((fs, f), b) =
          (Inr (map (int \<circ> length) (d # bs)), ((fs2, f2), b2))"
    using one(1) two(1) by (simp add: loop_awrite_def io_defs)
  with one(3) two(2,3) show ?case by (auto intro: same_else_trans)
qed

lemma read_ahead_length:
  fixes p k a L w m :: nat
  assumes "p = k + a" and "p \<le> L" and "w \<le> L - p"
    and "m \<le> a + w \<or> p + w = L" and "a < m"
  shows "p + w = k + min (L - k) m + (a + w - m)"
  using assms by (auto simp: min_def)

text \<open>A read of \<open>n\<close> bytes from \<open>k\<close> on returns them, read ahead or not, and moves on.\<close>

lemma pool_read:
  assumes "pool_rdp p c k (fs, PoolObj f b)" and "0 \<le> n"
  shows "\<exists>f' b'. cp_read n ((fs, f), b) =
             (Inr (Bytes (take (nat n) (drop k c))), ((fs, f'), b')) \<and>
           pool_rdp p c (k + length (take (nat n) (drop k c))) (fs, PoolObj f' b')"
proof -
  let ?r = "cp_rbuf b" and ?m = "nat n"
  have rest: "drop k c = ?r @ drop (nf_pos f) c" and pos: "nf_pos f = k + length ?r"
    "nf_pos f \<le> length c" using assms(1) unfolding pool_rdp.simps by (elim conjE; simp only:)+
  have n: "\<not> n < -1" "n \<noteq> -1" using assms(2) by auto
  have start: "cp_read n ((fs, f), b) = cp_fill ?m ((fs, f), b)"
    using assms(1) n by (simp add: cp_read_def cp_check_def pool_ok_def cp_flush_pending_def io_defs)
  show ?thesis
  proof (cases "?m \<le> length ?r")
    case True
    then have "take ?m (drop k c) = take ?m ?r" "drop ?m ?r @ drop (nf_pos f) c = drop (k + ?m) c"
      by (simp_all add: rest add.commute [of k] flip: drop_drop)
    with True assms(1) pos show ?thesis
      by (simp add: start cp_fill_def pool_ok_def)
  next
    case False
    define c' where "c' = take (max (cp_size b) ?m) (drop (nf_pos f) c)"
    let ?f = "f\<lparr>nf_pos := nf_pos f + length c'\<rparr>" and ?out = "?r @ c'"
    let ?b = "b\<lparr>cp_rbuf := drop ?m ?out\<rparr>"
    have "sys_read (max (cp_size b) ?m) (fs, f) = (Inr c', (fs, ?f))"
      using assms(1) by (simp add: sys_read_def pool_ok_def nf_data_def Let_def c'_def)
    with False have read: "cp_read n ((fs, f), b) = (Inr (Bytes (take ?m ?out)), ((fs, ?f), ?b))"
      by (simp add: start cp_fill_def)
    have tk: "take ?m ?out = take ?m (drop k c)"
      unfolding rest c'_def by (simp add: min_def)
    have out: "?out @ drop (nf_pos f + length c') c = drop k c"
      by (simp add: rest c'_def min_def) (metis append_take_drop_id drop_drop add.commute)
    have short: "?m \<le> length ?out \<or> nf_pos f + length c' = length c"
      using pos(2) by (auto simp: min_def c'_def)
    have len: "length c' \<le> length c - nf_pos f" by (simp add: c'_def)
    have dr: "drop ?m ?out @ drop (nf_pos f + length c') c = drop ?m (drop k c)"
      unfolding out [symmetric] using short by auto
    have move: "nf_pos f + length c' = k + length (take ?m (drop k c)) + length (drop ?m ?out)"
      using read_ahead_length [OF pos len] short False
      by (simp only: length_append length_drop length_take not_le)
    have past: "drop (k + length (take ?m (drop k c))) c = drop ?m (drop k c)"
      by (simp add: min_def add.commute)
    have "pool_rdp p c (k + length (take ?m (drop k c))) (fs, PoolObj ?f ?b)"
      unfolding pool_rdp.simps past
      using assms(1) pos(2) len move dr by (simp add: pool_ok_def can_read_def del: length_take length_drop)
    with read show ?thesis unfolding tk by blast
  qed
qed

lemma pool_read_all:
  assumes "pool_rdp p c k (fs, PoolObj f b)"
  shows "\<exists>f' b'. cp_read (-1) ((fs, f), b) = (Inr (Bytes (drop k c)), ((fs, f'), b')) \<and>
           pool_fin p c (fs, PoolObj f' b')"
  using assms
  by (auto simp: cp_read_def cp_check_def pool_defs cp_flush_pending_def cp_readall_def
      sys_read_to_end_def sys_read_def nf_data_def Let_def io_defs)

lemma pool_seek:
  assumes "pool_app p c (fs, PoolObj f b)"
  shows "\<exists>fs' f' b'. cp_seek 0 0 ((fs, f), b) = (Inr 0, ((fs', f'), b')) \<and>
           pool_rdp p c 0 (fs', PoolObj f' b') \<and> same_else p fs fs'"
proof -
  from pool_flush [OF assms] obtain fs1 f1 b1 where one:
    "cp_flush_pending ((fs, f), b) = (Inr (), ((fs1, f1), b1))"
    "pool_app p c (fs1, PoolObj f1 b1)" "cp_wbuf b1 = []" "same_else p fs fs1" by blast
  with assms show ?thesis
    by (auto simp: cp_seek_def cp_flush_def cp_check_def cp_unread_def os_call_def os_lseek_def
        to_seek_from_def sys_seek_def pool_ok_def can_read_def io_defs)
qed

lemma pool_close:
  assumes "pool_fin p c (fs, PoolObj f b)"
  shows "\<exists>fs' f' b'. cp_close ((fs, f), b) = (Inr (), ((fs', f'), b')) \<and> fs' p = Some c \<and>
           same_else p fs fs' \<and> cp_closed b'"
  using assms
  by (auto simp: cp_close_def cp_flush_pending_def sys_write_def nf_data_def pool_defs Let_def
      split: if_splits)

lemma py_flags_wb:
  "py_open_flags ''w+b'' = Some \<lparr>of_access = RdWr, of_append = False, of_creat = True,
     of_trunc = True, of_excl = False\<rparr>"
  by (simp add: py_open_flags_def py_flags_def py_valid_def)

lemma py_flags_rb:
  "py_open_flags ''rb'' = Some \<lparr>of_access = RdOnly, of_append = False, of_creat = False,
     of_trunc = False, of_excl = False\<rparr>"
  by (simp add: py_open_flags_def py_flags_def py_valid_def)

text \<open>The two modes give a random and a reader over the raw object of the engine.\<close>

lemma py_open_wb:
  "py_open e p ''w+b'' fd fs =
     (Inr (new_obuf BufRandom default_buffer_size fd,
           if en_native e then NativeObj (en_ring e) (native_desc p (file_mode_parse ''w+b''))
           else PoolObj (nf_new p ''w+b'' (the (py_open_flags ''w+b''))) (cp_new default_buffer_size RdWr)),
      fs(p \<mapsto> []))"
proof -
  have nf: "native_flags ''w+b'' = py_open_flags ''w+b''"
    by (simp add: native_flags_eq py_flags_wb)
  have raw: "open_raw (en_native e) (\<lambda>_. ''object'') (StrPath p) ''w+b'' True None fs =
     (Inr (if en_native e then NativeStream p (file_mode_parse ''w+b'')
           else FallbackStream (OrigOpen (StrPath p) ''w+b'' None None)), fs(p \<mapsto> []))"
    using open_raw_result [of "StrPath p" p "''w+b''", OF _ py_flags_wb, of "en_native e" "\<lambda>_. ''object''" True fs] nf
    by (simp add: py_flags_wb os_open_def split: option.splits)
  show ?thesis
    by (simp add: py_open_def patched_open_path raw_mode_def is_binary_def open_kind_def raw
        buffer_size_def io_defs py_flags_wb opened_caps_def need_def mode_readable_def
        mode_writable_def file_mode_parse_def)
qed

lemma py_open_rb:
  assumes "fs p = Some c"
  shows "py_open e p ''rb'' fd fs =
     (Inr (new_obuf BufReader default_buffer_size fd,
           if en_native e then NativeObj (en_ring e) (native_desc p (file_mode_parse ''rb''))
           else PoolObj (nf_new p ''rb'' (the (py_open_flags ''rb''))) (cp_new default_buffer_size RdOnly)),
      fs)"
proof -
  have nf: "native_flags ''rb'' = py_open_flags ''rb''"
    by (simp add: native_flags_eq py_flags_rb)
  have raw: "open_raw (en_native e) (\<lambda>_. ''object'') (StrPath p) ''rb'' True None fs =
     (Inr (if en_native e then NativeStream p (file_mode_parse ''rb'')
           else FallbackStream (OrigOpen (StrPath p) ''rb'' None None)), fs)"
    using open_raw_result [of "StrPath p" p "''rb''", OF _ py_flags_rb, of "en_native e" "\<lambda>_. ''object''" True fs] nf assms
    by (simp add: py_flags_rb os_open_def)
  show ?thesis
    by (simp add: py_open_def patched_open_path raw_mode_def is_binary_def open_kind_def raw
        buffer_size_def io_defs py_flags_rb opened_caps_def need_def mode_readable_def
        mode_writable_def file_mode_parse_def)
qed

lemma pool_obj: "pool_app p c s \<or> pool_rdp p c k s \<or> pool_fin p c s \<Longrightarrow> \<exists>fs f b. s = (fs, PoolObj f b)"
  by (cases s; cases "snd s") auto

lemma pool_app_fin: "pool_app p c s \<Longrightarrow> pool_fin p c s"
  by (cases s; cases "snd s") auto

lemma pool_rdp_fin: "pool_rdp p c k s \<Longrightarrow> pool_fin p c s"
  by (cases s; cases "snd s") auto

lemma pool_read_batch:
  assumes "pool_rdp p c k (fs, PoolObj f b)"
  shows "\<exists>f' b'. loop_aread cp_read (map (\<lambda>n. Size (int n)) ns) ((fs, f), b) =
             (Inr (map Bytes (cut ns (drop k c))), ((fs, f'), b')) \<and>
           pool_fin p c (fs, PoolObj f' b')"
  using assms
proof (induction ns arbitrary: k f b)
  case Nil
  then show ?case by (auto simp: loop_aread_def io_defs)
next
  case (Cons n ns)
  let ?k = "k + length (take n (drop k c))"
  from pool_read [OF Cons.prems, of "int n"] obtain f1 b1 where one:
    "cp_read (int n) ((fs, f), b) = (Inr (Bytes (take n (drop k c))), ((fs, f1), b1))"
    "pool_rdp p c ?k (fs, PoolObj f1 b1)" by auto
  from Cons.IH [OF one(2)] obtain f2 b2 where two:
    "loop_aread cp_read (map (\<lambda>n. Size (int n)) ns) ((fs, f1), b1) =
       (Inr (map Bytes (cut ns (drop ?k c))), ((fs, f2), b2))"
    "pool_fin p c (fs, PoolObj f2 b2)" by auto
  have "drop ?k c = drop n (drop k c)" by (simp add: min_def add.commute)
  with one(1) two show ?case by (simp add: loop_aread_def io_defs del: drop_drop)
qed

interpretation pool: raw_file "\<lparr>en_native = False, en_ring = ring\<rparr>" pool_app pool_rdp pool_fin
  for ring
proof (standard, goal_cases)
  case (1 p fd fs)
  show ?case
    unfolding py_open_wb
    by (simp add: py_flags_wb nf_new_def cp_new_def pool_ok_def can_read_def can_write_def)
next
  case (2 fs p c fd)
  then show ?case
    unfolding py_open_rb [where fs = fs and p = p and c = c, OF 2]
    by (simp add: py_flags_rb nf_new_def cp_new_def pool_ok_def can_read_def)
next
  case (3 p c s b)
  then obtain fs f bf where s: "s = (fs, PoolObj f bf)" using pool_obj by blast
  from pool_write [OF 3(1) [unfolded s], of b] show ?case
    unfolding s rw_async_simps using dispatch_pool by fastforce
next
  case (4 p c s bs)
  then obtain fs f bf where s: "s = (fs, PoolObj f bf)" using pool_obj by blast
  from pool_write_batch [OF 4(1) [unfolded s], of bs] show ?case
    unfolding s rw_async_simps using dispatch_pool by fastforce
next
  case (5 p s b)
  then obtain fs f bf where s: "s = (fs, PoolObj f bf)" using pool_obj by blast
  from pool_write [OF 5 [unfolded s], of b] pool_app_fin show ?case
    unfolding s rw_simps using dispatch_pool by fastforce
next
  case (6 p c s)
  then obtain fs f bf where s: "s = (fs, PoolObj f bf)" using pool_obj by blast
  from pool_seek [OF 6 [unfolded s]] show ?case
    unfolding s rw_simps using dispatch_pool by fastforce
next
  case (7 p c k s n)
  then obtain fs f bf where s: "s = (fs, PoolObj f bf)" using pool_obj by blast
  from pool_read [OF 7(1) [unfolded s] 7(2)] obtain f' b' where
    "cp_read n ((fs, f), bf) = (Inr (Bytes (take (nat n) (drop k c))), ((fs, f'), b'))"
    "pool_rdp p c (k + length (take (nat n) (drop k c))) (fs, PoolObj f' b')" by blast
  then show ?case
    unfolding s rw_async_simps using dispatch_pool by (metis fst_conv same_else_refl)
next
  case (8 p c s ns)
  then obtain fs f bf where s: "s = (fs, PoolObj f bf)" using pool_obj by blast
  from pool_read_batch [OF 8(1) [unfolded s], of ns] show ?case
    unfolding s rw_async_simps using dispatch_pool by (metis drop0 fst_conv same_else_refl)
next
  case (9 p c s)
  then obtain fs f bf where s: "s = (fs, PoolObj f bf)" using pool_obj by blast
  from pool_read_all [OF 9 [unfolded s]] show ?case
    unfolding s rw_simps using dispatch_pool by (metis drop0 fst_conv same_else_refl)
next
  case (10 p c s s')
  then obtain fs f bf where s: "s = (fs, PoolObj f bf)" using pool_obj by blast
  from 10(2) obtain f' b' fs' where
    read: "cp_read (-1) ((fs, f), bf) = (Inr (Bytes c), ((fs', f'), b'))"
    and s': "s' = (fs', PoolObj f' b')"
    unfolding s rw_simps by (auto simp: dispatch_def split: prod.splits)
  show ?case
    unfolding s' rw_simps using cp_read_all_end [OF read] by (simp add: dispatch_def)
next
  case (11 p c s)
  then obtain fs f bf where s: "s = (fs, PoolObj f bf)" using pool_obj by blast
  from pool_read_all [OF 11(1) [unfolded s]] show ?case
    unfolding s rw_async_simps using dispatch_pool by (metis drop0 fst_conv same_else_refl)
next
  case 12 then show ?case by (rule pool_app_fin)
next
  case 13 then show ?case by (rule pool_rdp_fin)
next
  case (14 p c s)
  then obtain fs f bf where s: "s = (fs, PoolObj f bf)" using pool_obj by blast
  with 14 show ?case by (simp add: pool_ok_def)
next
  case (15 p c s)
  then obtain fs f bf where s: "s = (fs, PoolObj f bf)" using pool_obj by blast
  from pool_close [OF 15 [unfolded s]] show ?case
    unfolding s rw_simps using dispatch_pool by fastforce
next
  case (16 p c s)
  then obtain fs f bf where s: "s = (fs, PoolObj f bf)" using pool_obj by blast
  with 16 show ?case
    by (auto simp: rw_simps dispatch_def cp_flush_def cp_check_def cp_flush_pending_def
        sys_write_def nf_data_def pool_defs Let_def split: if_splits)
next
  case (17 p c fs r fs') then show ?case by (cases r) auto
next
  case (18 p c k fs r fs') then show ?case by (cases r) auto
next
  case (19 p c fs r fs') then show ?case by (cases r) auto
qed

section \<open>The native engine\<close>

text \<open>
  With a ring a write goes to the position of the handle, which has moved past what is there;
  without, it is appended through the path and the handle stays at the start.
\<close>

definition native_ok :: "string \<Rightarrow> native_file \<Rightarrow> bool" where
  "native_ok p f = (nf_open f \<and> nf_path f = p \<and> \<not> nf_append f)"

fun native_fin :: "string \<Rightarrow> bytes \<Rightarrow> rstate \<Rightarrow> bool" where
  "native_fin p c (fs, NativeObj ring f) = (native_ok p f \<and> fs p = Some c)"
| "native_fin p c (fs, PoolObj f b) = False"

fun native_app :: "bool \<Rightarrow> string \<Rightarrow> bytes \<Rightarrow> rstate \<Rightarrow> bool" where
  "native_app ring p c (fs, NativeObj r f) =
     (r = ring \<and> native_ok p f \<and> nf_access f = RdWr \<and> fs p = Some c \<and>
      nf_pos f = (if ring then length c else 0))"
| "native_app ring p c (fs, PoolObj f b) = False"

fun native_rdp :: "bool \<Rightarrow> string \<Rightarrow> bytes \<Rightarrow> nat \<Rightarrow> rstate \<Rightarrow> bool" where
  "native_rdp ring p c k (fs, NativeObj r f) =
     (r = ring \<and> native_ok p f \<and> can_read f \<and> fs p = Some c \<and> k = 0 \<and> nf_pos f = 0)"
| "native_rdp ring p c k (fs, PoolObj f b) = False"

lemma native_obj:
  "native_app ring p c s \<or> native_rdp ring p c k s \<Longrightarrow> \<exists>fs f. s = (fs, NativeObj ring f)"
  by (cases s; cases "snd s") auto

lemma native_fin_obj: "native_fin p c s \<Longrightarrow> \<exists>fs ring f. s = (fs, NativeObj ring f)"
  by (cases s; cases "snd s") auto

lemma all_to_bytes_Bytes: "all_to_bytes (map Bytes bs) = Inr bs"
  by (induction bs) (simp_all add: to_bytes_def)

lemma native_awrite:
  assumes "native_app ring p c (fs, NativeObj ring f)" and "length b < 2 ^ 32"
  shows "\<exists>fs' f'. nf_awrite ring (Bytes b) (fs, f) = (Inr (int (length b)), (fs', f')) \<and>
           native_app ring p (c @ b) (fs', NativeObj ring f') \<and> same_else p fs fs'"
  using assms
  by (auto simp: nf_awrite_def nf_defs io_defs as_u32_id native_ok_def can_write_def)

lemma ring_write_seq:
  assumes "native_app True p c (fs, NativeObj True f)" and "\<forall>b \<in> set bs. length b < 2 ^ 32"
  shows "\<exists>fs' f'. io_map (\<lambda>b. sys_write (take (as_u32 (length b)) b)) bs (fs, f) =
             (Inr (map length bs), (fs', f')) \<and>
           native_app True p (c @ concat bs) (fs', NativeObj True f') \<and> same_else p fs fs'"
  using assms
proof (induction bs arbitrary: c fs f)
  case Nil
  then show ?case by (auto simp: io_defs)
next
  case (Cons b bs)
  then have b: "take (as_u32 (length b)) b = b" by (simp add: as_u32_id)
  from Cons.prems obtain fs1 f1 where one: "sys_write b (fs, f) = (Inr (length b), (fs1, f1))"
    "native_app True p (c @ b) (fs1, NativeObj True f1)" "same_else p fs fs1"
    by (cases "b = []") (auto simp: sys_write_def nf_data_def native_ok_def can_write_def Let_def)
  from Cons.IH [OF one(2)] Cons.prems(2) obtain fs2 f2 where two:
    "io_map (\<lambda>b. sys_write (take (as_u32 (length b)) b)) bs (fs1, f1) = (Inr (map length bs), (fs2, f2))"
    "native_app True p ((c @ b) @ concat bs) (fs2, NativeObj True f2)" "same_else p fs1 fs2" by auto
  from one two b show ?case by (auto simp: io_defs intro: same_else_trans)
qed

lemma native_awrite_batch:
  assumes "native_app ring p c (fs, NativeObj ring f)" and "\<forall>b \<in> set bs. length b < 2 ^ 32"
  shows "\<exists>fs' f'. nf_awrite_batch ring (map Bytes bs) (fs, f) =
             (Inr (map (int \<circ> length) bs), (fs', f')) \<and>
           native_app ring p (c @ concat bs) (fs', NativeObj ring f') \<and> same_else p fs fs'"
proof (cases ring)
  case True
  with ring_write_seq [of p c fs f bs] assms show ?thesis
    by (auto simp: nf_awrite_batch_def all_to_bytes_Bytes nf_guard_def try_ring_def io_defs native_ok_def)
next
  case False
  with assms show ?thesis
    by (auto simp: nf_awrite_batch_def all_to_bytes_Bytes nf_defs io_defs native_ok_def)
qed

lemma ring_read_seq:
  assumes "nf_open f" and "can_read f" and "fs (nf_path f) = Some c"
    and "\<forall>n \<in> set ns. n < 2 ^ 32" and "nf_pos f \<le> length c"
  shows "\<exists>f'. io_map ring_read_one (map (Pair None) ns) (fs, f) =
             (Inr (cut ns (drop (nf_pos f) c)), (fs, f')) \<and> nf_open f' \<and>
           nf_path f' = nf_path f \<and> nf_append f' = nf_append f"
  using assms
proof (induction ns arbitrary: f)
  case Nil
  then show ?case by (auto simp: io_defs)
next
  case (Cons n ns)
  let ?b = "take n (drop (nf_pos f) c)"
  let ?f = "f\<lparr>nf_pos := nf_pos f + length ?b\<rparr>"
  have one: "ring_read_one (None, n) (fs, f) = (Inr ?b, (fs, ?f))"
    using Cons.prems by (simp add: ring_read_one_def offset_ok_def as_u32_id sys_read_def nf_data_def Let_def)
  have rest: "drop (nf_pos ?f) c = drop n (drop (nf_pos f) c)" by (simp add: min_def add.commute)
  have "nf_pos ?f \<le> length c" using Cons.prems(5) by simp
  with Cons.IH [of ?f] Cons.prems obtain f' where
    "io_map ring_read_one (map (Pair None) ns) (fs, ?f) = (Inr (cut ns (drop n (drop (nf_pos f) c))), (fs, f'))"
    "nf_open f'" "nf_path f' = nf_path f" "nf_append f' = nf_append f"
    unfolding rest by (auto simp: can_read_def)
  with one show ?case by (auto simp: io_defs simp del: drop_drop)
qed

lemma read_seq_cut:
  "p \<le> length d \<Longrightarrow> read_seq d p (map (Pair None) ns) = cut ns (drop p d)"
proof (induction ns arbitrary: p)
  case (Cons n ns)
  have "drop (p + length (take n (drop p d))) d = drop n (drop p d)"
    by (simp add: min_def add.commute)
  with Cons show ?case by (simp add: Let_def del: drop_drop)
qed simp

lemma native_aread_batch:
  assumes "native_rdp ring p c 0 (fs, NativeObj ring f)" and "\<forall>n \<in> set ns. n < 2 ^ 32"
  shows "\<exists>f'. nf_aread_batch ring (map (\<lambda>n. Size (int n)) ns) (fs, f) =
             (Inr (map Bytes (cut ns c)), (fs, f')) \<and> native_fin p c (fs, NativeObj ring f')"
proof -
  have "\<forall>n \<in> set ns. n < 2 ^ 64" using assms(2) by fastforce
  then have specs: "batch_specs (map (\<lambda>n. Size (int n)) ns) = Inr (map (Pair None) ns)"
    by (auto simp: batch_specs_def list_all_iff is_u64_def comp_def)
  have ok: "list_all offset_ok (map (Pair None) ns)"
    by (simp add: list_all_iff offset_ok_def)
  from assms have f: "nf_open f" "can_read f" "fs (nf_path f) = Some c" "nf_pos f = 0"
    "nf_path f = p" "\<not> nf_append f" by (auto simp: native_ok_def)
  show ?thesis
  proof (cases ring)
    case True
    with ring_read_seq [of f fs c ns] assms(2) f show ?thesis
      by (auto simp: nf_aread_batch_def specs nf_guard_def try_ring_def io_defs native_ok_def)
  next
    case False
    with f ok read_seq_cut [of 0 c ns] show ?thesis
      by (simp add: nf_aread_batch_def specs nf_defs io_defs native_ok_def)
  qed
qed

interpretation native: raw_file "\<lparr>en_native = True, en_ring = ring\<rparr>" "native_app ring"
  "native_rdp ring" native_fin for ring
proof (standard, goal_cases)
  case (1 p fd fs)
  show ?case
    unfolding py_open_wb
    by (simp add: native_desc_def file_mode_parse_def configure_open_options_def
        open_options_new_def rust_flags_def rust_access_def rust_creation_ok_def native_ok_def)
next
  case (2 fs p c fd)
  then show ?case
    unfolding py_open_rb [where fs = fs and p = p and c = c, OF 2]
    by (simp add: native_desc_def file_mode_parse_def configure_open_options_def
        open_options_new_def rust_flags_def rust_access_def rust_creation_ok_def native_ok_def
        can_read_def)
next
  case (3 p c s b)
  then obtain fs f where s: "s = (fs, NativeObj ring f)" using native_obj by blast
  from native_awrite [OF 3(1) [unfolded s] 3(2)] show ?case
    unfolding s rw_async_simps using dispatch_native by fastforce
next
  case (4 p c s bs)
  then obtain fs f where s: "s = (fs, NativeObj ring f)" using native_obj by blast
  from native_awrite_batch [OF 4(1) [unfolded s] 4(2)] show ?case
    unfolding s rw_async_simps using dispatch_native by fastforce
next
  case (5 p s b)
  then obtain fs f where s: "s = (fs, NativeObj ring f)" using native_obj by blast
  with 5 show ?case
    by (cases ring) (auto simp: rw_simps dispatch_def nf_write_def nf_defs io_defs native_ok_def
        can_write_def overwrite_def)
next
  case (6 p c s)
  then obtain fs f where s: "s = (fs, NativeObj ring f)" using native_obj by blast
  with 6 show ?case
    by (auto simp: rw_simps dispatch_def nf_seek_def nf_guard_def to_seek_from_def sys_seek_def
        native_ok_def can_read_def)
next
  case (7 p c k s n)
  then obtain fs f where s: "s = (fs, NativeObj ring f)" using native_obj by blast
  have "as_u32 (nat n) = nat n" using 7(2,3) by (intro as_u32_id) (simp add: nat_less_iff)
  with 7 s show ?case
    by (auto simp: rw_async_simps dispatch_def nf_aread_def nf_defs io_defs native_ok_def)
next
  case (8 p c s ns)
  then obtain fs f where s: "s = (fs, NativeObj ring f)" using native_obj by blast
  from native_aread_batch [OF 8(1) [unfolded s] 8(2)] show ?case
    unfolding s rw_async_simps using dispatch_native by fastforce
next
  case (9 p c s)
  then obtain fs f where s: "s = (fs, NativeObj ring f)" using native_obj by blast
  with 9 show ?case
    by (auto simp: rw_simps dispatch_def nf_read_def nf_defs sys_read_to_end_def io_defs native_ok_def)
next
  case (10 p c s s')
  then obtain fs f where s: "s = (fs, NativeObj ring f)" using native_obj by blast
  from 10(2) obtain f' fs' where
    read: "nf_read (-1) (fs, f) = (Inr (Bytes c), (fs', f'))" and s': "s' = (fs', NativeObj ring f')"
    unfolding s rw_simps by (auto simp: dispatch_def split: prod.splits)
  show ?case
    unfolding s' rw_simps using nf_read_all_end [OF read] by (simp add: dispatch_def)
next
  case (11 p c s)
  then obtain fs f where s: "s = (fs, NativeObj ring f)" using native_obj by blast
  with 11 show ?case
    by (auto simp: rw_async_simps dispatch_def nf_aread_def nf_defs io_defs native_ok_def as_u32_id)
next
  case (12 p c s)
  then show ?case by (cases s; cases "snd s") auto
next
  case (13 p c k s)
  then show ?case by (cases s; cases "snd s") auto
next
  case (14 p c s)
  then obtain fs r f where s: "s = (fs, NativeObj r f)" using native_fin_obj by blast
  with 14 show ?case by (simp add: native_ok_def)
next
  case (15 p c s)
  then obtain fs r f where s: "s = (fs, NativeObj r f)" using native_fin_obj by blast
  with 15 show ?case by (simp add: rw_simps dispatch_def nf_close_def)
next
  case (16 p c s)
  then obtain fs r f where s: "s = (fs, NativeObj r f)" using native_fin_obj by blast
  with 16 show ?case by (simp add: rw_simps dispatch_def nf_flush_def io_defs)
next
  case (17 p c fs r fs') then show ?case by (cases r) auto
next
  case (18 p c k fs r fs') then show ?case by (cases r) auto
next
  case (19 p c fs r fs') then show ?case by (cases r) auto
qed

section \<open>Buffered objects over either engine\<close>

definition idle :: "buf_kind \<Rightarrow> obuf \<Rightarrow> bool" where
  "idle k o1 = (ob_kind o1 = k \<and> ob_rbuf o1 = [] \<and> ob_wbuf o1 = [])"

lemma idle_new [simp]: "idle k (new_obuf k' n fd) = (k' = k)"
  by (auto simp: idle_def new_obuf_def)

lemma idle_no_pending:
  assumes "idle k o1" and "k \<noteq> BufReader" and "\<not> rw_closed s"
  shows "ob_flush (o1, s) = (Inr (), (o1, s))"
proof -
  have "o1\<lparr>ob_wbuf := []\<rparr> = o1" using assms(1) by (simp add: idle_def)
  with assms show ?thesis
    by (cases "ob_kind o1") (simp_all add: ob_flush_def unless_closed_def by_kind_def idle_def
        with_wbuf_def writer_flush_def flush_loop.simps)
qed

lemma idle_reset:
  assumes "idle k o1"
  shows "ob_reset (o1, s) = (Inr (), (o1, s))" "ob_unread (o1, s) = (Inr (), (o1, s))"
proof -
  have "o1\<lparr>ob_rbuf := []\<rparr> = o1" using assms by (simp add: idle_def)
  with assms show "ob_reset (o1, s) = (Inr (), (o1, s))" "ob_unread (o1, s) = (Inr (), (o1, s))"
    by (simp_all add: ob_reset_def ob_unread_def idle_def)
qed

text \<open>The async methods of an object are those of its raw stream, whatever is buffered.\<close>

lemma ob_async_raw:
  "ob_kind o1 \<noteq> BufWriter \<Longrightarrow> ob_aread n (o1, s) = (case rw_aread n s of (r, s') \<Rightarrow> (r, (o1, s')))"
  "ob_kind o1 \<noteq> BufReader \<Longrightarrow> ob_awrite d (o1, s) = (case rw_awrite d s of (r, s') \<Rightarrow> (r, (o1, s')))"
  "ob_kind o1 \<noteq> BufWriter \<Longrightarrow>
     ob_aread_batch sp (o1, s) = (case rw_aread_batch sp s of (r, s') \<Rightarrow> (r, (o1, s')))"
  "ob_kind o1 \<noteq> BufReader \<Longrightarrow>
     ob_awrite_batch ds (o1, s) = (case rw_awrite_batch ds s of (r, s') \<Rightarrow> (r, (o1, s')))"
  by (cases "ob_kind o1"; simp add: ob_aread_def ob_awrite_def ob_aread_batch_def
      ob_awrite_batch_def by_kind_def areader_aread_def arandom_aread_def awriter_awrite_def
      arandom_awrite_def areader_aread_batch_def arandom_aread_batch_def awriter_awrite_batch_def
      arandom_awrite_batch_def prefer_raw_def raw_view_simps rw_async_simps)+

context raw_file
begin

lemma ob_awrite_law:
  assumes "idle BufRandom o1" and "app p c s" and "length b < 2 ^ 32"
  shows "\<exists>s'. ob_awrite (Bytes b) (o1, s) = (Inr (int (length b)), (o1, s')) \<and>
              app p (c @ b) s' \<and> same_else p (fst s) (fst s')"
  using awrite_law [OF assms(2,3)] assms(1) by (auto simp: ob_async_raw idle_def)

lemma ob_awrite_batch_law:
  assumes "idle BufRandom o1" and "app p c s" and "\<forall>b \<in> set bs. length b < 2 ^ 32"
  shows "\<exists>s'. ob_awrite_batch (map Bytes bs) (o1, s) = (Inr (map (int \<circ> length) bs), (o1, s')) \<and>
              app p (c @ concat bs) s' \<and> same_else p (fst s) (fst s')"
  using awrite_batch_law [OF assms(2,3)] assms(1) by (auto simp: ob_async_raw idle_def)

lemma ob_aread_law:
  assumes "ob_kind o1 \<noteq> BufWriter" and "rdp p c k s" and "0 \<le> n" and "n < 2 ^ 32"
  shows "\<exists>s' k'. ob_aread n (o1, s) = (Inr (Bytes (take (nat n) (drop k c))), (o1, s')) \<and>
           rdp p c k' s' \<and> (k' = 0 \<or> k' = k + length (take (nat n) (drop k c))) \<and>
           same_else p (fst s) (fst s')"
  using aread_law [OF assms(2-4)] assms(1) by (auto simp: ob_async_raw)

lemma ob_aread_batch_law:
  assumes "ob_kind o1 \<noteq> BufWriter" and "rdp p c 0 s" and "\<forall>n \<in> set ns. n < 2 ^ 32"
  shows "\<exists>s'. ob_aread_batch (map (\<lambda>n. Size (int n)) ns) (o1, s) =
              (Inr (map Bytes (cut ns c)), (o1, s')) \<and> fin p c s' \<and> same_else p (fst s) (fst s')"
  using aread_batch_law [OF assms(2,3)] assms(1) by (auto simp: ob_async_raw)

lemma ob_flush_idle:
  assumes "idle k o1" and "fin p c s"
  shows "\<exists>s'. ob_flush (o1, s) = (Inr (), (o1, s')) \<and> fin p c s' \<and> same_else p (fst s) (fst s')"
proof (cases "k = BufReader")
  case True
  with assms fin_open [OF assms(2)] flush_law [OF assms(2)] show ?thesis
    by (auto simp: ob_flush_def unless_closed_def by_kind_def idle_def)
next
  case False
  with assms idle_no_pending [OF assms(1) False fin_open [OF assms(2)]] show ?thesis by auto
qed

lemma ob_close_law:
  assumes "idle k o1" and "fin p c s"
  shows "\<exists>s'. ob_close (o1, s) = (Inr (), (o1, s')) \<and> fst s' p = Some c \<and>
              same_else p (fst s) (fst s')"
proof -
  from ob_flush_idle [OF assms] obtain s1 where one:
    "ob_flush (o1, s) = (Inr (), (o1, s1))" "fin p c s1" "same_else p (fst s) (fst s1)" by blast
  from close_law [OF one(2)] obtain s2 where
    "rw_close s1 = (Inr (), s2)" "fst s2 p = Some c" "same_else p (fst s1) (fst s2)" by blast
  with one fin_open [OF assms(2)] show ?thesis
    by (auto simp: ob_close_def intro: same_else_trans)
qed

lemma ob_seek_law:
  assumes "idle BufRandom o1" and "app p c s"
  shows "\<exists>s'. ob_seek 0 0 (o1, s) = (Inr 0, (o1, s')) \<and> rdp p c 0 s' \<and> same_else p (fst s) (fst s')"
proof -
  from seek_law [OF assms(2)] obtain s1 where
    "rw_seek 0 0 s = (Inr 0, s1)" "rdp p c 0 s1" "same_else p (fst s) (fst s1)" by blast
  moreover have "ob_flush (o1, s) = (Inr (), (o1, s))"
    by (rule idle_no_pending [OF assms(1) _ fin_open [OF app_fin [OF assms(2)]]]) simp
  ultimately show ?thesis
    using assms(1) idle_reset [OF assms(1)]
    by (simp add: ob_seek_def by_kind_def idle_def io_defs)
qed

lemma ob_read_all_law:
  assumes "idle k o1" and "k \<noteq> BufWriter" and "rdp p c 0 s"
  shows "\<exists>s'. ob_read (-1) (o1, s) = (Inr (Bytes c), (o1, s')) \<and> fin p c s' \<and>
              same_else p (fst s) (fst s')"
proof -
  from read_law [OF assms(3)] obtain s1 where one:
    "rw_read (-1) s = (Inr (Bytes c), s1)" "fin p c s1" "same_else p (fst s) (fst s1)" by blast
  note two = read_again [OF assms(3) one(1)]
  have end1: "read_all_loop raw_view True acc s1 = Some (Inr acc, s1)" for acc
    using two by (subst read_all_loop.simps) (simp add: raw_view_simps rw_simps)
  have "read_all_loop raw_view True [] s = Some (Inr c, if c = [] then s1 else s1)"
    using one(1) end1 [of c] by (subst read_all_loop.simps) (simp add: raw_view_simps rw_simps)
  moreover have "o1\<lparr>ob_rbuf := []\<rparr> = o1" using assms(1) by (simp add: idle_def)
  ultimately have rd: "with_rbuf (reader_read raw_view True (-1)) (o1, s) = (Inr (Bytes c), (o1, s1))"
    using assms(1) by (simp add: with_rbuf_def reader_read_def reader_read_all_def idle_def)
  show ?thesis
  proof (cases "k = BufReader")
    case True
    with rd one assms(1) show ?thesis by (simp add: ob_read_def by_kind_def idle_def)
  next
    case False
    with assms have k: "ob_kind o1 = BufRandom" by (cases k) (auto simp: idle_def)
    with rd one idle_no_pending [OF assms(1) False fin_open [OF rdp_fin [OF assms(3)]]]
    show ?thesis by (simp add: ob_read_def by_kind_def io_defs)
  qed
qed

text \<open>A sync write on a fresh file, followed by a flush: the data is in the raw stream.\<close>

lemma ob_write_flush_law:
  assumes "idle BufRandom o1" and "app p [] s"
  shows "\<exists>o2 s1 s2. ob_write (Bytes b) (o1, s) = (Inr (int (length b)), (o2, s1)) \<and>
           ob_flush (o2, s1) = (Inr (), (o1, s2)) \<and> fin p b s2 \<and> same_else p (fst s) (fst s2)"
proof -
  have open1: "\<not> rw_closed s" by (rule fin_open [OF app_fin [OF assms(2)]])
  from write_law [OF assms(2)] obtain s1 where one:
    "rw_write (Bytes b) s = (Inr (int (length b)), s1)" "fin p b s1" "same_else p (fst s) (fst s1)"
    by blast
  have fl: "flush_loop raw_view True b s = Some (Inr (), [], if b = [] then s else s1)"
    using one(1) by (subst flush_loop.simps) (simp add: raw_view_simps rw_simps flush_loop.simps)
  have none: "flush_loop raw_view True [] t = Some (Inr (), [], t)" for t
    by (simp add: flush_loop.simps)
  have same: "o1\<lparr>ob_wbuf := []\<rparr> = o1" using assms(1) by (simp add: idle_def)
  have kind: "ob_kind o1 = BufRandom" "ob_wbuf o1 = []" using assms(1) by (simp_all add: idle_def)
  show ?thesis
  proof (cases "ob_size o1 < length b")
    case True
    then have "ob_write (Bytes b) (o1, s) = (Inr (int (length b)), (o1, s1))"
      using open1 fl kind same
      by (auto simp: ob_write_def by_kind_def idle_reset [OF assms(1)] unless_closed_def
          with_wbuf_def writer_write_def writer_flush_if_over_def writer_add_def writer_flush_def io_defs)
    moreover have "ob_flush (o1, s1) = (Inr (), (o1, s1))"
      by (rule idle_no_pending [OF assms(1) _ fin_open [OF one(2)]]) simp
    ultimately show ?thesis using one by blast
  next
    case False
    then have "ob_write (Bytes b) (o1, s) = (Inr (int (length b)), (o1\<lparr>ob_wbuf := b\<rparr>, s))"
      using open1 kind
      by (auto simp: ob_write_def by_kind_def idle_reset [OF assms(1)] unless_closed_def
          with_wbuf_def writer_write_def writer_flush_if_over_def writer_add_def io_defs)
    moreover have "ob_flush (o1\<lparr>ob_wbuf := b\<rparr>, s) = (Inr (), (o1, if b = [] then s else s1))"
      using open1 kind fl same
      by (simp add: ob_flush_def unless_closed_def by_kind_def with_wbuf_def writer_flush_def)
    ultimately show ?thesis
      using one app_fin [OF assms(2)]
      by (intro exI [of _ "o1\<lparr>ob_wbuf := b\<rparr>"] exI [of _ s] exI [of _ "if b = [] then s else s1"])
        simp
  qed
qed

end

section \<open>What a flush reaches\<close>

lemma py_flags_w:
  "py_open_flags ''wb'' = Some \<lparr>of_access = WrOnly, of_append = False, of_creat = True,
     of_trunc = True, of_excl = False\<rparr>"
  by (simp add: py_open_flags_def py_flags_def py_valid_def)

lemma py_open_w:
  "py_open e p ''wb'' fd fs =
     (Inr (new_obuf BufWriter default_buffer_size fd,
           if en_native e then NativeObj (en_ring e) (native_desc p (file_mode_parse ''wb''))
           else PoolObj (nf_new p ''wb'' (the (py_open_flags ''wb''))) (cp_new default_buffer_size WrOnly)),
      fs(p \<mapsto> []))"
proof -
  have nf: "native_flags ''wb'' = py_open_flags ''wb''"
    by (simp add: native_flags_eq py_flags_w)
  have raw: "open_raw (en_native e) (\<lambda>_. ''object'') (StrPath p) ''wb'' True None fs =
     (Inr (if en_native e then NativeStream p (file_mode_parse ''wb'')
           else FallbackStream (OrigOpen (StrPath p) ''wb'' None None)), fs(p \<mapsto> []))"
    using open_raw_result [of "StrPath p" p "''wb''", OF _ py_flags_w, of "en_native e" "\<lambda>_. ''object''" True fs] nf
    by (simp add: py_flags_w os_open_def split: option.splits)
  show ?thesis
    by (simp add: py_open_def patched_open_path raw_mode_def is_binary_def open_kind_def raw
        buffer_size_def io_defs py_flags_w opened_caps_def need_def mode_readable_def
        mode_writable_def file_mode_parse_def)
qed



end
