(* ===== verification/File_Tasks.thy ===== *)
theory File_Tasks
  imports Open_Files
begin

text \<open>
  Several tasks on one event loop.  A task is a list of steps, one for each stretch between two
  suspensions; \<open>asyncio.gather\<close> runs the steps of all its tasks in some order (the schedule) and
  returns the results in the order of the tasks, or the first exception.  Two ways of reasoning
  about all schedules: tasks that each keep what the others rely on (\<open>local_tasks\<close>), and
  one-step tasks on a shared object (\<open>shared_tasks\<close>).
\<close>

section \<open>gather\<close>

text \<open>Each step is given the value of the task's local variable and returns the new one.\<close>

type_synonym ('w, 'v) steps = "('v \<Rightarrow> ('w, 'v) io) list"

record ('w, 'v) task =
  tk_steps :: "('w, 'v) steps"
  tk_val :: 'v

text \<open>The tasks, the first exception that one of them has raised, and the state they share.\<close>

type_synonym ('w, 'v) tasks = "('w, 'v) task list \<times> py_error option \<times> 'w"

fun run_step :: "nat \<Rightarrow> ('w, 'v) tasks \<Rightarrow> ('w, 'v) tasks" where
  "run_step i (T, exc, w) =
     (if i < length T then
        (case tk_steps (T ! i) of
           [] \<Rightarrow> (T, exc, w)
         | m # ms \<Rightarrow>
             (case m (tk_val (T ! i)) w of
                (Inl e, w') \<Rightarrow>
                  (T[i := (T ! i)\<lparr>tk_steps := []\<rparr>], Some (case exc of Some e' \<Rightarrow> e' | None \<Rightarrow> e), w')
              | (Inr v, w') \<Rightarrow> (T[i := \<lparr>tk_steps = ms, tk_val = v\<rparr>], exc, w')))
      else (T, exc, w))"

definition run_tasks :: "nat list \<Rightarrow> ('w, 'v) tasks \<Rightarrow> ('w, 'v) tasks" where
  "run_tasks sched st = fold run_step sched st"

definition start_tasks :: "('w, 'v) steps list \<Rightarrow> 'v \<Rightarrow> ('w, 'v) task list" where
  "start_tasks progs v0 = map (\<lambda>ms. \<lparr>tk_steps = ms, tk_val = v0\<rparr>) progs"

text \<open>\<open>None\<close> means that the schedule ends before the tasks do.\<close>

definition gather :: "nat list \<Rightarrow> ('w, 'v) steps list \<Rightarrow> 'v \<Rightarrow> ('w, 'v list) blocking_io" where
  "gather sched progs v0 w =
     (case run_tasks sched (start_tasks progs v0, None, w) of
        (T, Some e, w') \<Rightarrow> Some (Inl e, w')
      | (T, None, w') \<Rightarrow>
          if list_all (\<lambda>t. tk_steps t = []) T then Some (Inr (map tk_val T), w') else None)"

text \<open>A schedule that gives every task enough turns.\<close>

definition complete :: "nat list \<Rightarrow> ('w, 'v) steps list \<Rightarrow> bool" where
  "complete sched progs =
     list_all (\<lambda>i. length (progs ! i) \<le> count_list sched i) [0..<length progs]"

section \<open>Tasks that do not disturb each other\<close>

text \<open>
  \<open>inv i k v w\<close>: task \<open>i\<close> has made \<open>k\<close> steps and holds \<open>v\<close>.  A step advances its own task and keeps
  what every other task relies on.
\<close>

locale local_tasks =
  fixes progs :: "('w, 'v) steps list"
    and inv :: "nat \<Rightarrow> nat \<Rightarrow> 'v \<Rightarrow> 'w \<Rightarrow> bool"
  assumes step: "i < length progs \<Longrightarrow> k < length (progs ! i) \<Longrightarrow> inv i k v w \<Longrightarrow>
      \<exists>v' w'. (progs ! i ! k) v w = (Inr v', w') \<and> inv i (Suc k) v' w' \<and>
        (\<forall>j k v. j < length progs \<longrightarrow> j \<noteq> i \<longrightarrow> inv j k v w \<longrightarrow> inv j k v w')"
begin

definition at_steps :: "(nat \<Rightarrow> nat) \<Rightarrow> ('w, 'v) tasks \<Rightarrow> bool" where
  "at_steps pc st = (case st of (T, exc, w) \<Rightarrow>
     exc = None \<and> length T = length progs \<and>
     (\<forall>i < length progs. pc i \<le> length (progs ! i) \<and> tk_steps (T ! i) = drop (pc i) (progs ! i) \<and>
        inv i (pc i) (tk_val (T ! i)) w))"

lemma run_step_at:
  assumes "at_steps pc (T, exc, w)"
  shows "at_steps (\<lambda>j. if j = i then min (Suc (pc i)) (length (progs ! i)) else pc j)
           (run_step i (T, exc, w))"
proof (cases "i < length progs \<and> pc i < length (progs ! i)")
  case True
  with assms have ti: "tk_steps (T ! i) = progs ! i ! pc i # drop (Suc (pc i)) (progs ! i)"
    and len: "length T = length progs" and iv: "inv i (pc i) (tk_val (T ! i)) w" and exc: "exc = None"
    by (simp_all add: at_steps_def Cons_nth_drop_Suc)
  from step [OF _ _ iv] True obtain v' w' where one:
    "(progs ! i ! pc i) (tk_val (T ! i)) w = (Inr v', w')" "inv i (Suc (pc i)) v' w'"
    "\<forall>j k v. j < length progs \<longrightarrow> j \<noteq> i \<longrightarrow> inv j k v w \<longrightarrow> inv j k v w'" by blast
  then have "run_step i (T, exc, w) =
      (T[i := \<lparr>tk_steps = drop (Suc (pc i)) (progs ! i), tk_val = v'\<rparr>], exc, w')"
    using ti len True by simp
  moreover have "min (Suc (pc i)) (length (progs ! i)) = Suc (pc i)" using True by simp
  ultimately show ?thesis using assms one(2,3) len True exc
    by (auto simp: at_steps_def nth_list_update)
next
  case False
  with assms have "run_step i (T, exc, w) = (T, exc, w)" by (auto simp: at_steps_def)
  moreover have "i < length progs \<Longrightarrow> min (Suc (pc i)) (length (progs ! i)) = pc i"
    using False assms by (auto simp: at_steps_def)
  ultimately show ?thesis using assms by (auto simp: at_steps_def)
qed

lemma run_tasks_at:
  assumes "at_steps pc st"
  shows "at_steps (\<lambda>j. min (pc j + count_list sched j) (length (progs ! j))) (run_tasks sched st)"
  using assms
proof (induction sched arbitrary: pc st)
  case Nil
  obtain T exc w where st: "st = (T, exc, w)" by (cases st)
  show ?case using Nil unfolding st by (auto simp: run_tasks_def at_steps_def)
next
  case (Cons i sched)
  obtain T exc w where st: "st = (T, exc, w)" by (cases st)
  let ?pc = "\<lambda>j. if j = i then min (Suc (pc i)) (length (progs ! i)) else pc j"
  from Cons.IH [OF run_step_at [OF Cons.prems [unfolded st], of i]]
  have "at_steps (\<lambda>j. min (?pc j + count_list sched j) (length (progs ! j)))
          (run_tasks (i # sched) st)" by (simp add: run_tasks_def st)
  moreover have "(\<lambda>j. min (?pc j + count_list sched j) (length (progs ! j))) =
      (\<lambda>j. min (pc j + count_list (i # sched) j) (length (progs ! j)))"
    by (rule ext) (auto simp: min_def)
  ultimately show ?case by simp
qed

lemma gather_local:
  assumes "\<forall>i < length progs. inv i 0 v0 w" and "complete sched progs"
  shows "\<exists>vs w'. gather sched progs v0 w = Some (Inr vs, w') \<and> length vs = length progs \<and>
           (\<forall>i < length progs. inv i (length (progs ! i)) (vs ! i) w')"
proof -
  have "at_steps (\<lambda>_. 0) (start_tasks progs v0, None, w)"
    using assms(1) by (simp add: at_steps_def start_tasks_def)
  from run_tasks_at [OF this, of sched] obtain T w' where
    run: "run_tasks sched (start_tasks progs v0, None, w) = (T, None, w')"
    and T: "length T = length progs"
    and at: "\<forall>i < length progs. tk_steps (T ! i) =
          drop (min (count_list sched i) (length (progs ! i))) (progs ! i) \<and>
        inv i (min (count_list sched i) (length (progs ! i))) (tk_val (T ! i)) w'"
    by (auto simp: at_steps_def split: prod.splits)
  have enough: "\<forall>i < length progs. min (count_list sched i) (length (progs ! i)) = length (progs ! i)"
    using assms(2) by (auto simp: complete_def list_all_iff)
  with at T have "list_all (\<lambda>t. tk_steps t = []) T"
    by (auto simp: list_all_length)
  with run T at enough show ?thesis by (auto simp: gather_def)
qed

end

section \<open>One-step tasks on a shared object\<close>

text \<open>
  \<open>inv is w\<close>: the tasks \<open>is\<close> have run, in that order.  Whatever ran before, task \<open>i\<close> returns \<open>res i\<close>.
\<close>

locale shared_tasks =
  fixes op :: "nat \<Rightarrow> 'v \<Rightarrow> ('w, 'v) io"
    and res :: "nat \<Rightarrow> 'v"
    and inv :: "nat list \<Rightarrow> 'w \<Rightarrow> bool"
    and n :: nat
    and v0 :: 'v
  assumes run: "i < n \<Longrightarrow> i \<notin> set is \<Longrightarrow> distinct is \<Longrightarrow> set is \<subseteq> {..<n} \<Longrightarrow> inv is w \<Longrightarrow>
      \<exists>w'. op i v0 w = (Inr (res i), w') \<and> inv (is @ [i]) w'"
begin

abbreviation shared_progs :: "('w, 'v) steps list" where
  "shared_progs \<equiv> map (\<lambda>i. [op i]) [0..<n]"

definition after :: "nat list \<Rightarrow> ('w, 'v) task list" where
  "after is = map (\<lambda>i. if i \<in> set is then \<lparr>tk_steps = [], tk_val = res i\<rparr>
                       else \<lparr>tk_steps = [op i], tk_val = v0\<rparr>) [0..<n]"

lemma run_shared:
  assumes "distinct is" and "set is \<subseteq> {..<n}" and "inv is w"
  shows "\<exists>js w'. run_tasks sched (after is, None, w) = (after js, None, w') \<and> distinct js \<and>
           set js = set is \<union> (set sched \<inter> {..<n}) \<and> inv js w'"
  using assms
proof (induction sched arbitrary: "is" w)
  case Nil
  then show ?case by (auto simp: run_tasks_def)
next
  case (Cons i sched)
  show ?case
  proof (cases "i < n \<and> i \<notin> set is")
    case True
    with run [of i "is" w] Cons.prems obtain w1 where one:
      "op i v0 w = (Inr (res i), w1)" "inv (is @ [i]) w1" by blast
    have upd: "(after is)[i := \<lparr>tk_steps = [], tk_val = res i\<rparr>] = after (is @ [i])"
      using True by (intro nth_equalityI) (auto simp: after_def nth_list_update)
    have "after is ! i = \<lparr>tk_steps = [op i], tk_val = v0\<rparr>" "length (after is) = n"
      using True by (simp_all add: after_def)
    then have "run_step i (after is, None, w) = (after (is @ [i]), None, w1)"
      using one(1) upd True by simp
    with Cons.IH [of "is @ [i]" w1] Cons.prems one(2) True show ?thesis
      by (auto simp: run_tasks_def)
  next
    case False
    then have "run_step i (after is, None, w) = (after is, None, w)"
      by (auto simp: after_def)
    with Cons.IH [OF Cons.prems] Cons.prems(2) False show ?thesis
      by (auto simp: run_tasks_def)
  qed
qed

lemma gather_shared:
  assumes "inv [] w" and "complete sched shared_progs"
  shows "\<exists>is w'. gather sched shared_progs v0 w = Some (Inr (map res [0..<n]), w') \<and>
           distinct is \<and> set is = {..<n} \<and> inv is w'"
proof -
  have start: "start_tasks shared_progs v0 = after []"
    by (simp add: start_tasks_def after_def)
  from run_shared [of "[]" w sched] assms(1) obtain js w' where
    run: "run_tasks sched (after [], None, w) = (after js, None, w')" "distinct js"
    "set js = set sched \<inter> {..<n}" "inv js w'" by auto
  have "i \<in> set sched" if "i < n" for i
  proof (rule ccontr)
    assume "i \<notin> set sched"
    then have "count_list sched i = 0" by (rule count_notin)
    moreover have "1 \<le> count_list sched i"
      using assms(2) that by (simp add: complete_def list_all_iff)
    ultimately show False by simp
  qed
  then have all: "set js = {..<n}" using run(3) by auto
  then have "after js = map (\<lambda>i. \<lparr>tk_steps = [], tk_val = res i\<rparr>) [0..<n]"
    by (auto simp: after_def)
  with run(1,2,4) all show ?thesis
    by (auto simp: gather_def start list_all_iff comp_def)
qed

end

section \<open>Objects in the table\<close>

text \<open>Variable \<open>k\<close> holds an object with empty buffers whose raw stream satisfies \<open>P\<close>.\<close>

definition holds :: "(rstate \<Rightarrow> bool) \<Rightarrow> buf_kind \<Rightarrow> nat \<Rightarrow> world \<Rightarrow> bool" where
  "holds P kind k w = (\<exists>o1 r. snd w k = Some (o1, r) \<and> idle kind o1 \<and> P (fst w, r))"

text \<open>At most the file \<open>p\<close> and the variable \<open>k\<close> have changed.\<close>

definition keeps :: "string \<Rightarrow> nat \<Rightarrow> world \<Rightarrow> world \<Rightarrow> bool" where
  "keeps p k w w' = (same_else p (fst w) (fst w') \<and> (\<forall>j. j \<noteq> k \<longrightarrow> snd w' j = snd w j))"

lemma keeps_refl [simp]: "keeps p k w w"
  by (simp add: keeps_def)

lemma keeps_trans: "keeps p k a b \<Longrightarrow> keeps p k b c \<Longrightarrow> keeps p k a c"
  by (auto simp: keeps_def intro: same_else_trans)

lemma keeps_file: "keeps p k w w' \<Longrightarrow> q \<noteq> p \<Longrightarrow> fst w' q = fst w q"
  by (simp add: keeps_def same_else_def)

lemma at_law:
  assumes "holds P kind k w"
    and "\<And>o1 s. idle kind o1 \<Longrightarrow> P s \<Longrightarrow>
           \<exists>s'. m (o1, s) = (Inr x, (o1, s')) \<and> Q s' \<and> same_else p (fst s) (fst s')"
  shows "\<exists>w'. at k m w = (Inr x, w') \<and> holds Q kind k w' \<and> keeps p k w w'"
proof -
  obtain fs H where w: "w = (fs, H)" by (cases w)
  with assms(1) obtain o1 r where ob: "H k = Some (o1, r)" "idle kind o1" "P (fs, r)"
    by (auto simp: holds_def)
  from assms(2) [OF ob(2,3)] obtain fs' r' where
    "m (o1, (fs, r)) = (Inr x, (o1, (fs', r')))" "Q (fs', r')" "same_else p fs fs'"
    by (metis fst_conv surj_pair)
  with ob w show ?thesis by (auto simp: at_def holds_def keeps_def)
qed

context raw_file
begin

lemma w_open_write:
  "\<exists>w'. w_open e k p ''w+b'' w = (Inr (), w') \<and> holds (app p []) BufRandom k w' \<and> keeps p k w w'"
proof -
  obtain fs H where w: "w = (fs, H)" by (cases w)
  from open_write [of p "3 + int k" fs] show ?thesis
    by (auto simp: w w_open_def holds_def keeps_def)
qed

lemma w_open_read:
  assumes "fst w p = Some c"
  shows "\<exists>w'. w_open e k p ''rb'' w = (Inr (), w') \<and> holds (rdp p c 0) BufReader k w' \<and>
              keeps p k w w' \<and> fst w' = fst w"
proof -
  obtain fs H where w: "w = (fs, H)" by (cases w)
  from open_read [of fs p c "3 + int k"] assms show ?thesis
    by (auto simp: w w_open_def holds_def keeps_def)
qed

lemma w_awrite:
  "holds (app p c) BufRandom k w \<Longrightarrow> length b < 2 ^ 32 \<Longrightarrow>
   \<exists>w'. at k (ob_awrite (Bytes b)) w = (Inr (int (length b)), w') \<and>
        holds (app p (c @ b)) BufRandom k w' \<and> keeps p k w w'"
  using ob_awrite_law by (intro at_law)

lemma w_awrite_batch:
  "holds (app p c) BufRandom k w \<Longrightarrow> \<forall>b \<in> set bs. length b < 2 ^ 32 \<Longrightarrow>
   \<exists>w'. at k (ob_awrite_batch (map Bytes bs)) w = (Inr (map (int \<circ> length) bs), w') \<and>
        holds (app p (c @ concat bs)) BufRandom k w' \<and> keeps p k w w'"
  using ob_awrite_batch_law by (intro at_law)

lemma w_aflush_app:
  assumes "holds (app p c) BufRandom k w"
  shows "\<exists>w'. at k ob_aflush w = (Inr (), w') \<and> holds (app p c) BufRandom k w' \<and> keeps p k w w'"
proof (rule at_law [OF assms])
  fix o1 s assume "idle BufRandom o1" "app p c s"
  with idle_no_pending [of BufRandom o1 s] fin_open [OF app_fin [of p c s]]
  show "\<exists>s'. ob_aflush (o1, s) = (Inr (), (o1, s')) \<and> app p c s' \<and> same_else p (fst s) (fst s')"
    by (simp add: ob_aflush_def)
qed

lemma w_seek:
  "holds (app p c) BufRandom k w \<Longrightarrow>
   \<exists>w'. at k (ob_seek 0 0) w = (Inr 0, w') \<and> holds (rdp p c 0) BufRandom k w' \<and> keeps p k w w'"
  using ob_seek_law by (intro at_law)

lemma w_aread:
  assumes "holds (rdp p c j) kind k w" and "kind \<noteq> BufWriter" and "0 \<le> n" and "n < 2 ^ 32"
  shows "\<exists>w'. at k (ob_aread n) w = (Inr (Bytes (take (nat n) (drop j c))), w') \<and>
           holds (\<lambda>s. \<exists>j'. rdp p c j' s \<and> (j' = 0 \<or> j' = j + length (take (nat n) (drop j c)))) kind k w' \<and>
           keeps p k w w'"
proof (rule at_law [OF assms(1)])
  fix o1 s assume "idle kind o1" "rdp p c j s"
  with assms(2) ob_aread_law [of o1 p c j s n] assms(3,4)
  show "\<exists>s'. ob_aread n (o1, s) = (Inr (Bytes (take (nat n) (drop j c))), (o1, s')) \<and>
      (\<exists>j'. rdp p c j' s' \<and> (j' = 0 \<or> j' = j + length (take (nat n) (drop j c)))) \<and>
      same_else p (fst s) (fst s')"
    by (fastforce simp: idle_def)
qed

lemma w_aread_all:
  assumes "holds (rdp p c 0) kind k w" and "kind \<noteq> BufWriter" and "length c \<le> 65536"
  shows "\<exists>w'. at k (ob_aread (-1)) w = (Inr (Bytes c), w') \<and> holds (fin p c) kind k w' \<and>
           keeps p k w w'"
proof (rule at_law [OF assms(1)])
  fix o1 s assume "idle kind o1" "rdp p c 0 s"
  with assms(2) aread_all_law [of p c s] assms(3)
  show "\<exists>s'. ob_aread (-1) (o1, s) = (Inr (Bytes c), (o1, s')) \<and> fin p c s' \<and>
      same_else p (fst s) (fst s')"
    by (auto simp: idle_def ob_async_raw)
qed

lemma w_aread_batch:
  assumes "holds (rdp p c 0) kind k w" and "kind \<noteq> BufWriter" and "\<forall>n \<in> set ns. n < 2 ^ 32"
  shows "\<exists>w'. at k (ob_aread_batch (map (\<lambda>n. Size (int n)) ns)) w = (Inr (map Bytes (cut ns c)), w') \<and>
           holds (fin p c) kind k w' \<and> keeps p k w w'"
proof (rule at_law [OF assms(1)])
  fix o1 s assume "idle kind o1" "rdp p c 0 s"
  with assms(2,3) show "\<exists>s'. ob_aread_batch (map (\<lambda>n. Size (int n)) ns) (o1, s) =
      (Inr (map Bytes (cut ns c)), (o1, s')) \<and> fin p c s' \<and> same_else p (fst s) (fst s')"
    by (intro ob_aread_batch_law) (auto simp: idle_def)
qed

lemma w_read_all:
  assumes "holds (rdp p c 0) kind k w" and "kind \<noteq> BufWriter"
  shows "\<exists>w'. at k (ob_read (-1)) w = (Inr (Bytes c), w') \<and> holds (fin p c) kind k w' \<and>
           keeps p k w w'"
  using ob_read_all_law assms(2) by (intro at_law [OF assms(1)])

lemma w_close:
  assumes "holds (fin p c) kind k w"
  shows "\<exists>w'. at k ob_close w = (Inr (), w') \<and> fst w' p = Some c \<and> keeps p k w w'"
proof -
  from at_law [OF assms, of ob_close "()" "\<lambda>s. fst s p = Some c" p] ob_close_law
  show ?thesis by (fastforce simp: holds_def)
qed

lemma holds_fin:
  "holds (app p c) kind k w \<Longrightarrow> holds (fin p c) kind k w"
  "holds (rdp p c j) kind k w \<Longrightarrow> holds (fin p c) kind k w"
  by (auto simp: holds_def intro: app_fin rdp_fin)

lemma holds_kept:
  assumes "keeps q j w w'" and "q \<noteq> p" and "j \<noteq> k"
  shows "holds (app p c) kind k w \<Longrightarrow> holds (app p c) kind k w'"
    and "holds (rdp p c i) kind k w \<Longrightarrow> holds (rdp p c i) kind k w'"
    and "holds (fin p c) kind k w \<Longrightarrow> holds (fin p c) kind k w'"
proof -
  have "fst w' p = fst w p" "snd w' k = snd w k" using assms by (auto simp: keeps_def same_else_def)
  then show "holds (app p c) kind k w \<Longrightarrow> holds (app p c) kind k w'"
    "holds (rdp p c i) kind k w \<Longrightarrow> holds (rdp p c i) kind k w'"
    "holds (fin p c) kind k w \<Longrightarrow> holds (fin p c) kind k w'"
    by (auto simp: holds_def intro: app_local rdp_local fin_local)
qed

end

end
