(* ===== verification/Example_Scale.thy ===== *)
theory Example_Scale
  imports File_Tasks
begin

text \<open>
  \<open>examples/07_scale_5000_files_benchmark.py\<close>: the same 5000 files written and read one after the
  other, and by tasks in chunks of 500, on whichever engine \<open>open\<close> uses.  Directories are not part
  of the file system of the model, clocks and printing are left out.
\<close>

section \<open>The script\<close>

definition num_files :: nat where
  "num_files = 5000"

definition ascii_bytes :: "string \<Rightarrow> bytes" where
  "ascii_bytes s = map (\<lambda>c. word_of_nat (of_char c)) s"

definition scale_payload :: bytes where
  "scale_payload = concat (replicate 10
     (ascii_bytes (''High-performance py-native-io kernel ring stream payload'' @ [CHR 0x0A])))"

text \<open>\<open>os.path.join\<close>\<close>

definition path_join :: "string \<Rightarrow> string \<Rightarrow> string" where
  "path_join a b =
     (if b \<noteq> [] \<and> hd b = CHR ''/'' then b
      else if a = [] \<or> last a = CHR ''/'' then a @ b else a @ ''/'' @ b)"

definition file_paths :: "string \<Rightarrow> nat \<Rightarrow> string list" where
  "file_paths d n = map (\<lambda>i. path_join d (''file_'' @ nat_str i @ ''.bin'')) [0..<n]"

text \<open>The local variable \<open>f\<close> of a loop is variable 0.\<close>

definition sync_write_file :: "engine_choice \<Rightarrow> string \<Rightarrow> (world, unit) io" where
  "sync_write_file e path =
     io_bind (w_open e 0 path ''w+b'') (\<lambda>_.
     io_bind (at 0 (ob_write (Bytes scale_payload))) (\<lambda>_.
     io_bind (at 0 ob_flush) (\<lambda>_. at 0 ob_close)))"

definition sync_read_file :: "engine_choice \<Rightarrow> string \<Rightarrow> (world, pydata) io" where
  "sync_read_file e path =
     io_bind (w_open e 0 path ''rb'') (\<lambda>_.
     io_bind (at 0 (ob_read (-1))) (\<lambda>data.
     io_bind (at 0 ob_close) (\<lambda>_. io_return data)))"

definition run_sync_benchmark :: "engine_choice \<Rightarrow> string \<Rightarrow> (world, pydata list) io" where
  "run_sync_benchmark e temp_dir =
     (let paths = file_paths (path_join temp_dir ''sync'') num_files in
      io_bind (io_map (sync_write_file e) paths) (\<lambda>_. io_map (sync_read_file e) paths))"

text \<open>
  The coroutines, as the steps between their suspensions; \<open>k\<close> numbers the task and is its
  variable \<open>f\<close>, the value is the variable \<open>data\<close>.
\<close>

definition write_async_file :: "engine_choice \<Rightarrow> nat \<Rightarrow> string \<Rightarrow> (world, pydata) steps" where
  "write_async_file e k path =
     [\<lambda>v. io_bind (w_open e k path ''w+b'') (\<lambda>_. io_return v),
      \<lambda>v. io_bind (at k (ob_awrite (Bytes scale_payload))) (\<lambda>_. io_return v),
      \<lambda>v. io_bind (at k ob_aflush) (\<lambda>_. io_return v),
      \<lambda>v. io_bind (at k ob_close) (\<lambda>_. io_return v)]"

definition read_async_file :: "engine_choice \<Rightarrow> nat \<Rightarrow> string \<Rightarrow> (world, pydata) steps" where
  "read_async_file e k path =
     [\<lambda>v. io_bind (w_open e k path ''rb'') (\<lambda>_. io_return v),
      \<lambda>v. at k (ob_aread (-1)),
      \<lambda>v. io_bind (at k ob_close) (\<lambda>_. io_return v)]"

text \<open>\<open>file_paths[i : i + chunk_size]\<close> for \<open>i\<close> in \<open>range(0, NUM_FILES, chunk_size)\<close>.\<close>

definition path_chunks :: "nat \<Rightarrow> 'a list \<Rightarrow> 'a list list" where
  "path_chunks sz xs =
     map (\<lambda>j. take sz (drop (j * sz) xs)) [0..<(length xs + sz - 1) div sz]"

definition chunk_tasks ::
  "(nat \<Rightarrow> string \<Rightarrow> (world, pydata) steps) \<Rightarrow> string list \<Rightarrow> (world, pydata) steps list" where
  "chunk_tasks coroutine paths = map (\<lambda>k. coroutine k (paths ! k)) [0..<length paths]"

text \<open>One \<open>gather\<close> after the other, each with its schedule.\<close>

fun gather_chunks ::
  "(nat \<Rightarrow> string \<Rightarrow> (world, pydata) steps) \<Rightarrow> nat list list \<Rightarrow> string list list
     \<Rightarrow> (world, pydata list) blocking_io" where
  "gather_chunks coroutine scheds [] w = Some (Inr [], w)"
| "gather_chunks coroutine [] (c # cs) w = None"
| "gather_chunks coroutine (s # scheds) (c # cs) w =
     (case gather s (chunk_tasks coroutine c) (Bytes []) w of
        None \<Rightarrow> None
      | Some (Inl e, w') \<Rightarrow> Some (Inl e, w')
      | Some (Inr vs, w') \<Rightarrow>
          (case gather_chunks coroutine scheds cs w' of
             None \<Rightarrow> None
           | Some (Inl e, w'') \<Rightarrow> Some (Inl e, w'')
           | Some (Inr vs', w'') \<Rightarrow> Some (Inr (vs @ vs'), w'')))"

definition run_async_benchmark ::
  "engine_choice \<Rightarrow> nat list list \<Rightarrow> nat list list \<Rightarrow> string \<Rightarrow> (world, pydata list) blocking_io" where
  "run_async_benchmark e wscheds rscheds temp_dir w =
     (let chunks = path_chunks 500 (file_paths (path_join temp_dir ''async'') num_files) in
      case gather_chunks (write_async_file e) wscheds chunks w of
        None \<Rightarrow> None
      | Some (Inl er, w') \<Rightarrow> Some (Inl er, w')
      | Some (Inr _, w') \<Rightarrow> gather_chunks (read_async_file e) rscheds chunks w')"

text \<open>
  \<open>main()\<close>: both benchmarks in a fresh directory, which \<open>shutil.rmtree\<close> deletes whatever happens.
\<close>

definition rmtree :: "string \<Rightarrow> fs \<Rightarrow> fs" where
  "rmtree d fs = (\<lambda>q. if take (Suc (length d)) q = d @ ''/'' then None else fs q)"

definition scale_main ::
  "engine_choice \<Rightarrow> nat list list \<Rightarrow> nat list list \<Rightarrow> string \<Rightarrow> (world, pydata list \<times> pydata list) blocking_io" where
  "scale_main e wscheds rscheds base_dir w =
     (case run_sync_benchmark e base_dir w of
        (Inl er, (fs, H)) \<Rightarrow> Some (Inl er, (rmtree base_dir fs, H))
      | (Inr sync_data, w1) \<Rightarrow>
          (case run_async_benchmark e wscheds rscheds base_dir w1 of
             None \<Rightarrow> None
           | Some (r, (fs, H)) \<Rightarrow>
               Some (map_sum id (Pair sync_data) r, (rmtree base_dir fs, H))))"

section \<open>The names of the files\<close>

definition digits_val :: "string \<Rightarrow> nat" where
  "digits_val = foldl (\<lambda>a c. 10 * a + (of_char c - 48)) 0"

lemma digits_nat_str: "digits_val (nat_str n) = n"
proof (induction n rule: nat_str.induct)
  case (1 n)
  show ?case
  proof (cases "n < 10")
    case True
    then show ?thesis by (simp add: nat_str.simps [of n] digits_val_def)
  next
    case False
    have "n mod 10 < 10" by simp
    then have "n mod 10 + 48 < 256" by linarith
    then show ?thesis
      using 1 False by (simp add: nat_str.simps [of n] digits_val_def)
  qed
qed

lemma nat_str_inj: "nat_str a = nat_str b \<Longrightarrow> a = b"
  by (metis digits_nat_str)

lemma path_join_file: "path_join d (''file_'' @ x) = path_join d ''file_'' @ x"
  by (simp add: path_join_def)

lemma distinct_file_paths: "distinct (file_paths d n)"
  unfolding file_paths_def path_join_file
  by (auto simp: distinct_map inj_on_def dest: nat_str_inj)

lemma length_file_paths [simp]: "length (file_paths d n) = n"
  by (simp add: file_paths_def)

lemma concat_chunk_list:
  "concat (map (\<lambda>j. take sz (drop (j * sz) xs)) [0..<m]) = take (m * sz) xs"
proof (induction m)
  case (Suc m)
  have "take (Suc m * sz) xs = take (m * sz) xs @ take sz (drop (m * sz) xs)"
    using take_add [of "m * sz" sz xs] by (simp add: add.commute)
  with Suc show ?case by simp
qed simp

lemma concat_path_chunks:
  assumes "0 < sz"
  shows "concat (path_chunks sz xs) = xs"
proof -
  let ?k = "(length xs + sz - 1) div sz"
  have "length xs + sz - 1 < Suc ?k * sz"
    using assms dividend_less_times_div [of sz "length xs + sz - 1"] by (simp add: mult.commute)
  then have "length xs \<le> ?k * sz" using assms by simp
  then show ?thesis by (simp add: path_chunks_def concat_chunk_list)
qed

section \<open>The tasks of a chunk\<close>

lemma length_repeat: "length (concat (replicate n xs)) = n * length xs"
  by (induction n) simp_all

lemma length_scale_payload: "length scale_payload = 570"
  unfolding scale_payload_def length_repeat by (simp add: ascii_bytes_def)

text \<open>
  How far task \<open>i\<close> of a chunk has come.  Files outside the chunk are as at the start.
\<close>

definition chunk_frame :: "fs \<Rightarrow> string list \<Rightarrow> nat \<Rightarrow> world \<Rightarrow> bool" where
  "chunk_frame fs0 paths i w =
     (distinct paths \<and> i < length paths \<and> (\<forall>q. q \<notin> set paths \<longrightarrow> fst w q = fs0 q))"

fun write_stage ::
  "(string \<Rightarrow> bytes \<Rightarrow> rstate \<Rightarrow> bool) \<Rightarrow> string \<Rightarrow> nat \<Rightarrow> nat \<Rightarrow> world \<Rightarrow> bool" where
  "write_stage app p i 0 w = True"
| "write_stage app p i (Suc 0) w = holds (app p []) BufRandom i w"
| "write_stage app p i (Suc (Suc 0)) w = holds (app p scale_payload) BufRandom i w"
| "write_stage app p i (Suc (Suc (Suc 0))) w = holds (app p scale_payload) BufRandom i w"
| "write_stage app p i (Suc (Suc (Suc (Suc k)))) w = (fst w p = Some scale_payload)"

definition write_inv ::
  "(string \<Rightarrow> bytes \<Rightarrow> rstate \<Rightarrow> bool) \<Rightarrow> fs \<Rightarrow> string list \<Rightarrow> nat \<Rightarrow> nat \<Rightarrow> pydata \<Rightarrow> world \<Rightarrow> bool" where
  "write_inv app fs0 paths i k v w =
     (chunk_frame fs0 paths i w \<and> write_stage app (paths ! i) i k w)"

fun read_stage ::
  "(string \<Rightarrow> bytes \<Rightarrow> nat \<Rightarrow> rstate \<Rightarrow> bool) \<Rightarrow> (string \<Rightarrow> bytes \<Rightarrow> rstate \<Rightarrow> bool) \<Rightarrow> string \<Rightarrow> nat \<Rightarrow> nat
     \<Rightarrow> pydata \<Rightarrow> world \<Rightarrow> bool" where
  "read_stage rdp fin p i 0 v w = (fst w p = Some scale_payload)"
| "read_stage rdp fin p i (Suc 0) v w = holds (rdp p scale_payload 0) BufReader i w"
| "read_stage rdp fin p i (Suc (Suc 0)) v w =
     (holds (fin p scale_payload) BufReader i w \<and> v = Bytes scale_payload)"
| "read_stage rdp fin p i (Suc (Suc (Suc k))) v w =
     (fst w p = Some scale_payload \<and> v = Bytes scale_payload)"

definition read_inv ::
  "(string \<Rightarrow> bytes \<Rightarrow> nat \<Rightarrow> rstate \<Rightarrow> bool) \<Rightarrow> (string \<Rightarrow> bytes \<Rightarrow> rstate \<Rightarrow> bool) \<Rightarrow> fs \<Rightarrow> string list
     \<Rightarrow> nat \<Rightarrow> nat \<Rightarrow> pydata \<Rightarrow> world \<Rightarrow> bool" where
  "read_inv rdp fin fs0 paths i k v w =
     (chunk_frame fs0 paths i w \<and> read_stage rdp fin (paths ! i) i k v w)"

lemma chunk_frame_kept:
  assumes "chunk_frame fs0 paths i w" and "keeps (paths ! i) i w w'" and "j < length paths"
  shows "chunk_frame fs0 paths j w'"
proof -
  have "fst w' q = fst w q" if "q \<notin> set paths" for q
    using that assms(1) by (intro keeps_file [OF assms(2)]) (auto simp: chunk_frame_def)
  with assms(1,3) show ?thesis by (simp add: chunk_frame_def)
qed

lemma chunk_paths_differ:
  "chunk_frame fs0 paths i w \<Longrightarrow> j < length paths \<Longrightarrow> j \<noteq> i \<Longrightarrow> paths ! i \<noteq> paths ! j"
  by (simp add: chunk_frame_def nth_eq_iff_index_eq)

lemma nth_chunk_tasks [simp]:
  "i < length paths \<Longrightarrow> chunk_tasks coroutine paths ! i = coroutine i (paths ! i)"
  "length (chunk_tasks coroutine paths) = length paths"
  by (simp_all add: chunk_tasks_def)

context raw_file
begin

lemma write_stage_kept:
  assumes "keeps q j w w'" and "q \<noteq> p" and "j \<noteq> i" and "write_stage app p i k w"
  shows "write_stage app p i k w'"
  using assms(4) holds_kept(1) [OF assms(1-3)] keeps_file [OF assms(1), of p] assms(2)
  by (cases "(app, p, i, k, w)" rule: write_stage.cases) auto

lemma read_stage_kept:
  assumes "keeps q j w w'" and "q \<noteq> p" and "j \<noteq> i" and "read_stage rdp fin p i k v w"
  shows "read_stage rdp fin p i k v w'"
  using assms(4) holds_kept(2,3) [OF assms(1-3)] keeps_file [OF assms(1), of p] assms(2)
  by (cases "(rdp, fin, p, i, k, v, w)" rule: read_stage.cases) auto

lemma write_step:
  assumes "k < 4" and "write_stage app p i k w"
  shows "\<exists>w'. (write_async_file e i p ! k) v w = (Inr v, w') \<and> write_stage app p i (Suc k) w' \<and>
              keeps p i w w'"
proof -
  from assms(1) consider "k = 0" | "k = Suc 0" | "k = Suc (Suc 0)" | "k = Suc (Suc (Suc 0))"
    by linarith
  then show ?thesis
  proof cases
    case 1
    with w_open_write [of i p w] show ?thesis by (auto simp: write_async_file_def io_defs)
  next
    case 2
    with assms(2) w_awrite [of p "[]" i w scale_payload] show ?thesis
      by (auto simp: write_async_file_def io_defs length_scale_payload)
  next
    case 3
    with assms(2) w_aflush_app [of p scale_payload i w] show ?thesis
      by (auto simp: write_async_file_def io_defs)
  next
    case 4
    with assms(2) w_close [OF holds_fin(1) [of p scale_payload BufRandom i w]] show ?thesis
      by (auto simp: write_async_file_def io_defs)
  qed
qed

lemma read_step:
  assumes "k < 3" and "read_stage rdp fin p i k v w"
  shows "\<exists>v' w'. (read_async_file e i p ! k) v w = (Inr v', w') \<and>
              read_stage rdp fin p i (Suc k) v' w' \<and> keeps p i w w'"
proof -
  from assms(1) consider "k = 0" | "k = Suc 0" | "k = Suc (Suc 0)" by linarith
  then show ?thesis
  proof cases
    case 1
    with assms(2) w_open_read [of w p scale_payload i] show ?thesis
      by (auto simp: read_async_file_def io_defs)
  next
    case 2
    with assms(2) w_aread_all [of p scale_payload BufReader i w] show ?thesis
      by (auto simp: read_async_file_def io_defs length_scale_payload)
  next
    case 3
    with assms(2) w_close [of p scale_payload BufReader i w] show ?thesis
      by (auto simp: read_async_file_def io_defs)
  qed
qed

end

sublocale raw_file \<subseteq> writers: local_tasks "chunk_tasks (write_async_file e) paths" "write_inv app fs0 paths"
  for paths fs0
proof
  fix i k v w
  assume i: "i < length (chunk_tasks (write_async_file e) paths)"
    and k: "k < length (chunk_tasks (write_async_file e) paths ! i)"
    and inv: "write_inv app fs0 paths i k v w"
  then have k4: "k < 4" and frame: "chunk_frame fs0 paths i w"
    and stage: "write_stage app (paths ! i) i k w"
    by (simp_all add: write_async_file_def write_inv_def)
  from write_step [OF k4 stage, of v] obtain w' where w':
    "(write_async_file e i (paths ! i) ! k) v w = (Inr v, w')"
    "write_stage app (paths ! i) i (Suc k) w'" "keeps (paths ! i) i w w'" by blast
  have "write_inv app fs0 paths j k' v' w'"
    if "j < length paths" "j \<noteq> i" "write_inv app fs0 paths j k' v' w" for j k' v'
    using that chunk_frame_kept [OF frame w'(3)] write_stage_kept [OF w'(3) chunk_paths_differ [OF frame]]
    by (auto simp: write_inv_def)
  with i w' chunk_frame_kept [OF frame w'(3)]
  show "\<exists>v' w'. (chunk_tasks (write_async_file e) paths ! i ! k) v w = (Inr v', w') \<and>
      write_inv app fs0 paths i (Suc k) v' w' \<and>
      (\<forall>j k v. j < length (chunk_tasks (write_async_file e) paths) \<longrightarrow> j \<noteq> i \<longrightarrow>
         write_inv app fs0 paths j k v w \<longrightarrow> write_inv app fs0 paths j k v w')"
    by (auto simp: write_inv_def)
qed

sublocale raw_file \<subseteq> readers: local_tasks "chunk_tasks (read_async_file e) paths" "read_inv rdp fin fs0 paths"
  for paths fs0
proof
  fix i k v w
  assume i: "i < length (chunk_tasks (read_async_file e) paths)"
    and k: "k < length (chunk_tasks (read_async_file e) paths ! i)"
    and inv: "read_inv rdp fin fs0 paths i k v w"
  then have k3: "k < 3" and frame: "chunk_frame fs0 paths i w"
    and stage: "read_stage rdp fin (paths ! i) i k v w"
    by (simp_all add: read_async_file_def read_inv_def)
  from read_step [OF k3 stage] obtain v1 w' where w':
    "(read_async_file e i (paths ! i) ! k) v w = (Inr v1, w')"
    "read_stage rdp fin (paths ! i) i (Suc k) v1 w'" "keeps (paths ! i) i w w'" by blast
  have "read_inv rdp fin fs0 paths j k' v' w'"
    if "j < length paths" "j \<noteq> i" "read_inv rdp fin fs0 paths j k' v' w" for j k' v'
    using that chunk_frame_kept [OF frame w'(3)] read_stage_kept [OF w'(3) chunk_paths_differ [OF frame]]
    by (auto simp: read_inv_def)
  with i w' chunk_frame_kept [OF frame w'(3)]
  show "\<exists>v' w'. (chunk_tasks (read_async_file e) paths ! i ! k) v w = (Inr v', w') \<and>
      read_inv rdp fin fs0 paths i (Suc k) v' w' \<and>
      (\<forall>j k v. j < length (chunk_tasks (read_async_file e) paths) \<longrightarrow> j \<noteq> i \<longrightarrow>
         read_inv rdp fin fs0 paths j k v w \<longrightarrow> read_inv rdp fin fs0 paths j k v w')"
    by (auto simp: read_inv_def)
qed

section \<open>All files\<close>

lemma at_bind: "at k (io_bind m f) = io_bind (at k m) (\<lambda>x. at k (f x))"
  by (rule ext) (auto simp: at_def io_bind_def split: option.splits prod.splits sum.splits)

lemma length_write_async: "length (write_async_file e k p) = Suc (Suc (Suc (Suc 0)))"
  by (simp add: write_async_file_def)

lemma length_read_async: "length (read_async_file e k p) = Suc (Suc (Suc 0))"
  by (simp add: read_async_file_def)

context raw_file
begin

lemma sync_write_law:
  "\<exists>w'. sync_write_file e p w = (Inr (), w') \<and> fst w' p = Some scale_payload \<and> keeps p 0 w w'"
proof -
  from w_open_write [of 0 p w] obtain w1 where one:
    "w_open e 0 p ''w+b'' w = (Inr (), w1)" "holds (app p []) BufRandom 0 w1" "keeps p 0 w w1" by blast
  have "\<exists>w2. at 0 (io_bind (ob_write (Bytes scale_payload)) (\<lambda>_. ob_flush)) w1 = (Inr (), w2) \<and>
          holds (fin p scale_payload) BufRandom 0 w2 \<and> keeps p 0 w1 w2"
    using ob_write_flush_law [of _ p _ scale_payload]
    by (intro at_law [OF one(2)]) (fastforce simp: io_defs)
  then obtain w2 where two: "at 0 (io_bind (ob_write (Bytes scale_payload)) (\<lambda>_. ob_flush)) w1 = (Inr (), w2)"
    "holds (fin p scale_payload) BufRandom 0 w2" "keeps p 0 w1 w2" by blast
  from w_close [OF two(2)] obtain w3 where three:
    "at 0 ob_close w2 = (Inr (), w3)" "fst w3 p = Some scale_payload" "keeps p 0 w2 w3" by blast
  have "sync_write_file e p =
      io_bind (w_open e 0 p ''w+b'') (\<lambda>_. io_bind (at 0 (io_bind (ob_write (Bytes scale_payload)) (\<lambda>_. ob_flush)))
        (\<lambda>_. at 0 ob_close))"
    by (simp add: sync_write_file_def at_bind io_bind_assoc)
  with one two three show ?thesis by (auto intro: keeps_trans)
qed

lemma sync_read_law:
  assumes "fst w p = Some c"
  shows "\<exists>w'. sync_read_file e p w = (Inr (Bytes c), w') \<and> fst w' p = Some c \<and> keeps p 0 w w'"
proof -
  from w_open_read [OF assms, of 0] obtain w1 where one:
    "w_open e 0 p ''rb'' w = (Inr (), w1)" "holds (rdp p c 0) BufReader 0 w1" "keeps p 0 w w1" by blast
  from w_read_all [OF one(2)] obtain w2 where two:
    "at 0 (ob_read (-1)) w1 = (Inr (Bytes c), w2)" "holds (fin p c) BufReader 0 w2" "keeps p 0 w1 w2"
    by blast
  from w_close [OF two(2)] obtain w3 where three:
    "at 0 ob_close w2 = (Inr (), w3)" "fst w3 p = Some c" "keeps p 0 w2 w3" by blast
  from one two three show ?thesis
    by (auto simp: sync_read_file_def io_defs intro: keeps_trans)
qed

lemma sync_write_all:
  assumes "distinct ps"
  shows "\<exists>us w'. io_map (sync_write_file e) ps w = (Inr us, w') \<and>
           (\<forall>p \<in> set ps. fst w' p = Some scale_payload) \<and> (\<forall>q. q \<notin> set ps \<longrightarrow> fst w' q = fst w q)"
  using assms
proof (induction ps arbitrary: w)
  case (Cons p ps)
  from sync_write_law [of p w] obtain w1 where one: "sync_write_file e p w = (Inr (), w1)"
    "fst w1 p = Some scale_payload" "keeps p 0 w w1" by blast
  have "distinct ps" "p \<notin> set ps" using Cons.prems by simp_all
  from Cons.IH [OF this(1), of w1] obtain us w' where two: "io_map (sync_write_file e) ps w1 = (Inr us, w')"
    "\<forall>p \<in> set ps. fst w' p = Some scale_payload" "\<forall>q. q \<notin> set ps \<longrightarrow> fst w' q = fst w1 q" by blast
  have "io_map (sync_write_file e) (p # ps) w = (Inr (() # us), w')"
    using one(1) two(1) by (simp add: io_defs)
  moreover have "fst w' p = Some scale_payload" using two(3) one(2) \<open>p \<notin> set ps\<close> by simp
  moreover have "fst w' q = fst w q" if "q \<notin> set (p # ps)" for q
    using that two(3) keeps_file [OF one(3), of q] by simp
  ultimately show ?case using two(2) by (intro exI conjI) auto
qed (auto simp: io_defs)

lemma sync_read_all:
  assumes "\<forall>p \<in> set ps. fst w p = Some c"
  shows "\<exists>w'. io_map (sync_read_file e) ps w = (Inr (replicate (length ps) (Bytes c)), w') \<and>
           fst w' = fst w"
  using assms
proof (induction ps arbitrary: w)
  case (Cons p ps)
  from sync_read_law [of w p c] Cons.prems obtain w1 where one:
    "sync_read_file e p w = (Inr (Bytes c), w1)" "fst w1 p = Some c" "keeps p 0 w w1" by auto
  have "fst w1 q = fst w q" for q
    using one(2) keeps_file [OF one(3), of q] Cons.prems by (cases "q = p") auto
  then have same: "fst w1 = fst w" ..
  have "\<forall>p \<in> set ps. fst w1 p = Some c" using Cons.prems same by simp
  from Cons.IH [OF this] obtain w' where "io_map (sync_read_file e) ps w1 =
      (Inr (replicate (length ps) (Bytes c)), w')" "fst w' = fst w1" by blast
  with one(1) same show ?case by (simp add: io_defs)
qed (auto simp: io_defs)

lemma write_chunk:
  assumes "distinct ps" and "ps \<noteq> []" and "complete s (chunk_tasks (write_async_file e) ps)"
  shows "\<exists>vs w'. gather s (chunk_tasks (write_async_file e) ps) v0 w = Some (Inr vs, w') \<and>
           (\<forall>p \<in> set ps. fst w' p = Some scale_payload) \<and> (\<forall>q. q \<notin> set ps \<longrightarrow> fst w' q = fst w q)"
proof -
  have "\<forall>i < length ps. write_inv app (fst w) ps i 0 v0 w"
    using assms(1) by (simp add: write_inv_def chunk_frame_def)
  then have "\<forall>i < length (chunk_tasks (write_async_file e) ps). write_inv app (fst w) ps i 0 v0 w" by simp
  from writers.gather_local [OF this assms(3)] obtain vs w' where
    run: "gather s (chunk_tasks (write_async_file e) ps) v0 w = Some (Inr vs, w')"
      "length vs = length (chunk_tasks (write_async_file e) ps)"
    and inv: "\<forall>i < length (chunk_tasks (write_async_file e) ps).
      write_inv app (fst w) ps i (length (chunk_tasks (write_async_file e) ps ! i)) (vs ! i) w'" by blast
  have each: "fst w' (ps ! i) = Some scale_payload \<and> chunk_frame (fst w) ps i w'" if "i < length ps" for i
    using inv [rule_format, of i] that by (simp add: write_inv_def length_write_async)
  have "\<forall>p \<in> set ps. fst w' p = Some scale_payload"
    using each by (auto simp only: in_set_conv_nth)
  moreover have "\<forall>q. q \<notin> set ps \<longrightarrow> fst w' q = fst w q"
    using each [of 0] assms(2) by (simp add: chunk_frame_def)
  ultimately show ?thesis using run(1) by blast
qed

lemma read_chunk:
  assumes "distinct ps" and "ps \<noteq> []" and "complete s (chunk_tasks (read_async_file e) ps)"
    and "\<forall>p \<in> set ps. fst w p = Some scale_payload"
  shows "\<exists>w'. gather s (chunk_tasks (read_async_file e) ps) v0 w =
             Some (Inr (replicate (length ps) (Bytes scale_payload)), w') \<and> fst w' = fst w"
proof -
  have "\<forall>i < length ps. read_inv rdp fin (fst w) ps i 0 v0 w"
    using assms(1,4) by (simp add: read_inv_def chunk_frame_def)
  then have "\<forall>i < length (chunk_tasks (read_async_file e) ps). read_inv rdp fin (fst w) ps i 0 v0 w" by simp
  from readers.gather_local [OF this assms(3)] obtain vs w' where
    run: "gather s (chunk_tasks (read_async_file e) ps) v0 w = Some (Inr vs, w')"
      "length vs = length (chunk_tasks (read_async_file e) ps)"
    and inv: "\<forall>i < length (chunk_tasks (read_async_file e) ps).
      read_inv rdp fin (fst w) ps i (length (chunk_tasks (read_async_file e) ps ! i)) (vs ! i) w'" by blast
  have each: "fst w' (ps ! i) = Some scale_payload \<and> vs ! i = Bytes scale_payload \<and>
      chunk_frame (fst w) ps i w'" if "i < length ps" for i
    using inv [rule_format, of i] that by (simp add: read_inv_def length_read_async)
  have vs: "vs = replicate (length ps) (Bytes scale_payload)"
    using each run(2) by (intro nth_equalityI) simp_all
  have "\<forall>p \<in> set ps. fst w' p = Some scale_payload"
    using each by (auto simp only: in_set_conv_nth)
  moreover have "\<forall>q. q \<notin> set ps \<longrightarrow> fst w' q = fst w q"
    using each [of 0] assms(2) by (simp add: chunk_frame_def)
  ultimately have "fst w' q = fst w q" for q
    using assms(4) by (cases "q \<in> set ps") simp_all
  then show ?thesis using run(1) vs by auto
qed

lemma write_chunks:
  assumes "distinct (concat cs)" and "[] \<notin> set cs"
    and "list_all2 (\<lambda>s c. complete s (chunk_tasks (write_async_file e) c)) scheds cs"
  shows "\<exists>vs w'. gather_chunks (write_async_file e) scheds cs w = Some (Inr vs, w') \<and>
           (\<forall>p \<in> set (concat cs). fst w' p = Some scale_payload) \<and>
           (\<forall>q. q \<notin> set (concat cs) \<longrightarrow> fst w' q = fst w q)"
  using assms
proof (induction cs arbitrary: scheds w)
  case (Cons c cs)
  then obtain s ss where ss: "scheds = s # ss" "complete s (chunk_tasks (write_async_file e) c)"
    "list_all2 (\<lambda>s c. complete s (chunk_tasks (write_async_file e) c)) ss cs"
    by (auto simp: list_all2_Cons2)
  from write_chunk [of c s "Bytes []" w] Cons.prems ss(2) obtain vs w1 where one:
    "gather s (chunk_tasks (write_async_file e) c) (Bytes []) w = Some (Inr vs, w1)"
    "\<forall>p \<in> set c. fst w1 p = Some scale_payload" "\<forall>q. q \<notin> set c \<longrightarrow> fst w1 q = fst w q" by auto
  from Cons.IH [of ss w1] Cons.prems ss(3) obtain vs' w2 where two:
    "gather_chunks (write_async_file e) ss cs w1 = Some (Inr vs', w2)"
    "\<forall>p \<in> set (concat cs). fst w2 p = Some scale_payload"
    "\<forall>q. q \<notin> set (concat cs) \<longrightarrow> fst w2 q = fst w1 q" by auto
  have "fst w2 p = Some scale_payload" if "p \<in> set c" for p
    using that one(2) two(3) Cons.prems(1) by (metis disjoint_iff distinct_append concat.simps(2))
  with one two ss(1) show ?case by auto
qed auto

lemma read_chunks:
  assumes "distinct (concat cs)" and "[] \<notin> set cs"
    and "list_all2 (\<lambda>s c. complete s (chunk_tasks (read_async_file e) c)) scheds cs"
    and "\<forall>p \<in> set (concat cs). fst w p = Some scale_payload"
  shows "\<exists>w'. gather_chunks (read_async_file e) scheds cs w =
             Some (Inr (replicate (length (concat cs)) (Bytes scale_payload)), w') \<and> fst w' = fst w"
  using assms
proof (induction cs arbitrary: scheds w)
  case (Cons c cs)
  then obtain s ss where ss: "scheds = s # ss" "complete s (chunk_tasks (read_async_file e) c)"
    "list_all2 (\<lambda>s c. complete s (chunk_tasks (read_async_file e) c)) ss cs"
    by (auto simp: list_all2_Cons2)
  from read_chunk [of c s w "Bytes []"] Cons.prems ss(2) obtain w1 where one:
    "gather s (chunk_tasks (read_async_file e) c) (Bytes []) w =
       Some (Inr (replicate (length c) (Bytes scale_payload)), w1)" "fst w1 = fst w" by auto
  from Cons.IH [of ss w1] Cons.prems ss(3) one(2) obtain w2 where
    "gather_chunks (read_async_file e) ss cs w1 =
       Some (Inr (replicate (length (concat cs)) (Bytes scale_payload)), w2)" "fst w2 = fst w1" by auto
  with one ss(1) show ?case by (auto simp: replicate_add simp flip: length_concat)
qed auto

lemma async_benchmark:
  fixes temp_dir :: string
  defines "chunks \<equiv> path_chunks 500 (file_paths (path_join temp_dir ''async'') num_files)"
  assumes "list_all2 (\<lambda>s c. complete s (chunk_tasks (write_async_file e) c)) ws chunks"
    and "list_all2 (\<lambda>s c. complete s (chunk_tasks (read_async_file e) c)) rs chunks"
  shows "\<exists>w'. run_async_benchmark e ws rs temp_dir w =
             Some (Inr (replicate num_files (Bytes scale_payload)), w') \<and>
           (\<forall>q. fst w' q = (if q \<in> set (file_paths (path_join temp_dir ''async'') num_files)
                           then Some scale_payload else fst w q))"
proof -
  let ?paths = "file_paths (path_join temp_dir ''async'') num_files"
  have all: "concat chunks = ?paths" by (simp add: chunks_def concat_path_chunks)
  have ne: "[] \<notin> set chunks"
    by (auto simp: chunks_def path_chunks_def num_files_def)
  have dist: "distinct (concat chunks)" unfolding all by (rule distinct_file_paths)
  from write_chunks [OF dist ne assms(2), of w] obtain vs w1 where one:
    "gather_chunks (write_async_file e) ws chunks w = Some (Inr vs, w1)"
    "\<forall>p \<in> set ?paths. fst w1 p = Some scale_payload" "\<forall>q. q \<notin> set ?paths \<longrightarrow> fst w1 q = fst w q"
    unfolding all by blast
  from read_chunks [OF dist ne assms(3), of w1] one(2) obtain w2 where
    "gather_chunks (read_async_file e) rs chunks w1 =
       Some (Inr (replicate num_files (Bytes scale_payload)), w2)" "fst w2 = fst w1"
    unfolding all by auto
  with one show ?thesis
    by (auto simp: run_async_benchmark_def chunks_def [symmetric] Let_def)
qed

lemma sync_benchmark:
  "\<exists>w'. run_sync_benchmark e temp_dir w = (Inr (replicate num_files (Bytes scale_payload)), w') \<and>
     (\<forall>q. fst w' q = (if q \<in> set (file_paths (path_join temp_dir ''sync'') num_files)
                     then Some scale_payload else fst w q))"
proof -
  let ?paths = "file_paths (path_join temp_dir ''sync'') num_files"
  from sync_write_all [OF distinct_file_paths, of "path_join temp_dir ''sync''" num_files w]
  obtain us w1 where one: "io_map (sync_write_file e) ?paths w = (Inr us, w1)"
    "\<forall>p \<in> set ?paths. fst w1 p = Some scale_payload" "\<forall>q. q \<notin> set ?paths \<longrightarrow> fst w1 q = fst w q" by blast
  from sync_read_all [OF one(2)] obtain w2 where
    "io_map (sync_read_file e) ?paths w1 = (Inr (replicate num_files (Bytes scale_payload)), w2)"
    "fst w2 = fst w1" by auto
  with one show ?thesis by (auto simp: run_sync_benchmark_def Let_def io_defs)
qed

end

section \<open>The result of the script\<close>

lemma engine_cases:
  assumes "\<And>ring. P \<lparr>en_native = False, en_ring = ring\<rparr>" and "\<And>ring. P \<lparr>en_native = True, en_ring = ring\<rparr>"
  shows "P e"
  using assms by (cases e; cases "en_native e") auto

lemma sync_any_engine:
  "\<exists>w'. run_sync_benchmark e temp_dir w = (Inr (replicate num_files (Bytes scale_payload)), w') \<and>
     (\<forall>q. fst w' q = (if q \<in> set (file_paths (path_join temp_dir ''sync'') num_files)
                     then Some scale_payload else fst w q))"
  by (rule engine_cases [where e = e]) (rule pool.sync_benchmark, rule native.sync_benchmark)

lemma async_any_engine:
  assumes "list_all2 (\<lambda>s c. complete s (chunk_tasks (write_async_file e) c)) ws
             (path_chunks 500 (file_paths (path_join temp_dir ''async'') num_files))"
    and "list_all2 (\<lambda>s c. complete s (chunk_tasks (read_async_file e) c)) rs
             (path_chunks 500 (file_paths (path_join temp_dir ''async'') num_files))"
  shows "\<exists>w'. run_async_benchmark e ws rs temp_dir w =
       Some (Inr (replicate num_files (Bytes scale_payload)), w') \<and>
     (\<forall>q. fst w' q = (if q \<in> set (file_paths (path_join temp_dir ''async'') num_files)
                     then Some scale_payload else fst w q))"
proof -
  obtain b ring where e: "e = \<lparr>en_native = b, en_ring = ring\<rparr>" by (cases e)
  show ?thesis
  proof (cases b)
    case True
    then have b: "b = True" by simp
    show ?thesis unfolding e b by (rule native.async_benchmark [OF assms [unfolded e b]])
  next
    case False
    then have b: "b = False" by simp
    show ?thesis unfolding e b by (rule pool.async_benchmark [OF assms [unfolded e b]])
  qed
qed

text \<open>
  C3: on every engine, and however the event loop alternates between the 500 tasks of each
  \<open>gather\<close>, the asynchronous benchmark writes the payload to each of its 5000 files and reads it
  back 5000 times, as the synchronous one does, and changes no other file.
\<close>

theorem benchmarks_agree:
  assumes "list_all2 (\<lambda>s c. complete s (chunk_tasks (write_async_file e) c)) ws
             (path_chunks 500 (file_paths (path_join temp_dir ''async'') num_files))"
    and "list_all2 (\<lambda>s c. complete s (chunk_tasks (read_async_file e) c)) rs
             (path_chunks 500 (file_paths (path_join temp_dir ''async'') num_files))"
  shows "\<exists>w1 w2. run_sync_benchmark e temp_dir w = (Inr (replicate num_files (Bytes scale_payload)), w1) \<and>
     run_async_benchmark e ws rs temp_dir w =
       Some (Inr (replicate num_files (Bytes scale_payload)), w2) \<and>
     (\<forall>q. fst w2 q = (if q \<in> set (file_paths (path_join temp_dir ''async'') num_files)
                     then Some scale_payload else fst w q))"
  using sync_any_engine [of e temp_dir w] async_any_engine [OF assms, of w] by blast

lemma count_rounds:
  "i < n \<Longrightarrow> count_list (concat (replicate m [0..<n])) i = m"
proof -
  assume "i < n"
  then have "count_list [0..<n] i = 1"
    by (subst count_list_eq_length_filter) (simp add: distinct_length_filter)
  then show ?thesis by (induction m) simp_all
qed

lemma complete_rounds:
  assumes "list_all (\<lambda>ms. length ms \<le> m) progs" and "length progs \<le> n"
  shows "complete (concat (replicate m [0..<n])) progs"
  using assms by (auto simp: complete_def list_all_iff count_rounds)

lemma list_all2_replicate:
  "length cs = k \<Longrightarrow> list_all (P s) cs \<Longrightarrow> list_all2 P (replicate k s) cs"
  by (auto simp: list_all2_conv_all_nth list_all_length)

lemma path_chunks_shape:
  "length (path_chunks sz xs) = (length xs + sz - 1) div sz"
  "list_all (\<lambda>c. length c \<le> sz) (path_chunks sz xs)"
  by (simp_all add: path_chunks_def list_all_iff)

lemma complete_chunks:
  assumes "list_all (\<lambda>c. length c \<le> n) cs" and "length cs = j"
    and "\<And>k p. length (coroutine k p) = m"
  shows "list_all2 (\<lambda>s c. complete s (chunk_tasks coroutine c))
           (replicate j (concat (replicate m [0..<n]))) cs"
proof (intro list_all2_replicate assms(2))
  have "list_all (\<lambda>ms. length ms \<le> m) (chunk_tasks coroutine c)" for c
    using assms(3) by (simp add: chunk_tasks_def list_all_iff)
  with assms(1) show "list_all (\<lambda>c. complete (concat (replicate m [0..<n])) (chunk_tasks coroutine c)) cs"
    by (auto simp: list_all_iff intro!: complete_rounds)
qed

section \<open>Cleaning up\<close>

lemma file_paths_below:
  assumes "d \<noteq> []" and "last d \<noteq> CHR ''/''" and "sub \<noteq> []" and "hd sub \<noteq> CHR ''/''"
    and "q \<in> set (file_paths (path_join d sub) n)"
  shows "take (Suc (length d)) q = d @ ''/''"
proof -
  have sub: "path_join d sub = (d @ ''/'') @ sub" using assms(1-4) by (simp add: path_join_def)
  have "\<exists>y. path_join x (''file_'' @ z) = x @ y" for x z :: string
    by (auto simp: path_join_def)
  with assms(5) obtain y where "q = (d @ ''/'') @ sub @ y"
    unfolding file_paths_def sub by auto (metis append.assoc append_Cons append_Nil)
  then show ?thesis by simp
qed

text \<open>
  C21: the script leaves no trace: it ends on every engine and under every schedule, has read the
  payload from all 5000 files both ways, and the files are those from before, the fresh directory
  being deleted.
\<close>

theorem scale_main_leaves_no_file:
  assumes "list_all2 (\<lambda>s c. complete s (chunk_tasks (write_async_file e) c)) ws
             (path_chunks 500 (file_paths (path_join base_dir ''async'') num_files))"
    and "list_all2 (\<lambda>s c. complete s (chunk_tasks (read_async_file e) c)) rs
             (path_chunks 500 (file_paths (path_join base_dir ''async'') num_files))"
    and "base_dir \<noteq> []" and "last base_dir \<noteq> CHR ''/''"
    and "\<forall>q. take (Suc (length base_dir)) q = base_dir @ ''/'' \<longrightarrow> fs q = None"
  shows "\<exists>H'. scale_main e ws rs base_dir (fs, H) =
     Some (Inr (replicate num_files (Bytes scale_payload), replicate num_files (Bytes scale_payload)),
           (fs, H'))"
proof -
  from sync_any_engine [of e base_dir "(fs, H)"] obtain fs1 H1 where one:
    "run_sync_benchmark e base_dir (fs, H) = (Inr (replicate num_files (Bytes scale_payload)), (fs1, H1))"
    "\<forall>q. fs1 q = (if q \<in> set (file_paths (path_join base_dir ''sync'') num_files)
                 then Some scale_payload else fs q)"
    by (metis fst_conv surj_pair)
  from async_any_engine [OF assms(1,2), of "(fs1, H1)"] obtain fs2 H2 where two:
    "run_async_benchmark e ws rs base_dir (fs1, H1) =
       Some (Inr (replicate num_files (Bytes scale_payload)), (fs2, H2))"
    "\<forall>q. fs2 q = (if q \<in> set (file_paths (path_join base_dir ''async'') num_files)
                 then Some scale_payload else fs1 q)"
    by (metis fst_conv surj_pair)
  have "rmtree base_dir fs2 q = fs q" for q
  proof (cases "take (Suc (length base_dir)) q = base_dir @ ''/''")
    case True
    with assms(5) show ?thesis by (simp add: rmtree_def)
  next
    case False
    then have "q \<notin> set (file_paths (path_join base_dir ''sync'') num_files)"
      "q \<notin> set (file_paths (path_join base_dir ''async'') num_files)"
      using file_paths_below [OF assms(3,4), of "''sync''" q num_files]
        file_paths_below [OF assms(3,4), of "''async''" q num_files] by auto
    with one(2) two(2) False show ?thesis by (simp add: rmtree_def)
  qed
  then have "rmtree base_dir fs2 = fs" ..
  with one(1) two(1) show ?thesis by (simp add: scale_main_def)
qed

lemma round_robin_complete:
  fixes temp_dir :: string
  defines "chunks \<equiv> path_chunks 500 (file_paths (path_join temp_dir ''async'') num_files)"
  shows "list_all2 (\<lambda>s c. complete s (chunk_tasks (write_async_file e) c))
           (replicate 10 (concat (replicate 4 [0..<500]))) chunks"
    and "list_all2 (\<lambda>s c. complete s (chunk_tasks (read_async_file e) c))
           (replicate 10 (concat (replicate 3 [0..<500]))) chunks"
proof -
  have len: "length chunks = 10" "list_all (\<lambda>c. length c \<le> 500) chunks"
    unfolding chunks_def path_chunks_shape(1) length_file_paths
    by (simp add: num_files_def, rule path_chunks_shape(2))
  show "list_all2 (\<lambda>s c. complete s (chunk_tasks (write_async_file e) c))
      (replicate 10 (concat (replicate 4 [0..<500]))) chunks"
    by (rule complete_chunks [OF len(2,1)]) (simp add: length_write_async)
  show "list_all2 (\<lambda>s c. complete s (chunk_tasks (read_async_file e) c))
      (replicate 10 (concat (replicate 3 [0..<500]))) chunks"
    by (rule complete_chunks [OF len(2,1)]) (simp add: length_read_async)
qed

theorem scale_main_leaves_no_file_witness:
  "\<exists>H'. scale_main \<lparr>en_native = False, en_ring = False\<rparr> (replicate 10 (concat (replicate 4 [0..<500])))
     (replicate 10 (concat (replicate 3 [0..<500]))) ''/tmp/b'' ([''/tmp/x'' \<mapsto> [1]], Map.empty) =
   Some (Inr (replicate num_files (Bytes scale_payload), replicate num_files (Bytes scale_payload)),
         ([''/tmp/x'' \<mapsto> [1]], H'))"
proof -
  have dir: "''/tmp/b'' \<noteq> []" "last ''/tmp/b'' \<noteq> CHR ''/''" by simp_all
  have "\<forall>q. take (Suc (length ''/tmp/b'')) q = ''/tmp/b'' @ ''/'' \<longrightarrow> [''/tmp/x'' \<mapsto> [1 :: byte]] q = None"
    by auto
  from scale_main_leaves_no_file [OF round_robin_complete dir this]
  show ?thesis by blast
qed

theorem benchmarks_agree_witness:
  "\<exists>w2. run_async_benchmark \<lparr>en_native = True, en_ring = True\<rparr>
     (replicate 10 (concat (replicate 4 [0..<500]))) (replicate 10 (concat (replicate 3 [0..<500])))
     ''/tmp'' (Map.empty, Map.empty) = Some (Inr (replicate num_files (Bytes scale_payload)), w2)"
  using benchmarks_agree [OF round_robin_complete, where w = "(Map.empty, Map.empty)"] by blast

end
