(* ===== verification/Example_Batch.thy ===== *)
theory Example_Batch
  imports Example_Scale
begin

text \<open>
  \<open>examples/01_sync_and_async_file_io.py\<close>: a payload written 101 times to a file and read back 100
  times, by system calls, by CPython's own files, by concurrent \<open>awrite\<close> and \<open>aread\<close>, and by the
  batch calls.  Clocks are left out; the run with the third-party package \<open>aiofiles\<close> is in
  \<open>Aiofiles\<close>, and \<open>main()\<close> in \<open>Batch_Script\<close>.
\<close>

section \<open>The script\<close>

definition batch_size :: nat where
  "batch_size = 100"

definition times :: "nat \<Rightarrow> ('s, 'a) io \<Rightarrow> ('s, 'a list) io" where
  "times n m = io_map (\<lambda>_. m) [0..<n]"

text \<open>\<open>os.open\<close>, a warm-up \<open>os.write\<close>, then the writes, \<open>os.lseek\<close> and the reads.\<close>

definition os_benchmark_body :: "bytes \<Rightarrow> (nstate, bytes list) io" where
  "os_benchmark_body payload =
     io_bind (sys_write payload) (\<lambda>_.
     io_bind (times batch_size (sys_write payload)) (\<lambda>_.
     io_bind (os_lseek 0 0) (\<lambda>_.
     times batch_size (sys_read (length payload)))))"

definition run_os_sync_benchmark :: "string \<Rightarrow> bytes \<Rightarrow> (fs, bytes list) io" where
  "run_os_sync_benchmark path payload = (\<lambda>fs.
     let fl = \<lparr>of_access = RdWr, of_append = False, of_creat = True, of_trunc = True, of_excl = False\<rparr> in
     case os_open fl path fs of
       (Inl er, fs') \<Rightarrow> (Inl er, fs')
     | (Inr _, fs') \<Rightarrow>
         (case os_benchmark_body payload (fs', nf_new path ''w+'' fl) of (r, (fs'', fd)) \<Rightarrow> (r, fs'')))"

text \<open>The original \<open>open\<close>: a file of the standard library, closed in the end.\<close>

definition builtin_benchmark_body :: "bytes \<Rightarrow> (cpstate, pydata list) io" where
  "builtin_benchmark_body payload =
     io_bind (cp_write (Bytes payload)) (\<lambda>_. io_bind cp_flush (\<lambda>_.
     io_bind (times batch_size (cp_write (Bytes payload))) (\<lambda>_. io_bind cp_flush (\<lambda>_.
     io_bind (cp_seek 0 0) (\<lambda>_.
     times batch_size (cp_read (int (length payload))))))))"

text \<open>\<open>try: ... finally: f.close()\<close>\<close>

definition run_builtin_sync_benchmark :: "string \<Rightarrow> bytes \<Rightarrow> (fs, pydata list) io" where
  "run_builtin_sync_benchmark path payload = (\<lambda>fs.
     case py_open_flags ''w+b'' of
       None \<Rightarrow> (Inl (ValueError ''invalid mode''), fs)
     | Some fl \<Rightarrow>
         (case os_open fl path fs of
            (Inl er, fs') \<Rightarrow> (Inl er, fs')
          | (Inr _, fs') \<Rightarrow>
              (case builtin_benchmark_body payload
                      ((fs', nf_new path ''w+b'' fl), cp_new default_buffer_size (of_access fl)) of
                 (r, st) \<Rightarrow>
                   (case cp_close st of
                      (Inl er, ((fs'', _), _)) \<Rightarrow> (Inl er, fs'')
                    | (Inr _, ((fs'', _), _)) \<Rightarrow> (r, fs'')))))"

text \<open>Awaiting one call, and the sequence of two.\<close>

definition awaited :: "('s, 'a) io \<Rightarrow> ('s, 'a) blocking_io" where
  "awaited m = (\<lambda>s. Some (m s))"

definition bio_bind :: "('s, 'a) blocking_io \<Rightarrow> ('a \<Rightarrow> ('s, 'b) blocking_io) \<Rightarrow> ('s, 'b) blocking_io" where
  "bio_bind m f = (\<lambda>s.
     case m s of
       None \<Rightarrow> None
     | Some (Inl er, s') \<Rightarrow> Some (Inl er, s')
     | Some (Inr a, s') \<Rightarrow> f a s')"

text \<open>\<open>f_async\<close> is variable 0; the tasks of a \<open>gather\<close> are single calls on it.\<close>

definition run_async_pipelined_benchmark ::
  "engine_choice \<Rightarrow> nat list \<Rightarrow> nat list \<Rightarrow> string \<Rightarrow> bytes \<Rightarrow> (world, int list \<times> pydata list) blocking_io" where
  "run_async_pipelined_benchmark e wsched rsched path payload =
     bio_bind (awaited (w_open e 0 path ''w+b'')) (\<lambda>_.
     bio_bind (awaited (at 0 (ob_awrite (Bytes payload)))) (\<lambda>_.
     bio_bind (awaited (at 0 ob_aflush)) (\<lambda>_.
     bio_bind (gather wsched (map (\<lambda>_. [\<lambda>_. at 0 (ob_awrite (Bytes payload))]) [0..<batch_size]) 0)
       (\<lambda>write_results.
     bio_bind (awaited (at 0 ob_aflush)) (\<lambda>_.
     bio_bind (awaited (at 0 (ob_seek 0 0))) (\<lambda>_.
     bio_bind (gather rsched (map (\<lambda>_. [\<lambda>_. at 0 (ob_aread (int (length payload)))]) [0..<batch_size])
                 (Bytes [])) (\<lambda>async_reads.
     bio_bind (awaited (at 0 ob_close)) (\<lambda>_.
     awaited (io_return (write_results, async_reads))))))))))"

definition run_async_batch_api_benchmark ::
  "engine_choice \<Rightarrow> string \<Rightarrow> bytes \<Rightarrow> (world, int list \<times> pydata list) io" where
  "run_async_batch_api_benchmark e path payload =
     io_bind (w_open e 0 path ''w+b'') (\<lambda>_.
     io_bind (at 0 (ob_awrite (Bytes payload))) (\<lambda>_.
     io_bind (at 0 ob_aflush) (\<lambda>_.
     io_bind (at 0 (ob_awrite_batch (replicate batch_size (Bytes payload)))) (\<lambda>write_results.
     io_bind (at 0 ob_aflush) (\<lambda>_.
     io_bind (at 0 (ob_seek 0 0)) (\<lambda>_.
     io_bind (at 0 (ob_aread_batch (replicate batch_size (Size (int (length payload)))))) (\<lambda>reads.
     io_bind (at 0 ob_close) (\<lambda>_. io_return (write_results, reads)))))))))"

text \<open>The payload of \<open>main()\<close>, from the argument \<open>--payload-size-kb\<close>.\<close>

definition base_chunk :: bytes where
  "base_chunk = ascii_bytes (''Hello, py-native-io high-performance kernel streams!'' @ [CHR 0x0A])"

definition payload_kb :: "int \<Rightarrow> nat" where
  "payload_kb arg = nat (max 1 (min arg 2048))"

definition main_payload :: "int \<Rightarrow> bytes" where
  "main_payload arg =
     (let payload_bytes = payload_kb arg * 1024 in
      take payload_bytes
        (concat (replicate (payload_bytes div length base_chunk + 1) base_chunk)))"

section \<open>Repeated data\<close>

abbreviation copies :: "nat \<Rightarrow> bytes \<Rightarrow> bytes" where
  "copies n b \<equiv> concat (replicate n b)"

lemma copies_snoc: "copies n b @ b = copies (Suc n) b"
  by (induction n) simp_all

lemma drop_copies: "m \<le> n \<Longrightarrow> drop (m * length b) (copies n b) = copies (n - m) b"
proof (induction m arbitrary: n)
  case (Suc m)
  then obtain n' where "n = Suc n'" by (cases n) auto
  with Suc show ?case by (simp add: add.commute)
qed simp

lemma take_copies: "m < n \<Longrightarrow> take (length b) (drop (m * length b) (copies n b)) = b"
  by (cases "n - m") (simp_all add: drop_copies less_imp_le)

lemma cut_copies: "m \<le> n \<Longrightarrow> cut (replicate m (length b)) (copies n b) = replicate m b"
proof (induction m arbitrary: n)
  case (Suc m)
  then obtain n' where "n = Suc n'" by (cases n) auto
  with Suc show ?case by simp
qed simp

text \<open>Repeating a computation that keeps a counted invariant and always returns the same.\<close>

lemma times_law:
  assumes "\<And>i s. i < n \<Longrightarrow> P i s \<Longrightarrow> \<exists>s'. m s = (Inr x, s') \<and> P (Suc i) s'" and "P 0 s"
  shows "\<exists>s'. times n m s = (Inr (replicate n x), s') \<and> P n s'"
proof -
  have "\<exists>s'. io_map (\<lambda>_. m) (xs :: nat list) s = (Inr (replicate (length xs) x), s') \<and> P (i + length xs) s'"
    if "P i s" "i + length xs \<le> n" for i xs s
    using that
  proof (induction xs arbitrary: i s)
    case (Cons y xs)
    then obtain s1 where one: "m s = (Inr x, s1)" "P (Suc i) s1" using assms(1) [of i s] by auto
    from Cons.IH [OF one(2)] Cons.prems(2) obtain s' where
      "io_map (\<lambda>_. m) xs s1 = (Inr (replicate (length xs) x), s')" "P (Suc i + length xs) s'" by auto
    with one(1) show ?case by (auto simp: io_defs)
  qed (simp add: io_defs)
  from this [of 0 s "[0..<n]"] assms(2) show ?thesis by (simp add: times_def)
qed

section \<open>The synchronous runs\<close>

text \<open>The descriptor has written everything, respectively has read \<open>k\<close> of the copies.\<close>

definition fd_on :: "string \<Rightarrow> bytes \<Rightarrow> nat \<Rightarrow> nstate \<Rightarrow> bool" where
  "fd_on p c k st = (fst st p = Some c \<and> nf_path (snd st) = p \<and> nf_access (snd st) = RdWr \<and>
     \<not> nf_append (snd st) \<and> nf_pos (snd st) = k)"

lemma fd_write:
  "fd_on p c (length c) st \<Longrightarrow>
   \<exists>st'. sys_write b st = (Inr (length b), st') \<and> fd_on p (c @ b) (length (c @ b)) st'"
  by (cases "b = []"; cases st) (auto simp: fd_on_def sys_write_def can_write_def nf_data_def Let_def)

lemma fd_read:
  "fd_on p c k st \<Longrightarrow> \<exists>st'. sys_read n st = (Inr (take n (drop k c)), st') \<and>
     fd_on p c (k + length (take n (drop k c))) st'"
  by (cases st) (auto simp: fd_on_def sys_read_def can_read_def nf_data_def Let_def)

lemma os_benchmark:
  "\<exists>fs'. run_os_sync_benchmark p b fs = (Inr (replicate batch_size b), fs') \<and>
         fs' p = Some (copies (Suc batch_size) b)"
proof -
  let ?fl = "\<lparr>of_access = RdWr, of_append = False, of_creat = True, of_trunc = True, of_excl = False\<rparr>"
  let ?st = "(fs(p \<mapsto> []), nf_new p ''w+'' ?fl)"
  have open1: "os_open ?fl p fs = (Inr (), fs(p \<mapsto> []))" by (auto simp: os_open_def split: option.split)
  have "fd_on p [] (length []) ?st" by (simp add: fd_on_def nf_new_def)
  from fd_write [OF this, of b] obtain s1 where one: "sys_write b ?st = (Inr (length b), s1)"
    "fd_on p b (length b) s1" by auto
  let ?P = "\<lambda>i. fd_on p (copies (Suc i) b) (length (copies (Suc i) b))"
  have "\<exists>s'. times batch_size (sys_write b) s1 = (Inr (replicate batch_size (length b)), s') \<and> ?P batch_size s'"
  proof (rule times_law [where P = ?P])
    show "?P 0 s1" using one(2) by simp
    show "\<exists>s'. sys_write b s = (Inr (length b), s') \<and> ?P (Suc i) s'" if "?P i s" for i s
      using fd_write [OF that, of b] unfolding copies_snoc .
  qed
  then obtain s2 where two: "times batch_size (sys_write b) s1 = (Inr (replicate batch_size (length b)), s2)"
    "?P batch_size s2" by blast
  obtain s3 where three: "os_lseek 0 0 s2 = (Inr 0, s3)" "fd_on p (copies (Suc batch_size) b) 0 s3"
    using two(2) by (cases s2) (auto simp: os_lseek_def to_seek_from_def sys_seek_def fd_on_def)
  let ?Q = "\<lambda>i. fd_on p (copies (Suc batch_size) b) (i * length b)"
  have "\<exists>s'. sys_read (length b) s = (Inr b, s') \<and> ?Q (Suc i) s'" if "i < batch_size" "?Q i s" for i s
    using fd_read [OF that(2), of "length b"]
    unfolding take_copies [OF less_SucI [OF that(1)]] mult_Suc add.commute [of "length b"] .
  from times_law [where P = ?Q, OF this] three(2) obtain s4 where
    "times batch_size (sys_read (length b)) s3 = (Inr (replicate batch_size b), s4)" "?Q batch_size s4"
    by fastforce
  with one two three show ?thesis
    by (cases s4) (auto simp: run_os_sync_benchmark_def os_benchmark_body_def open1 io_bind_apply fd_on_def)
qed

text \<open>A file of the standard library that collects, respectively hands out, \<open>c\<close>.\<close>

definition cp_app :: "string \<Rightarrow> bytes \<Rightarrow> cpstate \<Rightarrow> bool" where
  "cp_app p c st = pool_app p c (fst (fst st), PoolObj (snd (fst st)) (snd st))"

definition cp_rdp :: "string \<Rightarrow> bytes \<Rightarrow> nat \<Rightarrow> cpstate \<Rightarrow> bool" where
  "cp_rdp p c k st = pool_rdp p c k (fst (fst st), PoolObj (snd (fst st)) (snd st))"

lemma cp_write_law:
  assumes "cp_app p c st"
  shows "\<exists>st'. cp_write (Bytes b) st = (Inr (int (length b)), st') \<and> cp_app p (c @ b) st'"
proof -
  obtain fs f x where st: "st = ((fs, f), x)" by (metis surj_pair)
  from pool_write [of p c fs f x b] assms show ?thesis by (auto simp: st cp_app_def simp del: pool_app.simps)
qed

lemma cp_flush_law:
  assumes "cp_app p c st"
  shows "\<exists>st'. cp_flush st = (Inr (), st') \<and> cp_app p c st'"
proof -
  obtain fs f x where st: "st = ((fs, f), x)" by (metis surj_pair)
  have "\<not> cp_closed x" using assms by (simp add: st cp_app_def pool_ok_def)
  with pool_flush [of p c fs f x] assms show ?thesis
    by (auto simp: st cp_app_def cp_flush_def cp_check_def simp del: pool_app.simps)
qed

lemma cp_seek_law:
  assumes "cp_app p c st"
  shows "\<exists>st'. cp_seek 0 0 st = (Inr 0, st') \<and> cp_rdp p c 0 st'"
proof -
  obtain fs f x where st: "st = ((fs, f), x)" by (metis surj_pair)
  from pool_seek [of p c fs f x] assms show ?thesis
    by (auto simp: st cp_app_def cp_rdp_def simp del: pool_app.simps pool_rdp.simps)
qed

lemma cp_read_law:
  assumes "cp_rdp p c k st"
  shows "\<exists>st'. cp_read (int n) st = (Inr (Bytes (take n (drop k c))), st') \<and>
               cp_rdp p c (k + length (take n (drop k c))) st'"
proof -
  obtain fs f x where st: "st = ((fs, f), x)" by (metis surj_pair)
  from pool_read [of p c k fs f x "int n"] assms show ?thesis
    by (auto simp: st cp_rdp_def simp del: pool_rdp.simps length_take)
qed

lemma cp_close_law:
  assumes "cp_rdp p c k st"
  shows "\<exists>fs f x. cp_close st = (Inr (), ((fs, f), x)) \<and> fs p = Some c"
proof -
  obtain fs f x where st: "st = ((fs, f), x)" by (metis surj_pair)
  from pool_close [OF pool_rdp_fin [of p c k "(fs, PoolObj f x)"]] assms show ?thesis
    by (auto simp: st cp_rdp_def simp del: pool_rdp.simps)
qed

lemma builtin_benchmark:
  "\<exists>fs'. run_builtin_sync_benchmark p b fs = (Inr (replicate batch_size (Bytes b)), fs') \<and>
         fs' p = Some (copies (Suc batch_size) b)"
proof -
  let ?fl = "\<lparr>of_access = RdWr, of_append = False, of_creat = True, of_trunc = True, of_excl = False\<rparr>"
  let ?all = "copies (Suc batch_size) b"
  let ?st = "((fs(p \<mapsto> []), nf_new p ''w+b'' ?fl), cp_new default_buffer_size RdWr)"
  have open1: "os_open ?fl p fs = (Inr (), fs(p \<mapsto> []))" by (auto simp: os_open_def split: option.split)
  have "cp_app p [] ?st" by (simp add: cp_app_def nf_new_def cp_new_def pool_defs)
  from cp_write_law [OF this, of b] obtain s1 where one:
    "cp_write (Bytes b) ?st = (Inr (int (length b)), s1)" "cp_app p b s1" unfolding append_Nil by blast
  from cp_flush_law [OF one(2)] obtain s2 where two: "cp_flush s1 = (Inr (), s2)" "cp_app p b s2" by blast
  have "\<exists>s'. times batch_size (cp_write (Bytes b)) s2 = (Inr (replicate batch_size (int (length b))), s') \<and>
      cp_app p ?all s'"
  proof (rule times_law [where P = "\<lambda>i. cp_app p (copies (Suc i) b)"])
    show "cp_app p (copies (Suc 0) b) s2" using two(2) by simp
    show "\<exists>s'. cp_write (Bytes b) s = (Inr (int (length b)), s') \<and> cp_app p (copies (Suc (Suc i)) b) s'"
      if "cp_app p (copies (Suc i) b) s" for i s
      using cp_write_law [OF that, of b] unfolding copies_snoc .
  qed
  then obtain s3 where three: "times batch_size (cp_write (Bytes b)) s2 =
      (Inr (replicate batch_size (int (length b))), s3)" "cp_app p ?all s3" by blast
  from cp_flush_law [OF three(2)] obtain s4 where four: "cp_flush s3 = (Inr (), s4)" "cp_app p ?all s4" by blast
  from cp_seek_law [OF four(2)] obtain s5 where five: "cp_seek 0 0 s4 = (Inr 0, s5)" "cp_rdp p ?all 0 s5"
    by blast
  have "\<exists>s'. times batch_size (cp_read (int (length b))) s5 = (Inr (replicate batch_size (Bytes b)), s') \<and>
      cp_rdp p ?all (batch_size * length b) s'"
  proof (rule times_law [where P = "\<lambda>i. cp_rdp p ?all (i * length b)"])
    show "cp_rdp p ?all (0 * length b) s5" using five(2) by simp
    show "\<exists>s'. cp_read (int (length b)) s = (Inr (Bytes b), s') \<and> cp_rdp p ?all (Suc i * length b) s'"
      if "i < batch_size" "cp_rdp p ?all (i * length b) s" for i s
      using cp_read_law [OF that(2), of "length b"]
      unfolding take_copies [OF less_SucI [OF that(1)]] mult_Suc add.commute [of "length b"] .
  qed
  then obtain s6 where six: "times batch_size (cp_read (int (length b))) s5 =
      (Inr (replicate batch_size (Bytes b)), s6)" "cp_rdp p ?all (batch_size * length b) s6" by blast
  from cp_close_law [OF six(2)] obtain fs7 f7 b7 where
    "cp_close s6 = (Inr (), ((fs7, f7), b7))" "fs7 p = Some ?all" by blast
  with one(1) two(1) three(1) four(1) five(1) six(1) show ?thesis
    by (simp add: run_builtin_sync_benchmark_def builtin_benchmark_body_def py_flags_wb open1 io_bind_apply)
qed


section \<open>The pipelined run\<close>

lemma holds_ex: "holds (\<lambda>s. \<exists>m \<le> n. P m s) kind k w = (\<exists>m \<le> n. holds (P m) kind k w)"
  by (auto simp: holds_def)

lemma holds_mono: "holds P kind k w \<Longrightarrow> (\<And>s. P s \<Longrightarrow> Q s) \<Longrightarrow> holds Q kind k w"
  by (auto simp: holds_def)

text \<open>The warm-up and the tasks \<open>is\<close> have written; \<open>w0\<close> is the state before them.\<close>

definition piped_write_inv ::
  "(string \<Rightarrow> bytes \<Rightarrow> rstate \<Rightarrow> bool) \<Rightarrow> string \<Rightarrow> bytes \<Rightarrow> world \<Rightarrow> nat list \<Rightarrow> world \<Rightarrow> bool" where
  "piped_write_inv app p b w0 is w =
     (length b < 2 ^ 32 \<and> holds (app p (copies (Suc (length is)) b)) BufRandom 0 w \<and> keeps p 0 w0 w)"

text \<open>
  At most as many copies as there were reads are behind the position: \<open>aread\<close> of the native
  engine leaves it at the start.
\<close>

definition piped_read_inv ::
  "(string \<Rightarrow> bytes \<Rightarrow> nat \<Rightarrow> rstate \<Rightarrow> bool) \<Rightarrow> string \<Rightarrow> bytes \<Rightarrow> world \<Rightarrow> nat list \<Rightarrow> world \<Rightarrow> bool" where
  "piped_read_inv rdp p b w0 is w =
     (length b < 2 ^ 32 \<and>
      holds (\<lambda>s. \<exists>m \<le> length is. rdp p (copies (Suc batch_size) b) (m * length b) s) BufRandom 0 w \<and>
      keeps p 0 w0 w)"

sublocale raw_file \<subseteq> piped_writes: shared_tasks "\<lambda>i v. at 0 (ob_awrite (Bytes b))"
  "\<lambda>i. int (length b)" "piped_write_inv app p b w0" batch_size 0 for p b w0
proof
  fix i "is" w
  assume inv: "piped_write_inv app p b w0 is w"
  with w_awrite [of p "copies (Suc (length is)) b" 0 w b] obtain w' where
    "at 0 (ob_awrite (Bytes b)) w = (Inr (int (length b)), w')"
    "holds (app p (copies (Suc (Suc (length is))) b)) BufRandom 0 w'" "keeps p 0 w w'"
    unfolding copies_snoc by (auto simp: piped_write_inv_def)
  with inv show "\<exists>w'. at 0 (ob_awrite (Bytes b)) w = (Inr (int (length b)), w') \<and>
      piped_write_inv app p b w0 (is @ [i]) w'"
    by (auto simp: piped_write_inv_def intro: keeps_trans)
qed

sublocale raw_file \<subseteq> piped_reads: shared_tasks "\<lambda>i v. at 0 (ob_aread (int (length b)))"
  "\<lambda>i. Bytes b" "piped_read_inv rdp p b w0" batch_size "Bytes []" for p b w0
proof
  let ?all = "copies (Suc batch_size) b"
  fix i "is" w
  assume i: "i < batch_size" "i \<notin> set is" "distinct is" "set is \<subseteq> {..<batch_size}"
    and inv: "piped_read_inv rdp p b w0 is w"
  have "length is \<le> batch_size"
    using i(3,4) by (metis card_lessThan card_mono distinct_card finite_lessThan)
  with inv obtain m where m: "m \<le> length is" "m < Suc batch_size"
    "holds (rdp p ?all (m * length b)) BufRandom 0 w" by (auto simp: piped_read_inv_def holds_ex)
  have n: "0 \<le> int (length b)" "int (length b) < 2 ^ 32"
    using inv by (simp_all add: piped_read_inv_def)
  from w_aread [OF m(3) _ n] obtain w' where w':
    "at 0 (ob_aread (int (length b))) w = (Inr (Bytes b), w')"
    "holds (\<lambda>s. \<exists>j'. rdp p ?all j' s \<and> (j' = 0 \<or> j' = m * length b + length b)) BufRandom 0 w'"
    "keeps p 0 w w'"
    unfolding nat_int take_copies [OF m(2)] by auto
  have "holds (\<lambda>s. \<exists>m \<le> length (is @ [i]). rdp p ?all (m * length b) s) BufRandom 0 w'"
  proof (rule holds_mono [OF w'(2)])
    fix s assume "\<exists>j'. rdp p ?all j' s \<and> (j' = 0 \<or> j' = m * length b + length b)"
    then have "rdp p ?all (0 * length b) s \<or> rdp p ?all (Suc m * length b) s"
      by (auto simp: add.commute)
    with m(1) show "\<exists>m \<le> length (is @ [i]). rdp p ?all (m * length b) s" by auto
  qed
  with w'(1,3) inv show "\<exists>w'. at 0 (ob_aread (int (length b))) w = (Inr (Bytes b), w') \<and>
      piped_read_inv rdp p b w0 (is @ [i]) w'"
    unfolding piped_read_inv_def by (blast intro: keeps_trans)
qed

context raw_file
begin

lemma pipelined_benchmark:
  assumes "length b < 2 ^ 32"
    and "complete ws (replicate batch_size [\<lambda>_. at 0 (ob_awrite (Bytes b))])"
    and "complete rs (replicate batch_size [\<lambda>_. at 0 (ob_aread (int (length b)))])"
  shows "\<exists>w'. run_async_pipelined_benchmark e ws rs p b w =
      Some (Inr (replicate batch_size (int (length b)), replicate batch_size (Bytes b)), w') \<and>
      fst w' p = Some (copies (Suc batch_size) b) \<and> (\<forall>q. q \<noteq> p \<longrightarrow> fst w' q = fst w q)"
proof -
  let ?all = "copies (Suc batch_size) b"
  from w_open_write [of 0 p w] obtain w1 where one: "w_open e 0 p ''w+b'' w = (Inr (), w1)"
    "holds (app p []) BufRandom 0 w1" "keeps p 0 w w1" by blast
  from w_awrite [OF one(2) assms(1)] obtain w2 where two:
    "at 0 (ob_awrite (Bytes b)) w1 = (Inr (int (length b)), w2)"
    "holds (app p b) BufRandom 0 w2" "keeps p 0 w1 w2" unfolding append_Nil by blast
  from w_aflush_app [OF two(2)] obtain w3 where three: "at 0 ob_aflush w2 = (Inr (), w3)"
    "holds (app p b) BufRandom 0 w3" "keeps p 0 w2 w3" by blast
  have "piped_write_inv app p b w3 [] w3" using three(2) assms(1) by (simp add: piped_write_inv_def)
  from piped_writes.gather_shared [OF this, of ws] assms(2) obtain js w4 where four:
    "gather ws (replicate batch_size [\<lambda>_. at 0 (ob_awrite (Bytes b))]) 0 w3 =
       Some (Inr (replicate batch_size (int (length b))), w4)"
    "distinct js" "set js = {..<batch_size}" "piped_write_inv app p b w3 js w4"
    unfolding map_replicate_const by auto
  have "length js = batch_size" using four(2,3) by (metis card_lessThan distinct_card)
  with four(4) have f4: "holds (app p ?all) BufRandom 0 w4" "keeps p 0 w3 w4"
    by (simp_all add: piped_write_inv_def)
  from w_aflush_app [OF f4(1)] obtain w5 where five: "at 0 ob_aflush w4 = (Inr (), w5)"
    "holds (app p ?all) BufRandom 0 w5" "keeps p 0 w4 w5" by blast
  from w_seek [OF five(2)] obtain w6 where six: "at 0 (ob_seek 0 0) w5 = (Inr 0, w6)"
    "holds (rdp p ?all 0) BufRandom 0 w6" "keeps p 0 w5 w6" by blast
  have "piped_read_inv rdp p b w6 [] w6" using six(2) assms(1) by (simp add: piped_read_inv_def)
  from piped_reads.gather_shared [OF this, of rs] assms(3) obtain ks w7 where seven:
    "gather rs (replicate batch_size [\<lambda>_. at 0 (ob_aread (int (length b)))]) (Bytes []) w6 =
       Some (Inr (replicate batch_size (Bytes b)), w7)" "piped_read_inv rdp p b w6 ks w7"
    unfolding map_replicate_const by auto
  from seven(2) obtain m where f7: "holds (rdp p ?all (m * length b)) BufRandom 0 w7" "keeps p 0 w6 w7"
    by (auto simp: piped_read_inv_def holds_ex)
  from w_close [OF holds_fin(2) [OF f7(1)]] obtain w8 where eight: "at 0 ob_close w7 = (Inr (), w8)"
    "fst w8 p = Some ?all" "keeps p 0 w7 w8" by blast
  have "keeps p 0 w w8"
    using one(3) two(3) three(3) f4(2) five(3) six(3) f7(2) eight(3) by (blast intro: keeps_trans)
  then have "\<forall>q. q \<noteq> p \<longrightarrow> fst w8 q = fst w q" by (blast intro: keeps_file)
  with one(1) two(1) three(1) four(1) five(1) six(1) seven(1) eight(1,2) show ?thesis
    by (simp add: run_async_pipelined_benchmark_def bio_bind_def awaited_def map_replicate_const io_return_def)
qed

end


section \<open>The batch run\<close>

context raw_file
begin

lemma batch_benchmark:
  assumes "length b < 2 ^ 32"
  shows "\<exists>w'. run_async_batch_api_benchmark e p b w =
      (Inr (replicate batch_size (int (length b)), replicate batch_size (Bytes b)), w') \<and>
      fst w' p = Some (copies (Suc batch_size) b) \<and> (\<forall>q. q \<noteq> p \<longrightarrow> fst w' q = fst w q)"
proof -
  let ?all = "copies (Suc batch_size) b"
  from w_open_write [of 0 p w] obtain w1 where one: "w_open e 0 p ''w+b'' w = (Inr (), w1)"
    "holds (app p []) BufRandom 0 w1" "keeps p 0 w w1" by blast
  from w_awrite [OF one(2) assms] obtain w2 where two:
    "at 0 (ob_awrite (Bytes b)) w1 = (Inr (int (length b)), w2)"
    "holds (app p b) BufRandom 0 w2" "keeps p 0 w1 w2" unfolding append_Nil by blast
  from w_aflush_app [OF two(2)] obtain w3 where three: "at 0 ob_aflush w2 = (Inr (), w3)"
    "holds (app p b) BufRandom 0 w3" "keeps p 0 w2 w3" by blast
  from w_awrite_batch [OF three(2), of "replicate batch_size b"] assms obtain w4 where four:
    "at 0 (ob_awrite_batch (replicate batch_size (Bytes b))) w3 =
       (Inr (replicate batch_size (int (length b))), w4)"
    "holds (app p ?all) BufRandom 0 w4" "keeps p 0 w3 w4" by auto
  from w_aflush_app [OF four(2)] obtain w5 where five: "at 0 ob_aflush w4 = (Inr (), w5)"
    "holds (app p ?all) BufRandom 0 w5" "keeps p 0 w4 w5" by blast
  from w_seek [OF five(2)] obtain w6 where six: "at 0 (ob_seek 0 0) w5 = (Inr 0, w6)"
    "holds (rdp p ?all 0) BufRandom 0 w6" "keeps p 0 w5 w6" by blast
  from w_aread_batch [OF six(2), of "replicate batch_size (length b)"] assms obtain w7 where seven:
    "at 0 (ob_aread_batch (replicate batch_size (Size (int (length b))))) w6 =
       (Inr (replicate batch_size (Bytes b)), w7)"
    "holds (fin p ?all) BufRandom 0 w7" "keeps p 0 w6 w7"
    by (auto simp: cut_copies simp del: replicate.simps concat.simps)
  from w_close [OF seven(2)] obtain w8 where eight: "at 0 ob_close w7 = (Inr (), w8)"
    "fst w8 p = Some ?all" "keeps p 0 w7 w8" by blast
  have "keeps p 0 w w8"
    using one(3) two(3) three(3) four(3) five(3) six(3) seven(3) eight(3) by (blast intro: keeps_trans)
  then have "\<forall>q. q \<noteq> p \<longrightarrow> fst w8 q = fst w q" by (blast intro: keeps_file)
  with one(1) two(1) three(1) four(1) five(1) six(1) seven(1) eight(1,2) show ?thesis
    by (simp add: run_async_batch_api_benchmark_def io_bind_apply io_return_def)
qed

end

section \<open>The result of the script\<close>

lemma length_base_chunk: "length base_chunk = 53"
  by (simp add: base_chunk_def ascii_bytes_def)

text \<open>
  Whatever \<open>--payload-size-kb\<close> is, the payload of the script has as many KiB as asked for,
  but at least one and at most 2048.
\<close>

lemma main_payload_size:
  "length (main_payload arg) = 1024 * payload_kb arg \<and> 1 \<le> payload_kb arg \<and> payload_kb arg \<le> 2048 \<and>
   (arg \<in> {1..2048} \<longrightarrow> int (payload_kb arg) = arg)"
proof -
  let ?n = "payload_kb arg * 1024"
  have "?n < (?n div 53 + 1) * 53"
    using dividend_less_times_div [of 53 ?n] by (simp add: algebra_simps)
  then have "length (main_payload arg) = ?n"
    by (simp add: main_payload_def Let_def length_repeat length_base_chunk)
  moreover have "1 \<le> payload_kb arg" "payload_kb arg \<le> 2048" "arg \<in> {1..2048} \<longrightarrow> int (payload_kb arg) = arg"
    by (auto simp: payload_kb_def)
  ultimately show ?thesis by simp
qed




lemma main_payload_small: "length (main_payload arg) < 2 ^ 32"
  using main_payload_size [of arg] by simp

lemma pipelined_any_engine:
  assumes "length b < 2 ^ 32"
    and "complete ws (replicate batch_size [\<lambda>_. at 0 (ob_awrite (Bytes b))])"
    and "complete rs (replicate batch_size [\<lambda>_. at 0 (ob_aread (int (length b)))])"
  shows "\<exists>w'. run_async_pipelined_benchmark e ws rs p b w =
      Some (Inr (replicate batch_size (int (length b)), replicate batch_size (Bytes b)), w')"
  by (rule engine_cases [where e = e])
    (use pool.pipelined_benchmark [OF assms] native.pipelined_benchmark [OF assms] in blast)+

lemma batch_any_engine:
  assumes "length b < 2 ^ 32"
  shows "\<exists>w'. run_async_batch_api_benchmark e p b w =
      (Inr (replicate batch_size (int (length b)), replicate batch_size (Bytes b)), w')"
  by (rule engine_cases [where e = e])
    (use pool.batch_benchmark [OF assms] native.batch_benchmark [OF assms] in blast)+

lemma one_round:
  assumes "length progs = n" and "list_all (\<lambda>ms. length ms = 1) progs"
  shows "complete [0..<n] progs"
  using complete_rounds [of 1 progs n] assms by (simp add: list_all_iff)

end
