(* ===== verification/Std_Out.thy ===== *)
theory Std_Out
  imports Async_Print File_Tasks Ring_Config
begin

text \<open>
  \<open>sys.stdout\<close>, a text stream of the standard library without async methods, as the default target of
  \<open>aprint\<close> (\<open>py_native_io/print.py\<close>) and of \<open>print\<close>; several \<open>aprint\<close>s gathered on one event loop.
\<close>

section \<open>The stream\<close>

text \<open>The state is the text that has been written; the encoding is UTF-8.\<close>

definition stdout_write :: "pydata \<Rightarrow> (pstr, int) io" where
  "stdout_write d = (\<lambda>out.
     case d of
       Str t \<Rightarrow> if list_all scalar t then (Inr (int (length t)), out @ t) else (Inl UnicodeEncodeError, out)
     | Bytes b \<Rightarrow> (Inl (TypeError ''write() argument must be str, not bytes''), out))"

definition stdout_stream :: "pstr stream" where
  "stdout_stream = \<lparr>
     s_write = Some (\<lambda>_. stdout_write), s_awrite = None, s_fileno = Some (io_return 1),
     s_read = None, s_close = None, s_flush = Some (io_return ()),
     s_aread = None, s_aclose = None, s_aflush = None,
     s_aread_batch = None, s_awrite_batch = None, s_asplice = None\<rparr>"

text \<open>\<open>print\<close> writes the objects, the separators and the end one by one.\<close>

fun print_parts :: "pstr \<Rightarrow> pstr list \<Rightarrow> (pstr, unit) io" where
  "print_parts sep [] = io_return ()"
| "print_parts sep [x] = io_bind (stdout_write (Str x)) (\<lambda>_. io_return ())"
| "print_parts sep (x # y # ys) =
     io_bind (stdout_write (Str x)) (\<lambda>_. io_bind (stdout_write (Str sep)) (\<lambda>_. print_parts sep (y # ys)))"

definition py_print :: "pstr list \<Rightarrow> pstr \<Rightarrow> pstr \<Rightarrow> (pstr, unit) io" where
  "py_print objects sep en =
     io_bind (print_parts sep objects) (\<lambda>_. io_bind (stdout_write (Str en)) (\<lambda>_. io_return ()))"

text \<open>\<open>assert\<close>\<close>

definition py_assert :: "bool \<Rightarrow> ('s, unit) io" where
  "py_assert b = (if b then io_return () else io_raise (RuntimeError ''AssertionError''))"

section \<open>aprint instead of print\<close>

lemma scalar_joined:
  "list_all (list_all scalar) objects \<Longrightarrow> list_all scalar sep \<Longrightarrow> list_all scalar (join sep objects)"
  by (induction sep objects rule: join.induct) simp_all

lemma print_parts_text:
  "list_all (list_all scalar) objects \<Longrightarrow> list_all scalar sep \<Longrightarrow>
   print_parts sep objects out = (Inr (), out @ join sep objects)"
  by (induction sep objects arbitrary: out rule: print_parts.induct)
    (simp_all add: stdout_write_def io_bind_apply io_return_def)

lemma print_text:
  assumes "list_all (list_all scalar) objects" and "list_all scalar sep" and "list_all scalar en"
  shows "py_print objects sep en out = (Inr (), out @ aprint_output objects sep en)"
  using assms print_parts_text [OF assms(1,2), of out]
  by (simp add: py_print_def aprint_output_def stdout_write_def io_bind_apply io_return_def)

lemma aprint_text:
  assumes "list_all scalar (aprint_output objects sep en)"
  shows "aprint stdout_stream flush objects sep en out = (Inr (), out @ aprint_output objects sep en)"
  using assms
  by (simp add: aprint_def utf8_encode_def stdout_stream_def stdout_write_def call_flush_def
      io_bind_apply io_return_def Let_def)

text \<open>
  On the default target \<open>aprint\<close> does what \<open>print\<close> does, for text that can be encoded; for the rest
  \<open>aprint\<close> raises before it has written anything (\<open>aprint_unencodable\<close>), \<open>print\<close> after the parts
  in front.
\<close>

lemma aprint_like_print:
  assumes "list_all (list_all scalar) objects" and "list_all scalar sep" and "list_all scalar en"
  shows "aprint stdout_stream flush objects sep en = py_print objects sep en"
proof
  fix out
  have "list_all scalar (aprint_output objects sep en)"
    using scalar_joined [OF assms(1,2)] assms(3) by (simp add: aprint_output_def)
  from aprint_text [OF this] print_text [OF assms]
  show "aprint stdout_stream flush objects sep en out = py_print objects sep en out" by simp
qed

lemma print_stops_half_way:
  "py_print [[97], [0xD800]] [32] [10] out = (Inl UnicodeEncodeError, out @ [97, 32]) \<and>
   aprint stdout_stream flush [[97], [0xD800]] [32] [10] out = (Inl UnicodeEncodeError, out)"
proof -
  have s: "\<not> scalar 0xD800" "scalar 97" "scalar 32" by (simp_all add: scalar_def surrogate_def)
  then have "\<not> list_all scalar (aprint_output [[97], [0xD800]] [32] [10])"
    by (simp add: aprint_output_def)
  from aprint_unencodable [OF this] s show ?thesis
    by (simp add: py_print_def stdout_write_def io_bind_apply)
qed

text \<open>A series of \<open>print\<close>s with one object each.\<close>

definition print_lines :: "pstr list \<Rightarrow> (pstr, unit) io" where
  "print_lines ls = io_bind (io_map (\<lambda>l. py_print [l] [32] [10]) ls) (\<lambda>_. io_return ())"

lemma print_lines_text:
  "list_all (list_all scalar) ls \<Longrightarrow> print_lines ls out = (Inr (), out @ concat (map (\<lambda>l. l @ [10]) ls))"
proof -
  have s: "list_all scalar [32]" "list_all scalar [10]" by (simp_all add: scalar_def surrogate_def)
  have "io_map (\<lambda>l. py_print [l] [32] [10]) ls out =
      (Inr (replicate (length ls) ()), out @ concat (map (\<lambda>l. l @ [10]) ls))"
    if "list_all (list_all scalar) ls"
    using that
  proof (induction ls arbitrary: out)
    case (Cons l ls)
    from print_text [OF _ s, of "[l]" out] Cons show ?case
      by (simp add: io_bind_apply io_return_def aprint_output_def)
  qed (simp add: io_return_def)
  then show "list_all (list_all scalar) ls \<Longrightarrow>
      print_lines ls out = (Inr (), out @ concat (map (\<lambda>l. l @ [10]) ls))"
    by (simp add: print_lines_def io_bind_apply io_return_def)
qed

lemma scalar_ascii: "list_all scalar (ascii s)"
proof -
  have "scalar (of_char c)" for c :: char
  proof -
    have "of_char c < (256 :: nat)" by simp
    then show ?thesis unfolding scalar_def surrogate_def by linarith
  qed
  then show ?thesis by (simp add: ascii_def list_all_iff)
qed

section \<open>Gathered prints\<close>

text \<open>One \<open>aprint\<close> with one object for each line, all awaited by one \<open>gather\<close>.\<close>

definition aprint_tasks :: "pstr list \<Rightarrow> (pstr, unit) steps list" where
  "aprint_tasks ls = map (\<lambda>l. [\<lambda>_. aprint stdout_stream False [l] [32] [10]]) ls"

definition printed_lines :: "pstr list \<Rightarrow> nat list \<Rightarrow> pstr" where
  "printed_lines ls is = concat (map (\<lambda>i. ls ! i @ [10]) is)"

definition printed_inv :: "pstr list \<Rightarrow> pstr \<Rightarrow> nat list \<Rightarrow> pstr \<Rightarrow> bool" where
  "printed_inv ls out0 is out = (list_all (list_all scalar) ls \<and> out = out0 @ printed_lines ls is)"

interpretation printed: shared_tasks "\<lambda>i _. aprint stdout_stream False [ls ! i] [32] [10]" "\<lambda>_. ()"
  "printed_inv ls out0" "length ls" "()" for ls out0
proof
  fix i "is" out
  assume i: "i < length ls" and inv: "printed_inv ls out0 is out"
  have "scalar 10" by (simp add: scalar_def surrogate_def)
  moreover have "list_all scalar (ls ! i)" using i inv by (auto simp: printed_inv_def list_all_iff dest: nth_mem)
  ultimately have "list_all scalar (aprint_output [ls ! i] [32] [10])" by (simp add: aprint_output_def)
  from aprint_text [OF this, of False out] inv
  show "\<exists>out'. aprint stdout_stream False [ls ! i] [32] [10] out = (Inr (), out') \<and>
      printed_inv ls out0 (is @ [i]) out'"
    by (simp add: printed_inv_def printed_lines_def aprint_output_def)
qed

text \<open>Whatever the schedule, each line is written once and in one piece.\<close>

lemma gather_aprints:
  assumes "list_all (list_all scalar) ls" and "complete sched (aprint_tasks ls)"
  shows "\<exists>is. gather sched (aprint_tasks ls) () out =
           Some (Inr (replicate (length ls) ()), out @ printed_lines ls is) \<and>
           distinct is \<and> set is = {..<length ls}"
proof -
  have tasks: "aprint_tasks ls = map (\<lambda>i. [\<lambda>_. aprint stdout_stream False [ls ! i] [32] [10]]) [0..<length ls]"
    unfolding aprint_tasks_def by (rule nth_equalityI) simp_all
  have "printed_inv ls out [] out" using assms(1) by (simp add: printed_inv_def printed_lines_def)
  from printed.gather_shared [OF this, of sched] assms(2) show ?thesis
    unfolding tasks printed_inv_def by (auto simp: map_replicate_const)
qed

end
