(* ===== verification/Example_Files.thy ===== *)
theory Example_Files
  imports Example_Batch Std_Out
begin

text \<open>
  Two examples on opened files: \<open>examples/04_zero_copy_kernel_splice.py\<close>, which copies with
  \<open>asplice\<close>, and \<open>examples/08_async_aprint.py\<close>, which prints to a file and reads it back as text.
  What the first prints is in \<open>Script_Output\<close>.
\<close>

section \<open>Copying with asplice\<close>

text \<open>
  \<open>src_file\<close> is variable 0, \<open>dst_file\<close> variable 1; the result is what \<open>asplice\<close> returned and what is
  read back from the copy.
\<close>

definition splice_example ::
  "(int \<Rightarrow> pydata \<Rightarrow> (world, int) io) \<Rightarrow> engine_choice \<Rightarrow> string \<Rightarrow> string \<Rightarrow> int \<Rightarrow> (world, int \<times> pydata) io" where
  "splice_example osw e src_name dst_name sz =
     io_bind (w_open e 0 src_name ''rb'') (\<lambda>_.
     io_bind (w_open e 1 dst_name ''w+b'') (\<lambda>_.
     io_bind (w_asplice osw 0 1 sz) (\<lambda>bytes_spliced.
     io_bind (at 1 (ob_seek 0 0)) (\<lambda>_.
     io_bind (at 1 (ob_read (-1))) (\<lambda>copied_data.
     io_bind (at 0 ob_close) (\<lambda>_.
     io_bind (at 1 ob_close) (\<lambda>_.
     io_return (bytes_spliced, copied_data))))))))"

text \<open>The source file that the script prepares, and the size it passes.\<close>

definition splice_source :: bytes where
  "splice_source = concat (replicate 10
     (ascii_bytes (''Zero-Copy Kernel Splice Data Pipeline Payload'' @ [CHR 0x0A])))"

definition splice_size :: int where
  "splice_size = 4096"

context raw_file
begin

lemma w_fileno:
  assumes "holds (fin p c) kind k w"
  shows "\<exists>fd. at k ob_fileno w = (Inr fd, w)"
proof -
  obtain fs H where w: "w = (fs, H)" by (cases w)
  with assms obtain o1 r where ob: "H k = Some (o1, r)" "fin p c (fs, r)" by (auto simp: holds_def)
  from ob(1) have "H(k \<mapsto> (o1, r)) = H" by auto
  with ob fin_open [OF ob(2)] show ?thesis
    by (simp add: w at_def ob_fileno_def unless_closed_def)
qed

lemma w_asplice_law:
  assumes "holds (rdp p c 0) BufReader i w" and "holds (app q []) BufRandom j w"
    and "p \<noteq> q" and "i \<noteq> j" and "0 < n" and "n < 2 ^ 32"
  shows "\<exists>w'. w_asplice osw i j n w = (Inr (int (length (take (nat n) c))), w') \<and>
           holds (fin p c) BufReader i w' \<and> holds (app q (take (nat n) c)) BufRandom j w' \<and>
           (\<forall>r. r \<noteq> p \<longrightarrow> r \<noteq> q \<longrightarrow> fst w' r = fst w r)"
proof -
  let ?d = "take (nat n) c"
  from w_fileno [OF holds_fin(1) [OF assms(2)]] obtain fd where fd: "at j ob_fileno w = (Inr fd, w)" ..
  from w_aread [OF assms(1), of n] assms(5,6) obtain w1 where one:
    "at i (ob_aread n) w = (Inr (Bytes ?d), w1)"
    "holds (\<lambda>s. \<exists>j'. rdp p c j' s \<and> (j' = 0 \<or> j' = 0 + length ?d)) BufReader i w1" "keeps p i w w1"
    by auto
  have src1: "holds (fin p c) BufReader i w1"
    by (rule holds_mono [OF one(2)]) (blast intro: rdp_fin)
  have dst1: "holds (app q []) BufRandom j w1"
    by (rule holds_kept(1) [OF one(3) _ _ assms(2)]) (use assms(3,4) in auto)
  have run: "w_asplice osw i j n w = (if ?d = [] then (Inr 0, w1) else at j (ob_awrite (Bytes ?d)) w1)"
    using fd one(1) assms(5)
    by (simp add: w_asplice_def base_asplice_def w_target_def chunk_size_def io_defs)
  show ?thesis
  proof (cases "?d = []")
    case True
    with run src1 dst1 keeps_file [OF one(3)] show ?thesis by auto
  next
    case False
    have "length ?d < 2 ^ 32" using assms(6) by simp
    from w_awrite [OF dst1 this] obtain w2 where two:
      "at j (ob_awrite (Bytes ?d)) w1 = (Inr (int (length ?d)), w2)"
      "holds (app q ?d) BufRandom j w2" "keeps q j w1 w2" unfolding append_Nil by blast
    have "holds (fin p c) BufReader i w2"
      by (rule holds_kept(3) [OF two(3) _ _ src1]) (use assms(3,4) in auto)
    moreover have "\<forall>r. r \<noteq> p \<longrightarrow> r \<noteq> q \<longrightarrow> fst w2 r = fst w r"
      using keeps_file [OF one(3)] keeps_file [OF two(3)] by simp
    ultimately show ?thesis using run False two(1,2) by auto
  qed
qed

lemma splice_example_law:
  assumes "fst w p = Some c" and "p \<noteq> q" and "0 < n" and "n < 2 ^ 32"
  shows "\<exists>w'. splice_example osw e p q n w =
             (Inr (int (length (take (nat n) c)), Bytes (take (nat n) c)), w') \<and>
           fst w' = (fst w)(q \<mapsto> take (nat n) c)"
proof -
  let ?d = "take (nat n) c"
  from w_open_read [of w p c 0] assms(1) obtain w1 where one: "w_open e 0 p ''rb'' w = (Inr (), w1)"
    "holds (rdp p c 0) BufReader 0 w1" "fst w1 = fst w" by blast
  from w_open_write [of 1 q w1] obtain w2 where two: "w_open e 1 q ''w+b'' w1 = (Inr (), w2)"
    "holds (app q []) BufRandom 1 w2" "keeps q 1 w1 w2" by blast
  have src2: "holds (rdp p c 0) BufReader 0 w2"
    by (rule holds_kept(2) [OF two(3) _ _ one(2)]) (use assms(2) in auto)
  from w_asplice_law [OF src2 two(2) assms(2) _ assms(3,4), of osw] obtain w3 where three:
    "w_asplice osw 0 1 n w2 = (Inr (int (length ?d)), w3)" "holds (fin p c) BufReader 0 w3"
    "holds (app q ?d) BufRandom 1 w3" "\<forall>r. r \<noteq> p \<longrightarrow> r \<noteq> q \<longrightarrow> fst w3 r = fst w2 r" by auto
  from w_seek [OF three(3)] obtain w4 where four: "at 1 (ob_seek 0 0) w3 = (Inr 0, w4)"
    "holds (rdp q ?d 0) BufRandom 1 w4" "keeps q 1 w3 w4" by blast
  from w_read_all [OF four(2)] obtain w5 where five: "at 1 (ob_read (-1)) w4 = (Inr (Bytes ?d), w5)"
    "holds (fin q ?d) BufRandom 1 w5" "keeps q 1 w4 w5" by blast
  have "keeps q 1 w3 w5" by (rule keeps_trans [OF four(3) five(3)])
  then have src5: "holds (fin p c) BufReader 0 w5"
    by (rule holds_kept(3) [OF _ _ _ three(2)]) (use assms(2) in auto)
  from w_close [OF src5] obtain w6 where six: "at 0 ob_close w5 = (Inr (), w6)"
    "fst w6 p = Some c" "keeps p 0 w5 w6" by blast
  have "holds (fin q ?d) BufRandom 1 w6"
    by (rule holds_kept(3) [OF six(3) _ _ five(2)]) (use assms(2) in auto)
  from w_close [OF this] obtain w7 where seven: "at 1 ob_close w6 = (Inr (), w7)"
    "fst w7 q = Some ?d" "keeps q 1 w6 w7" by blast
  have "fst w7 r = ((fst w)(q \<mapsto> ?d)) r" for r
  proof -
    consider "r = q" | "r = p" | "r \<noteq> p" "r \<noteq> q" by blast
    then show ?thesis
    proof cases
      case 1 with seven(2) show ?thesis by simp
    next
      case 2
      with keeps_file [OF seven(3), of p] six(2) assms(1,2) show ?thesis by simp
    next
      case 3
      with keeps_file [OF two(3), of r] three(4) keeps_file [OF four(3), of r]
        keeps_file [OF five(3), of r] keeps_file [OF six(3), of r] keeps_file [OF seven(3), of r] one(3)
      show ?thesis by simp
    qed
  qed
  then have "fst w7 = (fst w)(q \<mapsto> ?d)" ..
  with one(1) two(1) three(1) four(1) five(1) six(1) seven(1) show ?thesis
    by (simp add: splice_example_def io_bind_apply io_return_def)
qed

end

text \<open>
  C18: on every engine the splice example copies the first \<open>size\<close> bytes of its source, all of a
  source that is no longer, and leaves the source and every other file alone; \<open>asplice\<close> returns how
  many it copied.  The bytes go through \<open>aread\<close> and \<open>awrite\<close>, not through a splice of the kernel.
\<close>

theorem splice_example_copies:
  assumes "fs src = Some c" and "src \<noteq> dst" and "0 < n" and "n < 2 ^ 32"
  shows "\<exists>w'. splice_example osw e src dst n (fs, H) =
             (Inr (int (length (take (nat n) c)), Bytes (take (nat n) c)), w') \<and>
           fst w' = fs(dst \<mapsto> take (nat n) c)"
proof (rule engine_cases [where e = e], goal_cases)
  case (1 ring)
  show ?case 
    using pool.splice_example_law [of "(fs, H)" src c dst n osw] assms unfolding fst_conv by blast
next
  case (2 ring)
  show ?case 
    using native.splice_example_law [of "(fs, H)" src c dst n osw] assms unfolding fst_conv by blast
qed

theorem splice_example_copies_witness:
  "\<exists>w'. splice_example (\<lambda>_ _. io_return 0) \<lparr>en_native = True, en_ring = False\<rparr> ''src'' ''dst''
      splice_size ([''src'' \<mapsto> splice_source], Map.empty) = (Inr (460, Bytes splice_source), w') \<and>
    fst w' ''dst'' = Some splice_source"
proof -
  have len: "length splice_source = 460"
    unfolding splice_source_def length_repeat by (simp add: ascii_bytes_def)
  then have "take (nat splice_size) splice_source = splice_source" by (simp add: splice_size_def)
  with splice_example_copies [of "[''src'' \<mapsto> splice_source]" "''src''" splice_source "''dst''" splice_size
      "\<lambda>_ _. io_return 0" "\<lparr>en_native = True, en_ring = False\<rparr>" Map.empty] len
  show ?thesis by (auto simp: splice_size_def)
qed


section \<open>Printing to a file\<close>

text \<open>An opened file as the \<open>file\<close> of \<open>aprint\<close>; members that it does not look at are left out.\<close>

definition w_stream :: "nat \<Rightarrow> world stream" where
  "w_stream k = \<lparr>
     s_write = Some (\<lambda>_ d. at k (ob_write d)), s_awrite = Some (\<lambda>d. at k (ob_awrite d)),
     s_fileno = Some (at k ob_fileno),
     s_read = Some (\<lambda>_ n. at k (ob_read n)), s_close = Some (at k ob_close),
     s_flush = Some (at k ob_flush), s_aread = Some (\<lambda>n. at k (ob_aread n)),
     s_aclose = Some (at k ob_aclose), s_aflush = Some (at k ob_aflush),
     s_aread_batch = Some (\<lambda>sp. at k (ob_aread_batch sp)),
     s_awrite_batch = Some (\<lambda>ds. at k (ob_awrite_batch ds)),
     s_asplice = None\<rparr>"

text \<open>\<open>read()\<close> of a text file: all of the data, decoded, with universal newlines.\<close>

fun translate_newlines :: "pstr \<Rightarrow> pstr" where
  "translate_newlines [] = []"
| "translate_newlines (c # cs) =
     (if c = 13 then
        10 # (case cs of [] \<Rightarrow> [] | d # ds \<Rightarrow> translate_newlines (if d = 10 then ds else cs))
      else c # translate_newlines cs)"

definition text_of :: "pydata \<Rightarrow> py_error + pydata" where
  "text_of d = (case d of
     Bytes b \<Rightarrow> (case utf8_decode b of Inl er \<Rightarrow> Inl er | Inr t \<Rightarrow> Inr (Str (translate_newlines t)))
   | Str t \<Rightarrow> Inr (Str t))"

definition w_text_read :: "nat \<Rightarrow> (world, pydata) io" where
  "w_text_read k = io_bind (at k (ob_read (-1))) (\<lambda>d.
     case text_of d of Inl er \<Rightarrow> io_raise er | Inr t \<Rightarrow> io_return t)"

text \<open>
  \<open>f\<close> is variable 0, \<open>r\<close> variable 1, which the \<open>with\<close> statement closes; a line is the list of the
  objects that are printed.
\<close>

definition aprint_example :: "engine_choice \<Rightarrow> string \<Rightarrow> pstr list \<Rightarrow> pstr list \<Rightarrow> (world, pydata) io" where
  "aprint_example e path line1 line2 =
     io_bind (w_open e 0 path ''w+b'') (\<lambda>_.
     io_bind (aprint (w_stream 0) False line1 [32] [10]) (\<lambda>_.
     io_bind (aprint (w_stream 0) True line2 [32] [10]) (\<lambda>_.
     io_bind (at 0 ob_close) (\<lambda>_.
     io_bind (w_open e 1 path ''r'') (\<lambda>_.
     io_bind (w_text_read 1) (\<lambda>content.
     io_bind (at 1 ob_close) (\<lambda>_. io_return content)))))))"

text \<open>\<open>main()\<close> as a whole; the output is the second half of the state.\<close>

definition aprint_title :: pstr where
  "aprint_title = ascii ''=== Example 08: Asynchronous Printing with aprint ===''"

definition aprint_welcome :: "pstr list" where
  "aprint_welcome =
     [[0x1F680] @ ascii '' Welcome to'', ascii ''py-native-io'', ascii ''asynchronous print!'']"

definition aprint_heading :: pstr where
  "aprint_heading = [10] @ ascii ''--- Content written to temp file via aprint ---''"

definition aprint_success :: pstr where
  "aprint_success = ascii ''Success: aprint worked seamlessly across stdout and file streams!''"

definition aprint_main ::
  "engine_choice \<Rightarrow> string \<Rightarrow> pstr list \<Rightarrow> pstr list \<Rightarrow> (world \<times> pstr, unit) io" where
  "aprint_main e path line1 line2 =
     io_bind (on_snd (py_print [aprint_title] [32] [10])) (\<lambda>_.
     io_bind (on_snd (aprint stdout_stream True aprint_welcome [32] [10])) (\<lambda>_.
     io_bind (on_fst (aprint_example e path line1 line2)) (\<lambda>content.
     case content of
       Str t \<Rightarrow> on_snd (print_lines [aprint_heading, t, aprint_success])
     | Bytes b \<Rightarrow> io_raise (TypeError ''content is read in text mode''))))"

lemma translate_no_cr: "13 \<notin> set t \<Longrightarrow> translate_newlines t = t"
  by (induction t) auto

text \<open>Opening as text puts the same two objects under the text layer as opening as binary.\<close>

lemma py_open_text: "py_open e p ''r'' fd = py_open e p ''rb'' fd"
  by (rule ext) (simp add: py_open_def patched_open_path raw_mode_def is_binary_def open_kind_def io_defs
      need_def split: sum.split prod.split)

lemma w_open_text: "w_open e k p ''r'' = w_open e k p ''rb''"
  by (simp add: w_open_def py_open_text)

context raw_file
begin

lemma w_aprint:
  assumes "holds (app p c) BufRandom k w" and "utf8_encode (aprint_output objects sep en) = Inr b"
    and "length b < 2 ^ 32"
  shows "\<exists>w'. aprint (w_stream k) fl objects sep en w = (Inr (), w') \<and>
           holds (app p (c @ b)) BufRandom k w' \<and> keeps p k w w'"
proof -
  from w_awrite [OF assms(1,3)] obtain w1 where one:
    "at k (ob_awrite (Bytes b)) w = (Inr (int (length b)), w1)"
    "holds (app p (c @ b)) BufRandom k w1" "keeps p k w w1" by blast
  from w_aflush_app [OF one(2)] obtain w2 where two: "at k ob_aflush w1 = (Inr (), w2)"
    "holds (app p (c @ b)) BufRandom k w2" "keeps p k w1 w2" by blast
  have "aprint (w_stream k) fl objects sep en w = (Inr (), w2)"
    using one(1) two(1) assms(2)
    by (simp add: aprint_def w_stream_def call_flush_def ob_aflush_def io_defs Let_def)
  with two(2) keeps_trans [OF one(3) two(3)] show ?thesis by blast
qed

lemma aprint_example_law:
  assumes "utf8_encode (aprint_output line1 [32] [10]) = Inr b1" and "length b1 < 2 ^ 32"
    and "utf8_encode (aprint_output line2 [32] [10]) = Inr b2" and "length b2 < 2 ^ 32"
    and "13 \<notin> set (aprint_output line1 [32] [10] @ aprint_output line2 [32] [10])"
  shows "\<exists>w'. aprint_example e p line1 line2 w =
             (Inr (Str (aprint_output line1 [32] [10] @ aprint_output line2 [32] [10])), w') \<and>
           fst w' p = Some (b1 @ b2) \<and> (\<forall>q. q \<noteq> p \<longrightarrow> fst w' q = fst w q)"
proof -
  let ?t = "aprint_output line1 [32] [10] @ aprint_output line2 [32] [10]"
  from w_open_write [of 0 p w] obtain w1 where one: "w_open e 0 p ''w+b'' w = (Inr (), w1)"
    "holds (app p []) BufRandom 0 w1" "keeps p 0 w w1" by blast
  from w_aprint [OF one(2) assms(1,2)] obtain w2 where two:
    "aprint (w_stream 0) False line1 [32] [10] w1 = (Inr (), w2)"
    "holds (app p b1) BufRandom 0 w2" "keeps p 0 w1 w2" unfolding append_Nil by blast
  from w_aprint [OF two(2) assms(3,4)] obtain w3 where three:
    "aprint (w_stream 0) True line2 [32] [10] w2 = (Inr (), w3)"
    "holds (app p (b1 @ b2)) BufRandom 0 w3" "keeps p 0 w2 w3" by blast
  from w_close [OF holds_fin(1) [OF three(2)]] obtain w4 where four: "at 0 ob_close w3 = (Inr (), w4)"
    "fst w4 p = Some (b1 @ b2)" "keeps p 0 w3 w4" by blast
  from w_open_read [OF four(2), of 1] obtain w5 where five: "w_open e 1 p ''r'' w4 = (Inr (), w5)"
    "holds (rdp p (b1 @ b2) 0) BufReader 1 w5" "keeps p 1 w4 w5"
    unfolding w_open_text by blast
  from w_read_all [OF five(2)] obtain w6 where six: "at 1 (ob_read (-1)) w5 = (Inr (Bytes (b1 @ b2)), w6)"
    "holds (fin p (b1 @ b2)) BufReader 1 w6" "keeps p 1 w5 w6" by auto
  from w_close [OF six(2)] obtain w7 where seven: "at 1 ob_close w6 = (Inr (), w7)"
    "fst w7 p = Some (b1 @ b2)" "keeps p 1 w6 w7" by blast
  have "utf8_encode ?t = Inr (b1 @ b2)" using assms(1,3) by (simp add: utf8_encode_append)
  from decode_encode [OF this] have "text_of (Bytes (b1 @ b2)) = Inr (Str ?t)"
    using translate_no_cr [OF assms(5)] by (simp add: text_of_def)
  with six(1) have rd: "w_text_read 1 w5 = (Inr (Str ?t), w6)"
    by (simp add: w_text_read_def io_bind_apply io_return_def)
  have "fst w7 q = fst w q" if "q \<noteq> p" for q
    using keeps_file [OF one(3) that] keeps_file [OF two(3) that] keeps_file [OF three(3) that]
      keeps_file [OF four(3) that] keeps_file [OF five(3) that] keeps_file [OF six(3) that]
      keeps_file [OF seven(3) that] by simp
  with one(1) two(1) three(1) four(1) five(1) rd seven(1,2) show ?thesis
    by (simp add: aprint_example_def io_bind_apply io_return_def)
qed

end

lemma aprint_main_output:
  assumes "aprint_example e p line1 line2 w = (Inr (Str t), w')" and "list_all scalar t"
  shows "aprint_main e p line1 line2 (w, out) = (Inr (), (w', out @
     concat (map (\<lambda>l. l @ [10])
       [aprint_title, join [32] aprint_welcome, aprint_heading, t, aprint_success])))"
proof -
  have l: "list_all (list_all scalar) [aprint_title]" "list_all (list_all scalar) aprint_welcome"
    "list_all (list_all scalar) [aprint_heading, t, aprint_success]"
    using assms(2) by (simp_all add: aprint_title_def aprint_welcome_def aprint_heading_def
        aprint_success_def scalar_def surrogate_def)
  have s: "list_all scalar [32]" "list_all scalar [10]" by (simp_all add: scalar_def surrogate_def)
  show ?thesis
    using assms(1) print_text [OF l(1) s, of out] print_lines_text [OF l(3)]
      aprint_like_print [OF l(2) s, of True] print_text [OF l(2) s]
    by (simp add: aprint_main_def io_bind_apply aprint_output_def)
qed

text \<open>
  C17: on every engine, what two calls of \<open>aprint\<close> put into a file is read back as text by \<open>open\<close>
  after it is closed, whatever is printed that UTF-8 can encode and that contains no carriage
  return; the file holds the encoding of the lines.  The script prints the title, the welcome, and
  what was read, in this order.
\<close>

theorem aprint_file_roundtrip:
  assumes "utf8_encode (aprint_output line1 [32] [10]) = Inr b1" and "length b1 < 2 ^ 32"
    and "utf8_encode (aprint_output line2 [32] [10]) = Inr b2" and "length b2 < 2 ^ 32"
    and "13 \<notin> set (aprint_output line1 [32] [10] @ aprint_output line2 [32] [10])"
  shows "\<exists>w'. aprint_example e p line1 line2 (fs, H) =
             (Inr (Str (aprint_output line1 [32] [10] @ aprint_output line2 [32] [10])), w') \<and>
           aprint_main e p line1 line2 ((fs, H), out) = (Inr (), (w', out @
             concat (map (\<lambda>l. l @ [10])
               [aprint_title, join [32] aprint_welcome, aprint_heading,
                aprint_output line1 [32] [10] @ aprint_output line2 [32] [10], aprint_success]))) \<and>
           fst w' p = Some (b1 @ b2) \<and> (\<forall>q. q \<noteq> p \<longrightarrow> fst w' q = fs q)"
proof -
  let ?t = "aprint_output line1 [32] [10] @ aprint_output line2 [32] [10]"
  have "list_all scalar ?t" using assms(1,3) by (simp add: utf8_encode_def split: if_splits)
  note out = aprint_main_output [OF _ this]
  have "\<exists>w'. aprint_example e p line1 line2 (fs, H) = (Inr (Str ?t), w') \<and>
      fst w' p = Some (b1 @ b2) \<and> (\<forall>q. q \<noteq> p \<longrightarrow> fst w' q = fs q)"
  proof (rule engine_cases [where e = e], goal_cases)
    case (1 ring)
    show ?case using pool.aprint_example_law [OF assms, of ring p "(fs, H)"] unfolding fst_conv by blast
  next
    case (2 ring)
    show ?case using native.aprint_example_law [OF assms, of ring p "(fs, H)"] unfolding fst_conv by blast
  qed
  with out show ?thesis by blast
qed

theorem aprint_file_roundtrip_witness:
  "\<exists>w'. aprint_example \<lparr>en_native = True, en_ring = True\<rparr> ''f'' [[72], [105]] [[33]]
      (Map.empty, Map.empty) = (Inr (Str [72, 32, 105, 10, 33, 10]), w') \<and>
    fst w' ''f'' = Some [72, 32, 105, 10, 33, 10]"
proof -
  have "utf8_encode (aprint_output [[72], [105]] [32] [10]) = Inr [72, 32, 105, 10]"
    "utf8_encode (aprint_output [[33]] [32] [10]) = Inr [33, 10]"
    by (simp_all add: encode_ascii aprint_output_def)
  from aprint_file_roundtrip [OF this(1) _ this(2), of "\<lparr>en_native = True, en_ring = True\<rparr>" "''f''"
      Map.empty Map.empty "[]"]
  show ?thesis by (auto simp: aprint_output_def)
qed

end
