(* ===== verification/Example_Streams.thy ===== *)
theory Example_Streams
  imports Example_Files System_Patch
begin

text \<open>
  The examples on single streams: \<open>examples/02_patch_existing_streams.py\<close> (a file opened with
  \<open>io.FileIO\<close>, a \<open>StringIO\<close>), \<open>examples/03_socket_stream_makefile.py\<close>,
  \<open>examples/05_in_memory_async_bytes_io.py\<close> and \<open>examples/06_systemwide_io_patching.py\<close>.  Their
  strings and sizes are arguments; what the scripts print is in \<open>Script_Output\<close>.
\<close>

section \<open>Sync and async writes on io.FileIO\<close>

text \<open>
  \<open>io.FileIO(filename, "w+")\<close> after patching: the class \<open>DefaultFileIO\<close> itself.  It conforms to
  \<open>AsyncIOStream\<close>, so that \<open>ensure_async_stream\<close> returns it.
\<close>

definition patched_FileIO :: "engine_choice \<Rightarrow> string \<Rightarrow> string \<Rightarrow> (fs, opened) io" where
  "patched_FileIO e path mode =
     (if en_native e then native_file_new (\<lambda>_. ''object'') else fallback_file_new)
       (StrPath path) mode True None"

definition fileio_body :: "bytes \<Rightarrow> bytes \<Rightarrow> bytes \<Rightarrow> bytes \<Rightarrow> (rstate, pydata) io" where
  "fileio_body l1 l2 l3 l4 =
     io_bind (rw_write (Bytes l1)) (\<lambda>_.
     io_bind (rw_awrite (Bytes l2)) (\<lambda>_.
     io_bind (rw_write (Bytes l3)) (\<lambda>_.
     io_bind (rw_awrite (Bytes l4)) (\<lambda>_.
     io_bind (rw_seek 0 0) (\<lambda>_.
     io_bind (rw_aread (-1)) (\<lambda>content.
     io_bind rw_close (\<lambda>_. io_return content)))))))"

text \<open>
  A thread-pool stream opened without \<open>b\<close> wraps a text file of the standard library, which
  refuses bytes.
\<close>

definition fileio_example :: "engine_choice \<Rightarrow> string \<Rightarrow> bytes \<Rightarrow> bytes \<Rightarrow> bytes \<Rightarrow> bytes \<Rightarrow> (fs, pydata) io" where
  "fileio_example e path l1 l2 l3 l4 =
     io_bind (patched_FileIO e path ''w+'') (\<lambda>r fs.
       case raw_object (en_ring e) r of
         None \<Rightarrow> (Inl (TypeError ''write() argument must be str, not bytes''), fs)
       | Some ro \<Rightarrow> (case fileio_body l1 l2 l3 l4 (fs, ro) of (x, (fs', _)) \<Rightarrow> (x, fs')))"

section \<open>Memory streams\<close>

text \<open>\<open>BytesIO\<close>: what the first read returned, and \<open>getvalue()\<close> at the end.\<close>

definition bytesio_example :: "bytes \<Rightarrow> int \<Rightarrow> bytes \<Rightarrow> py_error + (pydata \<times> pydata)" where
  "bytesio_example initial n update = fst (
     io_bind (abytesio_aread n) (\<lambda>initial_bytes.
     io_bind (bytesio_seek 0 0) (\<lambda>_.
     io_bind (abytesio_awrite (Bytes update)) (\<lambda>_.
     io_bind (mem_getvalue Bytes) (\<lambda>value.
     io_bind mem_close (\<lambda>_. io_return (initial_bytes, value))))))
     (new_memfile initial))"

text \<open>\<open>StringIO\<close> with two async writes, and with a sync and an async one.\<close>

definition stringio_example :: "pstr \<Rightarrow> pstr \<Rightarrow> pstr \<Rightarrow> py_error + pydata" where
  "stringio_example header line1 line2 = fst (
     io_bind (astringio_awrite (Str line1)) (\<lambda>_.
     io_bind (astringio_awrite (Str line2)) (\<lambda>_.
     io_bind (stringio_seek 0 0) (\<lambda>_.
     io_bind (astringio_aread (-1)) (\<lambda>full_text.
     io_bind mem_close (\<lambda>_. io_return full_text)))))
     (new_memfile header))"

definition patched_stringio_example :: "pstr \<Rightarrow> pstr \<Rightarrow> pstr \<Rightarrow> py_error + pydata" where
  "patched_stringio_example header lineA lineB = fst (
     io_bind (stringio_write (Str lineA)) (\<lambda>_.
     io_bind (astringio_awrite (Str lineB)) (\<lambda>_.
     io_bind (stringio_seek 0 0) (\<lambda>_.
     io_bind (astringio_aread (-1)) (\<lambda>string_content.
     io_bind mem_close (\<lambda>_. io_return string_content)))))
     (new_memfile header))"

section \<open>A socket stream\<close>

text \<open>
  The server's handler reads up to 100 bytes, sends its response and closes; \<open>segs\<close> is how the
  network cuts the response.
\<close>

definition socket_response :: bytes where
  "socket_response = ascii_bytes
     (''HTTP/1.1 200 OK'' @ [CHR 0x0D, CHR 0x0A] @ ''Content-Length: 13'' @
      [CHR 0x0D, CHR 0x0A, CHR 0x0D, CHR 0x0A] @ ''Hello Socket!'')"

definition handle_client :: "bytes list \<Rightarrow> sock \<Rightarrow> sock" where
  "handle_client segs client =
     (if take 100 (sk_sent client) = [] then client
      else client\<lparr>sk_in := sk_in client @ segs, sk_eof := True\<rparr>)"

definition socket_example :: "bytes list \<Rightarrow> bytes \<Rightarrow> int \<Rightarrow> sock \<Rightarrow> py_error + pydata" where
  "socket_example segs request n client_sock = fst (
     io_bind (patched_socket_makefile (\<lambda>_ _. True) client_sock ''r+b'' (-1) None None None) (\<lambda>l.
       case l of
         RawLayer stream \<Rightarrow>
           io_bind (asocket_awrite (Bytes request)) (\<lambda>_.
           io_bind (\<lambda>s. (Inr (), handle_client segs s)) (\<lambda>_.
           io_bind (asocket_aread n) (\<lambda>response.
           io_bind asocket_close (\<lambda>_. io_return response))))
       | _ \<Rightarrow> io_raise (AttributeError ''buffered''))
     client_sock)"

section \<open>An opened text file\<close>

text \<open>\<open>f = open(path)\<close>, \<open>await f.aread(n)\<close>, \<open>f.close()\<close>; \<open>f\<close> is variable 0.\<close>

definition first_line_example :: "engine_choice \<Rightarrow> string \<Rightarrow> int \<Rightarrow> (world, pydata) io" where
  "first_line_example e path n =
     io_bind (w_open e 0 path ''r'') (\<lambda>_.
     io_bind (text_aread utf8_decode (\<lambda>k. at 0 (ob_read k)) (Some (\<lambda>k. at 0 (ob_aread k))) n) (\<lambda>first_line.
     io_bind (at 0 ob_close) (\<lambda>_. io_return first_line)))"

section \<open>Properties\<close>

lemma native_flags_wp:
  "native_flags ''w+'' = Some \<lparr>of_access = RdWr, of_append = False, of_creat = True,
     of_trunc = True, of_excl = False\<rparr>"
  by (simp add: native_flags_eq)

lemma py_flags_wp: "py_open_flags ''w+'' = native_flags ''w+''"
  unfolding native_flags_wp by (simp add: py_open_flags_def py_flags_def py_valid_def)

lemma open_FileIO:
  "patched_FileIO e p ''w+'' fs =
     (Inr (if en_native e then NativeStream p (file_mode_parse ''w+'')
           else FallbackStream (OrigOpen (StrPath p) ''w+'' None None)), fs(p \<mapsto> []))"
  by (auto simp: patched_FileIO_def native_file_new_def fallback_file_new_def fallback_init_def
      py_open_path_def py_flags_wp native_flags_wp os_open_def io_defs Let_def split: option.split)

definition fileio_desc :: "string \<Rightarrow> nat \<Rightarrow> native_file" where
  "fileio_desc p k = \<lparr>nf_open = True, nf_path = p, nf_mode = file_mode_parse ''w+'', nf_pos = k,
     nf_access = RdWr, nf_append = False\<rparr>"

lemma native_desc_wp: "native_desc p (file_mode_parse ''w+'') = fileio_desc p 0"
  by (simp add: fileio_desc_def native_desc_def native_flags_wp [unfolded native_flags_def] Let_def)

lemma fileio_steps:
  assumes "fs p = Some d"
  shows "rw_write (Bytes b) (fs, NativeObj ring (fileio_desc p k)) =
      (Inr (int (length b)), (if b = [] then fs else fs(p \<mapsto> overwrite 0 k b d),
         NativeObj ring (fileio_desc p (k + length b))))"
    and "length b < 2 ^ 32 \<Longrightarrow> rw_awrite (Bytes b) (fs, NativeObj True (fileio_desc p k)) =
      (Inr (int (length b)), (if b = [] then fs else fs(p \<mapsto> overwrite 0 k b d),
         NativeObj True (fileio_desc p (k + length b))))"
    and "rw_awrite (Bytes b) (fs, NativeObj False (fileio_desc p k)) =
      (Inr (int (length b)), (fs(p \<mapsto> d @ b), NativeObj False (fileio_desc p k)))"
    and "rw_seek 0 0 (fs, NativeObj ring (fileio_desc p k)) =
      (Inr 0, (fs, NativeObj ring (fileio_desc p 0)))"
    and "length d \<le> 65536 \<Longrightarrow> rw_aread (-1) (fs, NativeObj ring (fileio_desc p k)) =
      (Inr (Bytes d), (fs, NativeObj ring (fileio_desc p k)))"
  using assms
  by (auto simp: rw_simps rw_async_simps dispatch_def nf_write_def nf_awrite_def nf_aread_def
      nf_seek_def to_seek_from_def sys_seek_def nf_defs fileio_desc_def io_defs can_write_def
      can_read_def as_u32_id)

lemma fileio_close:
  "\<exists>r. rw_close (fs, NativeObj ring f) = (Inr (), (fs, r))"
  by (simp add: rw_simps dispatch_def nf_close_def)


lemma upd_overwrite:
  "fs p = Some d \<Longrightarrow> k \<le> length d \<Longrightarrow>
   (if b = [] then fs else fs(p \<mapsto> overwrite 0 k b d)) = fs(p \<mapsto> overwrite 0 k b d)"
  by (auto simp: overwrite_def fun_eq_iff)

lemma fileio_write:
  assumes "k \<le> length d"
  shows "rw_write (Bytes b) (fs(p \<mapsto> d), NativeObj ring (fileio_desc p k)) =
      (Inr (int (length b)), (fs(p \<mapsto> overwrite 0 k b d), NativeObj ring (fileio_desc p (k + length b))))"
    and "length b < 2 ^ 32 \<Longrightarrow> rw_awrite (Bytes b) (fs(p \<mapsto> d), NativeObj True (fileio_desc p k)) =
      (Inr (int (length b)), (fs(p \<mapsto> overwrite 0 k b d), NativeObj True (fileio_desc p (k + length b))))"
  using fileio_steps(1,2) [of "fs(p \<mapsto> d)" p d] upd_overwrite [of "fs(p \<mapsto> d)" p d k b] assms
  by simp_all

lemma fileio_first:
  "rw_write (Bytes l1) (fs(p \<mapsto> []), NativeObj ring (fileio_desc p 0)) =
   (Inr (int (length l1)), (fs(p \<mapsto> l1), NativeObj ring (fileio_desc p (length l1))))"
  using fileio_write(1) [of 0 "[]" l1 fs p] by (simp add: overwrite_def)

lemma fileio_body_ring:
  assumes "length (l1 @ l2 @ l3 @ l4) \<le> 65536"
  shows "fst (fileio_body l1 l2 l3 l4 (fs(p \<mapsto> []), NativeObj True (fileio_desc p 0))) =
     Inr (Bytes (l1 @ l2 @ l3 @ l4))"
proof -
  have small: "length l2 < 2 ^ 32" "length l4 < 2 ^ 32" using assms by simp_all
  have over: "overwrite 0 (length a) b a = a @ b" for a b :: bytes by simp
  obtain r where close: "\<And>f fs'. rw_close (fs', NativeObj True (f :: native_file)) = (Inr (), (fs', r f))"
    by (simp add: rw_simps dispatch_def nf_close_def)
  have two: "rw_awrite (Bytes l2) (fs(p \<mapsto> l1), NativeObj True (fileio_desc p (length l1))) =
      (Inr (int (length l2)), (fs(p \<mapsto> l1 @ l2), NativeObj True (fileio_desc p (length (l1 @ l2)))))"
    using fileio_write(2) [of "length l1" l1 l2 fs p] small by simp
  have three: "rw_write (Bytes l3) (fs(p \<mapsto> l1 @ l2), NativeObj True (fileio_desc p (length (l1 @ l2)))) =
      (Inr (int (length l3)),
       (fs(p \<mapsto> l1 @ l2 @ l3), NativeObj True (fileio_desc p (length (l1 @ l2 @ l3)))))"
    using fileio_write(1) [of "length (l1 @ l2)" "l1 @ l2" l3 fs p True]
    unfolding over by (simp add: add.assoc)
  have four: "rw_awrite (Bytes l4) (fs(p \<mapsto> l1 @ l2 @ l3), NativeObj True (fileio_desc p (length (l1 @ l2 @ l3)))) =
      (Inr (int (length l4)),
       (fs(p \<mapsto> l1 @ l2 @ l3 @ l4), NativeObj True (fileio_desc p (length (l1 @ l2 @ l3 @ l4)))))"
    using fileio_write(2) [of "length (l1 @ l2 @ l3)" "l1 @ l2 @ l3" l4 fs p] small
    unfolding over by (simp add: add.assoc)
  note rest = fileio_steps(4,5) [of "fs(p \<mapsto> l1 @ l2 @ l3 @ l4)" p "l1 @ l2 @ l3 @ l4"]
  from two three four rest assms close show ?thesis
    by (simp add: fileio_body_def io_bind_apply io_return_def fileio_first)
qed

lemma fileio_body_no_ring:
  assumes "length (l1 @ l2 @ l3 @ l4) \<le> 65536"
  shows "fst (fileio_body l1 l2 l3 l4 (fs(p \<mapsto> []), NativeObj False (fileio_desc p 0))) =
     Inr (Bytes (l1 @ l3 @ drop (length l3) l2 @ l4))"
proof -
  let ?d = "l1 @ l3 @ drop (length l3) l2"
  have over: "overwrite 0 (length l1) l3 (l1 @ l2) = ?d" by (simp add: overwrite_def)
  obtain r where close: "\<And>f fs'. rw_close (fs', NativeObj False (f :: native_file)) = (Inr (), (fs', r f))"
    by (simp add: rw_simps dispatch_def nf_close_def)
  have two: "rw_awrite (Bytes l2) (fs(p \<mapsto> l1), NativeObj False (fileio_desc p (length l1))) =
      (Inr (int (length l2)), (fs(p \<mapsto> l1 @ l2), NativeObj False (fileio_desc p (length l1))))"
    using fileio_steps(3) [of "fs(p \<mapsto> l1)" p l1 l2] by simp
  have three: "rw_write (Bytes l3) (fs(p \<mapsto> l1 @ l2), NativeObj False (fileio_desc p (length l1))) =
      (Inr (int (length l3)), (fs(p \<mapsto> ?d), NativeObj False (fileio_desc p (length l1 + length l3))))"
    using fileio_write(1) [of "length l1" "l1 @ l2" l3 fs p False] unfolding over by simp
  have four: "rw_awrite (Bytes l4) (fs(p \<mapsto> ?d), NativeObj False (fileio_desc p (length l1 + length l3))) =
      (Inr (int (length l4)),
       (fs(p \<mapsto> ?d @ l4), NativeObj False (fileio_desc p (length l1 + length l3))))"
    using fileio_steps(3) [of "fs(p \<mapsto> ?d)" p ?d l4] by simp
  note rest = fileio_steps(4,5) [of "fs(p \<mapsto> ?d @ l4)" p "?d @ l4"]
  from two three four rest assms close show ?thesis
    by (simp add: fileio_body_def io_bind_apply io_return_def fileio_first)
qed

text \<open>
  C24: the file part of example 02 does what its comment says (successive sync and async writes)
  only on a ring.  There the four lines are read back in order.  On the native engine without a
  ring the third line, written at the position, overwrites the second, which \<open>awrite\<close> appended; on
  the thread-pool engine \<open>io.FileIO(filename, "w+")\<close> is a text file and the first write raises
  \<open>TypeError\<close>.
\<close>

theorem fileio_example_engines:
  assumes "length (l1 @ l2 @ l3 @ l4) \<le> 65536"
  shows "fst (fileio_example e p l1 l2 l3 l4 fs) =
     (if \<not> en_native e then Inl (TypeError ''write() argument must be str, not bytes'')
      else if en_ring e then Inr (Bytes (l1 @ l2 @ l3 @ l4))
      else Inr (Bytes (l1 @ l3 @ drop (length l3) l2 @ l4)))"
proof (cases "en_native e")
  case False
  then show ?thesis
    by (simp add: fileio_example_def io_bind_apply open_FileIO is_binary_def py_flags_wp native_flags_wp)
next
  case True
  then have "fst (fileio_example e p l1 l2 l3 l4 fs) =
      fst (fileio_body l1 l2 l3 l4 (fs(p \<mapsto> []), NativeObj (en_ring e) (fileio_desc p 0)))"
    by (simp add: fileio_example_def io_bind_apply open_FileIO native_desc_wp split: prod.split)
  with True fileio_body_ring [OF assms] fileio_body_no_ring [OF assms] show ?thesis
    by (cases "en_ring e") simp_all
qed

theorem fileio_example_engines_witness:
  "fst (fileio_example \<lparr>en_native = True, en_ring = False\<rparr> ''f''
      (ascii_bytes ''Line 1: Synchronous write.'') (ascii_bytes ''Line 2: Asynchronous write via ring.'')
      (ascii_bytes ''Line 3: Successive sync write.'') (ascii_bytes ''Line 4: Successive async write.'')
      Map.empty) =
   Inr (Bytes (ascii_bytes
     ''Line 1: Synchronous write.Line 3: Successive sync write. ring.Line 4: Successive async write.''))"
proof -
  let ?l1 = "ascii_bytes ''Line 1: Synchronous write.''"
  let ?l2 = "ascii_bytes ''Line 2: Asynchronous write via ring.''"
  let ?l3 = "ascii_bytes ''Line 3: Successive sync write.''"
  let ?l4 = "ascii_bytes ''Line 4: Successive async write.''"
  have "length (?l1 @ ?l2 @ ?l3 @ ?l4) \<le> 65536" by (simp add: ascii_bytes_def)
  from fileio_example_engines [OF this, of "\<lparr>en_native = True, en_ring = False\<rparr>" "''f''" Map.empty]
  show ?thesis by (simp add: ascii_bytes_def)
qed

text \<open>
  Writing to a \<open>BytesIO\<close> or \<open>StringIO\<close> that was made with initial contents overwrites them: the
  first read of example 05 returns the first bytes, the update then replaces the beginning, and the
  two lines of examples 02 and 05 replace as much of the header, whether they are written sync or
  async; what is longer remains at the end.
\<close>

lemma memory_examples_overwrite:
  "bytesio_example initial 14 update =
     Inr (Bytes (take 14 initial), Bytes (update @ drop (length update) initial)) \<and>
   stringio_example header line1 line2 =
     Inr (Str (line1 @ line2 @ drop (length (line1 @ line2)) header)) \<and>
   patched_stringio_example header line1 line2 = stringio_example header line1 line2"
proof -
  have strs: "stringio_example header line1 line2 =
      Inr (Str (line1 @ line2 @ drop (length (line1 @ line2)) header))"
    by (auto simp: stringio_example_def mem_defs new_memfile_def io_defs overwrite_def Let_def add.commute)
  have "patched_stringio_example header line1 line2 = stringio_example header line1 line2"
    by (simp add: patched_stringio_example_def stringio_example_def astringio_awrite_def)
  moreover have "bytesio_example initial 14 update =
      Inr (Bytes (take 14 initial), Bytes (update @ drop (length update) initial))"
    by (auto simp: bytesio_example_def mem_defs new_memfile_def io_defs overwrite_def Let_def)
  ultimately show ?thesis using strs by blast
qed


text \<open>The request has been sent when the handler answers; what is read then is the first segment.\<close>

lemma socket_steps:
  assumes "concat segs = socket_response" and "[] \<notin> set segs"
    and "sk_fd client \<noteq> -1" and "sk_in client = []" and "sk_sent client = []" and "request \<noteq> []"
  shows "\<exists>c1 c2 k. asocket_awrite (Bytes request) client = (Inr k, c1) \<and>
     asocket_aread 256 (handle_client segs c1) = (Inr (Bytes (hd segs)), c2)"
    and "segs \<noteq> []"
proof -
  have len: "length socket_response = 52" by (simp add: socket_response_def ascii_bytes_def)
  then have "socket_response \<noteq> []" by auto
  then have "segs \<noteq> []" using assms(1) by (metis concat.simps(1))
  then obtain seg rest where segs: "segs = seg # rest" by (cases segs) auto
  have "length seg \<le> 52" using assms(1) len segs by (metis concat.simps(2) le_add1 length_append)
  then have short: "take 256 seg = seg" by simp
  obtain c1 k where sent: "asocket_awrite (Bytes request) client = (Inr k, c1)"
    "sk_fd c1 = sk_fd client" "sk_in c1 = []" "sk_sent c1 \<noteq> []"
    using assms(3-6) by (cases "sk_room client") (auto simp: sock_defs)
  have "handle_client segs c1 = c1\<lparr>sk_in := segs, sk_eof := True\<rparr>"
    using sent(3,4) by (simp add: handle_client_def)
  moreover have "\<exists>c2. asocket_aread 256 (c1\<lparr>sk_in := segs, sk_eof := True\<rparr>) = (Inr (Bytes seg), c2)"
    using sent(2) assms(3) short by (simp add: sock_defs segs)
  ultimately show "\<exists>c1 c2 k. asocket_awrite (Bytes request) client = (Inr k, c1) \<and>
     asocket_aread 256 (handle_client segs c1) = (Inr (Bytes (hd segs)), c2)" using sent(1) segs by auto
  show "segs \<noteq> []" by (simp add: segs)
qed

text \<open>
  Example 03 prints only the first segment of the response that arrives.  \<open>makefile("r+b")\<close> gives
  the raw stream, whose \<open>aread(256)\<close> is one \<open>recv\<close>; the whole response of 52 bytes is read exactly
  if it is not cut on the way.
\<close>

lemma socket_example_first_segment:
  assumes "concat segs = socket_response" and "[] \<notin> set segs"
    and "sk_fd client \<noteq> -1" and "sk_in client = []" and "sk_sent client = []" and "request \<noteq> []"
  shows "socket_example segs request 256 client = Inr (Bytes (hd segs)) \<and>
     (hd segs = socket_response \<longleftrightarrow> segs = [socket_response])"
proof -
  from socket_steps(1) [OF assms] have "socket_example segs request 256 client = Inr (Bytes (hd segs))"
    by (auto simp: socket_example_def patched_socket_makefile_def is_binary_def io_defs
        asocket_close_def sock_close_def)
  moreover from socket_steps(2) [OF assms] obtain seg rest where segs: "segs = seg # rest"
    by (cases segs) auto
  have "seg = socket_response \<longleftrightarrow> segs = [socket_response]"
  proof
    assume "seg = socket_response"
    then have "concat rest = []" using assms(1) segs by simp
    then have "rest = []" using assms(2) segs by (cases rest) auto
    with segs \<open>seg = socket_response\<close> show "segs = [socket_response]" by simp
  qed (simp add: segs)
  ultimately show ?thesis by (simp add: segs)
qed

context raw_file
begin

lemma first_line_law:
  assumes "fst w p = Some c" and "0 \<le> n" and "n < 2 ^ 32"
    and "utf8_decode (take (nat n) c) = Inr t"
  shows "\<exists>w'. first_line_example e p n w = (Inr (Str t), w') \<and> fst w' p = Some c \<and>
     (\<forall>q. q \<noteq> p \<longrightarrow> fst w' q = fst w q)"
proof -
  from w_open_read [OF assms(1), of 0] obtain w1 where one: "w_open e 0 p ''r'' w = (Inr (), w1)"
    "holds (rdp p c 0) BufReader 0 w1" "keeps p 0 w w1" unfolding w_open_text by blast
  from w_aread [OF one(2) _ assms(2,3)] obtain w2 where two:
    "at 0 (ob_aread n) w1 = (Inr (Bytes (take (nat n) c)), w2)"
    "holds (\<lambda>s. \<exists>j'. rdp p c j' s \<and> (j' = 0 \<or> j' = 0 + length (take (nat n) c))) BufReader 0 w2"
    "keeps p 0 w1 w2" by auto
  have "holds (fin p c) BufReader 0 w2" by (rule holds_mono [OF two(2)]) (blast intro: rdp_fin)
  from w_close [OF this] obtain w3 where three: "at 0 ob_close w2 = (Inr (), w3)"
    "fst w3 p = Some c" "keeps p 0 w2 w3" by blast
  have "keeps p 0 w w3" using one(3) two(3) three(3) by (blast intro: keeps_trans)
  then have "\<forall>q. q \<noteq> p \<longrightarrow> fst w3 q = fst w q" by (blast intro: keeps_file)
  with one(1) two(1) three(1,2) assms(4) show ?thesis
    by (simp add: first_line_example_def text_aread_def io_bind_apply io_return_def)
qed

end

text \<open>
  Example 06: on every engine the file opened as text gives its first bytes as text, where they end
  at a character boundary.
\<close>

lemma first_line_example_reads:
  assumes "fs p = Some c" and "0 \<le> n" and "n < 2 ^ 32" and "utf8_decode (take (nat n) c) = Inr t"
  shows "\<exists>w'. first_line_example e p n (fs, H) = (Inr (Str t), w') \<and> fst w' = fs"
proof (rule engine_cases [where e = e], goal_cases)
  case (1 ring)
  from pool.first_line_law [of "(fs, H)" p c n t ring] assms obtain w' where
    "first_line_example \<lparr>en_native = False, en_ring = ring\<rparr> p n (fs, H) = (Inr (Str t), w')"
    "fst w' p = Some c" "\<forall>q. q \<noteq> p \<longrightarrow> fst w' q = fs q" by auto
  moreover then have "fst w' q = fs q" for q using assms(1) by (cases "q = p") auto
  ultimately show ?case by blast
next
  case (2 ring)
  from native.first_line_law [of "(fs, H)" p c n t ring] assms obtain w' where
    "first_line_example \<lparr>en_native = True, en_ring = ring\<rparr> p n (fs, H) = (Inr (Str t), w')"
    "fst w' p = Some c" "\<forall>q. q \<noteq> p \<longrightarrow> fst w' q = fs q" by auto
  moreover then have "fst w' q = fs q" for q using assms(1) by (cases "q = p") auto
  ultimately show ?case by blast
qed

end
