(* ===== verification/Package_Init.thy ===== *)
theory Package_Init
  imports System_Patch
begin

text \<open>
  \<open>py_native_io/__init__.py\<close> and \<open>sitecustomize.py\<close>: what importing the package binds and exports,
  and that it patches the interpreter on the first import, whoever does it.  The debug log line is
  left out.
\<close>

section \<open>Names\<close>

text \<open>The \<open>from ... import\<close> statements of \<open>__init__.py\<close>, in order.\<close>

definition package_imports :: "(string \<times> string list) list" where
  "package_imports =
     [(''base'', [''AsyncIOBase'', ''AsyncIOBaseMeta'', ''AsyncIOStream'']),
      (''buffered'', [''AsyncBufferedRandom'', ''AsyncBufferedReader'', ''AsyncBufferedWriter'',
                      ''AsyncTextIOWrapper'']),
      (''file'', [''DefaultFileIO'', ''FallbackFileIO'', ''LinuxURingFileIO'', ''MacOSKQueueFileIO'',
                  ''NativeFileIO'', ''WindowsIoRingFileIO'', ''_ext'', ''engine_info'']),
      (''memory'', [''AsyncBytesIO'', ''AsyncStringIO'']),
      (''patch'', [''AsyncStreamAdapter'', ''ensure_async_stream'', ''patch_python_io'', ''patch_stream'',
                   ''patched_open'', ''patched_socket_makefile'', ''wrap_stream'']),
      (''print'', [''aprint'', ''get_async_stderr'', ''get_async_stdout'']),
      (''socket'', [''AsyncSocketIO''])]"

definition dunder_all :: "string list" where
  "dunder_all =
     [''AsyncBufferedRandom'', ''AsyncBufferedReader'', ''AsyncBufferedWriter'', ''AsyncBytesIO'',
      ''AsyncIOBase'', ''AsyncIOBaseMeta'', ''AsyncIOStream'', ''AsyncSocketIO'', ''AsyncStringIO'',
      ''AsyncStreamAdapter'', ''AsyncTextIOWrapper'', ''DefaultFileIO'', ''FallbackFileIO'',
      ''LinuxURingFileIO'', ''MacOSKQueueFileIO'', ''NativeFileIO'', ''WindowsIoRingFileIO'', ''_ext'',
      ''aprint'', ''ensure_async_stream'', ''get_async_stderr'', ''get_async_stdout'',
      ''patch_python_io'', ''patch_stream'', ''patched_open'', ''patched_socket_makefile'',
      ''wrap_stream'']"

lemma exports_bound:
  "set dunder_all \<union> {''engine_info''} = set (concat (map snd package_imports)) \<and>
   distinct (concat (map snd package_imports)) \<and> distinct dunder_all"
  by (simp add: dunder_all_def package_imports_def insert_commute)

section \<open>The import\<close>

text \<open>
  The interpreter: whether the package is loaded, and the names that patching rebinds.  \<open>ext\<close> is what
  the extension's \<open>is_kernel_ring_supported()\<close> says, if it is there.
\<close>

record interp =
  it_loaded :: bool
  it_env :: py_env

text \<open>The body of the package runs on the first import; \<open>None\<close> stands for \<open>ImportError\<close>.\<close>

definition import_package :: "bool \<Rightarrow> bool option \<Rightarrow> string \<Rightarrow> interp \<Rightarrow> interp option" where
  "import_package installed ext platform s =
     (if it_loaded s then Some s
      else if installed then
        Some \<lparr>it_loaded = True, it_env = patch_python_io (fst (default_file_io ext platform)) (it_env s)\<rparr>
      else None)"

text \<open>\<open>sitecustomize.py\<close>, which the interpreter runs at its start.\<close>

definition sitecustomize :: "bool \<Rightarrow> bool option \<Rightarrow> string \<Rightarrow> interp \<Rightarrow> interp" where
  "sitecustomize installed ext platform s =
     (case import_package installed ext platform s of
        Some s' \<Rightarrow> s'\<lparr>it_env := patch_python_io (fst (default_file_io ext platform)) (it_env s')\<rparr>
      | None \<Rightarrow> s)"

text \<open>What may follow, any number of times: \<open>import py_native_io\<close>, or the two lines of \<open>sitecustomize\<close>.\<close>

datatype start_event = ImportStmt | SiteCustomize

fun start_step :: "bool \<Rightarrow> bool option \<Rightarrow> string \<Rightarrow> start_event \<Rightarrow> interp \<Rightarrow> interp" where
  "start_step installed ext platform ImportStmt s =
     (case import_package installed ext platform s of Some s' \<Rightarrow> s' | None \<Rightarrow> s)"
| "start_step installed ext platform SiteCustomize s = sitecustomize installed ext platform s"

lemma patch_twice: "patch_python_io d (patch_python_io d e) = patch_python_io d e"
  by (rule patch_again [OF patch_has_orig])

definition started :: "bool option \<Rightarrow> string \<Rightarrow> py_env \<Rightarrow> interp" where
  "started ext platform e =
     \<lparr>it_loaded = True, it_env = patch_python_io (fst (default_file_io ext platform)) e\<rparr>"

lemma start_step_first:
  "start_step True ext platform ev \<lparr>it_loaded = False, it_env = e\<rparr> = started ext platform e"
  by (cases ev) (simp_all add: import_package_def sitecustomize_def started_def patch_twice)

lemma start_step_again:
  "start_step True ext platform ev (started ext platform e) = started ext platform e"
  by (cases ev) (simp_all add: import_package_def sitecustomize_def started_def patch_twice)

lemma start_steps_again:
  "fold (start_step True ext platform) evs (started ext platform e) = started ext platform e"
  by (induction evs) (simp_all add: start_step_again)

lemma start_steps_missing:
  "fold (start_step False ext platform) evs \<lparr>it_loaded = False, it_env = e\<rparr> =
   \<lparr>it_loaded = False, it_env = e\<rparr>"
proof (induction evs)
  case (Cons ev evs)
  have "start_step False ext platform ev \<lparr>it_loaded = False, it_env = e\<rparr> = \<lparr>it_loaded = False, it_env = e\<rparr>"
    by (cases ev) (simp_all add: import_package_def sitecustomize_def)
  with Cons show ?case by simp
qed simp

text \<open>
  C22: whatever mix of \<open>import py_native_io\<close> and \<open>sitecustomize\<close> an interpreter runs, the package is
  loaded once and its names are patched once, with the class that \<open>file.py\<close> chose, from the first of
  them on; where the package is not installed nothing is changed and the interpreter starts.
\<close>

theorem package_import_patches_once:
  "fold (start_step installed ext platform) evs \<lparr>it_loaded = False, it_env = e\<rparr> =
     (if installed \<and> evs \<noteq> []
      then \<lparr>it_loaded = True, it_env = patch_python_io (fst (default_file_io ext platform)) e\<rparr>
      else \<lparr>it_loaded = False, it_env = e\<rparr>)"
proof (cases installed)
  case True
  then show ?thesis
    by (cases evs) (simp_all add: start_step_first start_steps_again flip: started_def)
next
  case False
  then show ?thesis by (simp add: start_steps_missing)
qed

section \<open>Example 06\<close>

text \<open>The checks that the example prints, and the result on an interpreter that imports the package.\<close>

definition patch_checks :: "cname \<Rightarrow> py_env \<Rightarrow> bool list" where
  "patch_checks default_cls e =
     [builtins_open e = PatchedOpen, io_open e = PatchedOpen, io_names e N_FileIO = Some default_cls,
      io_names e N_BytesIO = Some AsyncBytesIO, io_names e N_StringIO = Some AsyncStringIO]"

lemma patch_checks_after_import:
  "builtins_orig_open e = None \<Longrightarrow> patch_checks d (patch_python_io d e) = replicate 5 True"
  by (simp add: patch_checks_def patch_python_io_def Let_def numeral_eq_Suc split: option.split)

end
