(* ===== verification/Platform_Engines.thy ===== *)
theory Platform_Engines
  imports Native_File Ring_Config
begin

text \<open>
  The branches of \<open>src/file_io.rs\<close> and \<open>src/engines\<close> for other platforms than Linux: the probe and
  the two operations of \<open>windows.rs\<close>, the stub of \<open>macos.rs\<close>, and how \<open>aread\<close>, \<open>awrite\<close>, the batches and
  \<open>asplice\<close> of \<open>NativeFileIO\<close> choose between them.  \<open>Native_File\<close> is the Linux case, and the two
  developments are shown to agree there.
\<close>

section \<open>The Windows engine\<close>

text \<open>
  What the probe finds: whether \<open>kernel32.dll\<close> is loaded, the two entry points, and for the first the
  code and the handle that creating a ring gives (\<open>None\<close> for the null pointer).
\<close>

record windows_host =
  wh_kernel32 :: bool
  wh_create_io_ring :: "(int \<times> nat option) option"
  wh_close_io_ring :: bool

definition is_windows_ioring_supported :: "windows_host \<Rightarrow> bool" where
  "is_windows_ioring_supported h =
     (if \<not> wh_kernel32 h then False
      else (case wh_create_io_ring h of
          Some (hr, handle) \<Rightarrow> wh_close_io_ring h \<and> hr = 0 \<and> handle \<noteq> None
        | None \<Rightarrow> False))"

text \<open>Despite their names the two operations are a read and a write at the position of the handle.\<close>

definition submit_ioring_read :: "nat \<Rightarrow> (nstate, bytes) io" where
  "submit_ioring_read n = sys_read n"

definition submit_ioring_write :: "bytes \<Rightarrow> (nstate, nat) io" where
  "submit_ioring_write b = io_bind (sys_write b) (\<lambda>_. io_return (length b))"

section \<open>The choice of the platform\<close>

text \<open>\<open>UnixOS\<close> stands for the systems listed in \<open>engines/mod.rs\<close>, from macOS to Android.\<close>

datatype target_os = LinuxOS | WindowsOS | UnixOS | OtherOS

definition is_macos_kqueue_supported :: bool where
  "is_macos_kqueue_supported = True"

definition platform_supported :: "target_os \<Rightarrow> host \<Rightarrow> windows_host \<Rightarrow> bool" where
  "platform_supported os h wh =
     (if h_force_legacy h \<noteq> None then False
      else (case os of
          LinuxOS \<Rightarrow> is_linux_uring_secure_and_supported h
        | WindowsOS \<Rightarrow> is_windows_ioring_supported wh
        | UnixOS \<Rightarrow> True
        | OtherOS \<Rightarrow> False))"

text \<open>On Windows the engine's operation is tried first, then the path is reopened.\<close>

definition platform_aread :: "target_os \<Rightarrow> bool \<Rightarrow> int \<Rightarrow> (nstate, pydata) io" where
  "platform_aread os ring sz = nf_guard
     (let read_size = (if sz < 0 then 65536 else nat sz);
          reopen = reopen_read (\<lambda>d. if sz < 0 then d else take (nat sz) d) in
      io_bind
        (case os of
           LinuxOS \<Rightarrow> try_ring ring (sys_pread 0 (as_u32 read_size)) reopen
         | WindowsOS \<Rightarrow> io_catch (\<lambda>_. True) (submit_ioring_read read_size) reopen
         | _ \<Rightarrow> reopen)
        (\<lambda>b. io_return (Bytes b)))"

definition platform_awrite :: "target_os \<Rightarrow> bool \<Rightarrow> pydata \<Rightarrow> (nstate, int) io" where
  "platform_awrite os ring d =
     (case to_bytes ''expected bytes-like object or str'' d of
        Inl e \<Rightarrow> io_raise e
      | Inr b \<Rightarrow> nf_guard
          (let append = io_bind (reopen_append b) (\<lambda>_. io_return (length b)) in
           io_bind
             (case os of
                LinuxOS \<Rightarrow> try_ring ring (sys_write (take (as_u32 (length b)) b)) append
              | WindowsOS \<Rightarrow> io_catch (\<lambda>_. True) (submit_ioring_write b) append
              | _ \<Rightarrow> append)
             (\<lambda>n. io_return (int n))))"

text \<open>The batches have no Windows branch.\<close>

definition platform_aread_batch ::
  "target_os \<Rightarrow> bool \<Rightarrow> read_spec list \<Rightarrow> (nstate, pydata list) io" where
  "platform_aread_batch os ring specs = nf_aread_batch (os = LinuxOS \<and> ring) specs"

definition platform_awrite_batch ::
  "target_os \<Rightarrow> bool \<Rightarrow> pydata list \<Rightarrow> (nstate, int list) io" where
  "platform_awrite_batch os ring chunks = nf_awrite_batch (os = LinuxOS \<and> ring) chunks"

text \<open>
  The fallback of \<open>asplice\<close> reads a chunk on every platform, but the code that writes it to the target is
  compiled on Linux only.
\<close>

definition platform_asplice ::
  "target_os \<Rightarrow> (bytes \<Rightarrow> ('t, nat) io) option \<Rightarrow> (bytes \<Rightarrow> ('t, unit) io) \<Rightarrow> nat option
     \<Rightarrow> (nstate \<times> 't, nat) io" where
  "platform_asplice os ring_splice target_write sz =
     (case os of
        LinuxOS \<Rightarrow> nf_asplice ring_splice target_write sz
      | _ \<Rightarrow> (\<lambda>((fs, f), t).
          case fs (nf_path f) of
            None \<Rightarrow> (Inl (OSError ''No such file or directory''), ((fs, f), t))
          | Some d \<Rightarrow> (Inr (length (take (case sz of Some n \<Rightarrow> n | None \<Rightarrow> 65536) d)), ((fs, f), t))))"

definition platform_fileno :: "target_os \<Rightarrow> int \<Rightarrow> (nstate, int) io" where
  "platform_fileno os handle = nf_guard
     (case os of
        OtherOS \<Rightarrow> io_raise (OSError ''fileno not supported on this platform'')
      | _ \<Rightarrow> io_return handle)"

section \<open>Properties\<close>

text \<open>On Linux these are the methods of \<open>Native_File\<close>.\<close>

lemma platform_linux:
  "platform_supported LinuxOS h wh = is_kernel_ring_supported h"
  "platform_aread LinuxOS ring sz = nf_aread ring sz"
  "platform_awrite LinuxOS ring d = nf_awrite ring d"
  "platform_aread_batch LinuxOS ring specs = nf_aread_batch ring specs"
  "platform_awrite_batch LinuxOS ring ds = nf_awrite_batch ring ds"
  "platform_asplice LinuxOS rs tw sz' = nf_asplice rs tw sz'"
proof -
  have "io_bind (try_ring ring m (io_bind a (\<lambda>_. io_return (length b)))) (\<lambda>n. io_return (int n)) =
      try_ring ring (io_bind m (\<lambda>n. io_return (int n))) (io_bind a (\<lambda>_. io_return (int (length b))))"
    for m :: "(nstate, nat) io" and a :: "(nstate, unit) io" and b :: bytes
    by (rule ext) (auto simp: try_ring_def io_catch_def io_defs split: prod.splits sum.splits)
  then show "platform_awrite LinuxOS ring d = nf_awrite ring d"
    by (simp add: platform_awrite_def nf_awrite_def Let_def split: sum.split)
qed (simp_all add: platform_supported_def is_kernel_ring_supported_def platform_aread_def nf_aread_def
    platform_aread_batch_def platform_awrite_batch_def platform_asplice_def Let_def)

text \<open>
  C34: what \<open>aread(n)\<close> on a native stream returns depends on the platform.  On Windows it reads at the
  position and moves it, as a file should; on Linux and the other systems it returns the first \<open>n\<close>
  bytes of the file each time.
\<close>

theorem aread_by_platform:
  assumes "nf_open f" and "can_read f" and "fs (nf_path f) = Some d" and "0 \<le> n" and "n < 2 ^ 32"
  shows "platform_aread os ring n (fs, f) =
     (if os = WindowsOS
      then (Inr (Bytes (take (nat n) (drop (nf_pos f) d))),
            (fs, f\<lparr>nf_pos := nf_pos f + length (take (nat n) (drop (nf_pos f) d))\<rparr>))
      else (Inr (Bytes (take (nat n) d)), (fs, f)))"
proof -
  have "as_u32 (nat n) = nat n" using assms(4,5) by (intro as_u32_id) (simp add: nat_less_iff)
  with assms show ?thesis
    by (cases os) (simp_all add: platform_aread_def submit_ioring_read_def io_catch_def nf_defs io_defs)
qed

theorem aread_by_platform_witness:
  "fst (platform_aread WindowsOS False 2 ([''f'' \<mapsto> [1, 2, 3]], demo_native RdOnly 1)) = Inr (Bytes [2, 3]) \<and>
   fst (platform_aread UnixOS False 2 ([''f'' \<mapsto> [1, 2, 3]], demo_native RdOnly 1)) = Inr (Bytes [1, 2])"
  using aread_by_platform [of "demo_native RdOnly 1" "[''f'' \<mapsto> [1, 2, 3]]" "[1, 2, 3]" 2 WindowsOS False]
    aread_by_platform [of "demo_native RdOnly 1" "[''f'' \<mapsto> [1, 2, 3]]" "[1, 2, 3]" 2 UnixOS False]
  by (simp add: demo_native_def can_read_def numeral_2_eq_2)



end
