(* ===== verification/Extension_Module.thy ===== *)
theory Extension_Module
  imports File_Streams
begin

text \<open>
  The compiled extension \<open>_ext\<close> (\<open>src/lib.rs\<close>: its names; the class \<open>NativeFileIO\<close> with the members
  of \<open>src/file_io.rs\<close>) and the classes that \<open>py_native_io/file.py\<close> makes of it, or of its absence:
  the dummy, \<open>FallbackFileIO\<close> and the three platform classes.
\<close>

section \<open>The extension\<close>

text \<open>The names that the module initialiser adds.\<close>

definition ext_names :: "string list" where
  "ext_names = [''is_kernel_ring_supported'', ''NativeFileIO'']"

definition nativefileio_body :: namespace where
  "nativefileio_body = body NativeFileIO
     [M_other ''__new__'', M_read, M_readinto, M_write, M_aread, M_awrite, M_aread_batch, M_awrite_batch,
      M_close, M_aclose, M_closed, M_seek, M_tell, M_fileno, M_readable, M_writable, M_seekable,
      M_flush, M_aflush, M_asplice, M_other ''__enter__'', M_other ''__exit__'']"

text \<open>A class of the extension is an ordinary subclass of \<open>object\<close>.\<close>

definition ext_classes :: "classes \<Rightarrow> classes" where
  "ext_classes = class_stmt False NativeFileIO [PyObject] nativefileio_body"

section \<open>The classes of file.py\<close>

text \<open>\<open>names\<close>: what \<open>_ext\<close> has, if it can be imported.\<close>

definition has_native :: "string list option \<Rightarrow> bool" where
  "has_native names = (case names of Some ns \<Rightarrow> ''NativeFileIO'' \<in> set ns | None \<Rightarrow> False)"

definition bind_native :: "string list option \<Rightarrow> classes \<Rightarrow> cname \<times> classes" where
  "bind_native names cs =
     (if has_native names then (NativeFileIO, ext_classes cs)
      else (DummyNativeFileIO, class_stmt True DummyNativeFileIO [AsyncIOBase] dummynativefileio_body cs))"

text \<open>The dummy's constructor.\<close>

definition dummy_init :: "file_arg \<Rightarrow> string \<Rightarrow> ('s, 'r) io" where
  "dummy_init file mode = io_raise (NotImplementedError ''Native C-extension engine not compiled.'')"

text \<open>
  The platform classes add nothing; their metaclass is that of the class they are derived from,
  which is \<open>AsyncIOBaseMeta\<close> (\<open>meta\<close>) for the dummy.
\<close>

definition engine_classes :: "bool \<Rightarrow> cname \<Rightarrow> classes \<Rightarrow> classes" where
  "engine_classes meta base =
     class_stmt meta MacOSKQueueFileIO [base] []
   \<circ> class_stmt meta WindowsIoRingFileIO [base] []
   \<circ> class_stmt meta LinuxURingFileIO [base] []"

definition file_classes :: "string list option \<Rightarrow> classes \<Rightarrow> classes" where
  "file_classes names cs =
     (case bind_native names cs of
        (base, cs1) \<Rightarrow>
          engine_classes (base = DummyNativeFileIO) base
            (class_stmt True FallbackFileIO [AsyncIOBase] fallbackfileio_body cs1))"

definition base_classes :: classes where
  "base_classes = class_stmt True AsyncIOBase [IOBase] asynciobase_body io_classes"

section \<open>Properties\<close>

abbreviation with_ext :: classes where
  "with_ext \<equiv> file_classes (Some ext_names) base_classes"

abbreviation without_ext :: classes where
  "without_ext \<equiv> file_classes None base_classes"

text \<open>
  What is asked of each class: whether it conforms, its \<open>__new__\<close>, \<open>__init__\<close> and \<open>isatty\<close>, and
  whether it is derived from \<open>AsyncIOBase\<close> and from \<open>io.IOBase\<close>.
\<close>

definition class_facts :: "classes \<Rightarrow> cname \<Rightarrow> bool \<times> meth option list \<times> bool list" where
  "class_facts cs c =
     (conforms cs c, map (resolve cs c) [M_other ''__new__'', M_init, M_isatty],
      map (\<lambda>b. b \<in> set (mro_of cs c)) [AsyncIOBase, C_IOBase])"

definition facts_table :: "cname list \<Rightarrow> classes \<Rightarrow> (bool \<times> meth option list \<times> bool list) list" where
  "facts_table names cs = map (class_facts cs) names"

lemma with_ext_facts:
  "facts_table [FallbackFileIO, NativeFileIO, LinuxURingFileIO, WindowsIoRingFileIO, MacOSKQueueFileIO] with_ext =
   (True, [None, Some (Def FallbackFileIO M_init), Some (Def FallbackFileIO M_isatty)], [True, True]) #
   replicate 4 (True, [Some (Def NativeFileIO (M_other ''__new__'')), None, None], [False, False])"
  by code_simp

lemma without_ext_facts:
  "facts_table [FallbackFileIO, DummyNativeFileIO, LinuxURingFileIO, WindowsIoRingFileIO, MacOSKQueueFileIO]
     without_ext =
   (True, [None, Some (Def FallbackFileIO M_init), Some (Def FallbackFileIO M_isatty)], [True, True]) #
   replicate 4 (True, [None, Some (Def DummyNativeFileIO M_init), None], [True, True])"
  by code_simp

lemmas ext_facts = with_ext_facts without_ext_facts

text \<open>
  The class that is chosen at import can be constructed and conforms to \<open>AsyncIOStream\<close> on every
  platform, with the extension (whatever it says about rings) and without: the dummy's constructor,
  which the platform classes have without the extension, is never that of the default.
\<close>

definition constructible :: "classes \<Rightarrow> cname \<Rightarrow> bool" where
  "constructible cs c = (conforms cs c \<and> resolve cs c M_init \<noteq> Some (Def DummyNativeFileIO M_init))"

lemma default_class_constructible:
  "constructible (file_classes (map_option (\<lambda>_. ext_names) ext) base_classes) (fst (default_file_io ext platform))"
  using ext_facts
  by (cases ext) (simp_all add: facts_table_def class_facts_def numeral_eq_Suc default_file_io_def
      use_native_def constructible_def native_class_def)

text \<open>
  A class of the native engine is not a subclass of \<open>AsyncIOBase\<close> nor of \<open>io.IOBase\<close>, and has no
  \<open>isatty\<close>; \<open>FallbackFileIO\<close> is and has.
\<close>

lemma native_not_asynciobase:
  "AsyncIOBase \<notin> set (mro_of with_ext LinuxURingFileIO) \<and> C_IOBase \<notin> set (mro_of with_ext LinuxURingFileIO) \<and>
   resolve with_ext LinuxURingFileIO M_isatty = None \<and>
   {AsyncIOBase, C_IOBase} \<subseteq> set (mro_of with_ext FallbackFileIO) \<and>
   resolve with_ext FallbackFileIO M_isatty = Some (Def FallbackFileIO M_isatty)"
  using ext_facts by (simp add: facts_table_def class_facts_def numeral_eq_Suc)

text \<open>Without the extension the platform classes exist and conform, but cannot be constructed.\<close>

lemma engines_without_ext:
  "conforms without_ext LinuxURingFileIO \<and>
   resolve without_ext LinuxURingFileIO M_init = Some (Def DummyNativeFileIO M_init) \<and>
   dummy_init file mode s = (Inl (NotImplementedError ''Native C-extension engine not compiled.''), s)"
  using ext_facts
  by (simp add: facts_table_def class_facts_def numeral_eq_Suc dummy_init_def io_raise_def)

end
