(* ===== verification/Aiofiles.thy ===== *)
theory Aiofiles
  imports Example_Batch
begin

text \<open>
  \<open>run_aiofiles_benchmark\<close> of \<open>examples/01_sync_and_async_file_io.py\<close>.  The third-party package
  \<open>aiofiles\<close> is a parameter: its file methods, and the laws that they promise (those of the file
  objects they wrap), which the run is proved from.  The laws hold of CPython's own files.
\<close>

section \<open>The package\<close>

text \<open>
  \<open>'h\<close> is a file object.  Every method runs the one of the wrapped file on a thread, which takes
  the file's lock: it is one step of its task.
\<close>

record 'h aio_ops =
  aio_open :: "string \<Rightarrow> string \<Rightarrow> (fs, 'h) io"
  aio_write :: "pydata \<Rightarrow> (fs \<times> 'h, int) io"
  aio_flush :: "(fs \<times> 'h, unit) io"
  aio_seek :: "int \<Rightarrow> (fs \<times> 'h, int) io"
  aio_read :: "int \<Rightarrow> (fs \<times> 'h, pydata) io"
  aio_close :: "(fs \<times> 'h, unit) io"

section \<open>The run\<close>

definition aiofiles_body ::
  "'h aio_ops \<Rightarrow> nat list \<Rightarrow> nat list \<Rightarrow> bytes \<Rightarrow> (fs \<times> 'h, int list \<times> pydata list) blocking_io" where
  "aiofiles_body A wsched rsched payload =
     bio_bind (awaited (aio_write A (Bytes payload))) (\<lambda>_.
     bio_bind (awaited (aio_flush A)) (\<lambda>_.
     bio_bind (gather wsched (map (\<lambda>_. [\<lambda>_. aio_write A (Bytes payload)]) [0..<batch_size]) 0)
       (\<lambda>write_results.
     bio_bind (awaited (aio_flush A)) (\<lambda>_.
     bio_bind (awaited (aio_seek A 0)) (\<lambda>_.
     bio_bind (gather rsched (map (\<lambda>_. [\<lambda>_. aio_read A (int (length payload))]) [0..<batch_size])
                 (Bytes [])) (\<lambda>aio_reads.
     awaited (io_return (write_results, aio_reads))))))))"

text \<open>\<open>async with\<close> closes the file, also after an exception.  \<open>None\<close>: the package is missing.\<close>

definition run_aiofiles_benchmark ::
  "'h aio_ops option \<Rightarrow> nat list \<Rightarrow> nat list \<Rightarrow> string \<Rightarrow> bytes
     \<Rightarrow> (fs, int list \<times> pydata list) blocking_io" where
  "run_aiofiles_benchmark aiofiles wsched rsched path payload = (\<lambda>fs.
     case aiofiles of
       None \<Rightarrow> Some (Inr ([], []), fs)
     | Some A \<Rightarrow>
         (case aio_open A path ''w+b'' fs of
            (Inl er, fs') \<Rightarrow> Some (Inl er, fs')
          | (Inr h, fs') \<Rightarrow>
              (case aiofiles_body A wsched rsched payload (fs', h) of
                 None \<Rightarrow> None
               | Some (r, st) \<Rightarrow>
                   (case aio_close A st of
                      (Inl er, (fs'', _)) \<Rightarrow> Some (Inl er, fs'')
                    | (Inr _, (fs'', _)) \<Rightarrow> Some (r, fs'')))))"

section \<open>What the run relies on\<close>

text \<open>
  \<open>app p c\<close>: \<open>c\<close> has been written to the file \<open>p\<close>, perhaps not flushed; \<open>rdp p c k\<close>: the file holds
  \<open>c\<close> and the next read starts at \<open>k\<close>.
\<close>

locale aio_file =
  fixes A :: "'h aio_ops"
    and app :: "string \<Rightarrow> bytes \<Rightarrow> fs \<times> 'h \<Rightarrow> bool"
    and rdp :: "string \<Rightarrow> bytes \<Rightarrow> nat \<Rightarrow> fs \<times> 'h \<Rightarrow> bool"
  assumes aio_open_law: "\<exists>h fs'. aio_open A p ''w+b'' fs = (Inr h, fs') \<and> app p [] (fs', h)"
    and aio_write_law: "app p c st \<Longrightarrow>
      \<exists>st'. aio_write A (Bytes b) st = (Inr (int (length b)), st') \<and> app p (c @ b) st'"
    and aio_flush_law: "app p c st \<Longrightarrow> \<exists>st'. aio_flush A st = (Inr (), st') \<and> app p c st'"
    and aio_seek_law: "app p c st \<Longrightarrow> \<exists>st'. aio_seek A 0 st = (Inr 0, st') \<and> rdp p c 0 st'"
    and aio_read_law: "rdp p c k st \<Longrightarrow>
      \<exists>st'. aio_read A (int n) st = (Inr (Bytes (take n (drop k c))), st') \<and>
            rdp p c (k + length (take n (drop k c))) st'"
    and aio_close_law: "rdp p c k st \<Longrightarrow> \<exists>fs h. aio_close A st = (Inr (), (fs, h)) \<and> fs p = Some c"

definition aio_read_inv ::
  "(string \<Rightarrow> bytes \<Rightarrow> nat \<Rightarrow> 's \<Rightarrow> bool) \<Rightarrow> string \<Rightarrow> bytes \<Rightarrow> nat list \<Rightarrow> 's \<Rightarrow> bool" where
  "aio_read_inv rdp p b is st = rdp p (copies (Suc batch_size) b) (length is * length b) st"

sublocale aio_file \<subseteq> aio_writes: shared_tasks "\<lambda>_ _. aio_write A (Bytes b)"
  "\<lambda>_. int (length b)" "\<lambda>is. app p (copies (Suc (length is)) b)" batch_size 0 for p b
proof
  fix i "is" st
  assume "app p (copies (Suc (length is)) b) st"
  from aio_write_law [OF this, of b]
  show "\<exists>st'. aio_write A (Bytes b) st = (Inr (int (length b)), st') \<and>
      app p (copies (Suc (length (is @ [i]))) b) st'"
    unfolding copies_snoc by simp
qed

sublocale aio_file \<subseteq> aio_reads: shared_tasks "\<lambda>_ _. aio_read A (int (length b))"
  "\<lambda>_. Bytes b" "aio_read_inv rdp p b" batch_size "Bytes []" for p b
proof
  fix i "is" st
  assume i: "distinct is" "set is \<subseteq> {..<batch_size}" and inv: "aio_read_inv rdp p b is st"
  have "length is < Suc batch_size"
    using i by (metis card_lessThan card_mono distinct_card finite_lessThan le_imp_less_Suc)
  note cut = take_copies [OF this, of b]
  from aio_read_law [OF inv [unfolded aio_read_inv_def], of "length b"]
  show "\<exists>st'. aio_read A (int (length b)) st = (Inr (Bytes b), st') \<and> aio_read_inv rdp p b (is @ [i]) st'"
    unfolding cut by (simp add: aio_read_inv_def add.commute)
qed

context aio_file
begin

lemma aiofiles_benchmark:
  assumes "complete ws (replicate batch_size [\<lambda>_. aio_write A (Bytes b)])"
    and "complete rs (replicate batch_size [\<lambda>_. aio_read A (int (length b))])"
  shows "\<exists>fs'. run_aiofiles_benchmark (Some A) ws rs p b fs =
      Some (Inr (replicate batch_size (int (length b)), replicate batch_size (Bytes b)), fs') \<and>
      fs' p = Some (copies (Suc batch_size) b)"
proof -
  let ?all = "copies (Suc batch_size) b"
  from aio_open_law [of p fs] obtain h fs1 where one: "aio_open A p ''w+b'' fs = (Inr h, fs1)"
    "app p [] (fs1, h)" by blast
  from aio_write_law [OF one(2), of b] obtain s2 where two:
    "aio_write A (Bytes b) (fs1, h) = (Inr (int (length b)), s2)" "app p b s2" unfolding append_Nil by blast
  from aio_flush_law [OF two(2)] obtain s3 where three: "aio_flush A s2 = (Inr (), s3)" "app p b s3" by blast
  have "app p (copies (Suc (length ([] :: nat list))) b) s3" using three(2) by simp
  from aio_writes.gather_shared [OF this, of ws] assms(1) obtain js s4 where four:
    "gather ws (replicate batch_size [\<lambda>_. aio_write A (Bytes b)]) 0 s3 =
       Some (Inr (replicate batch_size (int (length b))), s4)"
    "distinct js" "set js = {..<batch_size}" "app p (copies (Suc (length js)) b) s4"
    unfolding map_replicate_const by auto
  have "length js = batch_size" using four(2,3) by (metis card_lessThan distinct_card)
  with four(4) have "app p ?all s4" by simp
  from aio_flush_law [OF this] obtain s5 where five: "aio_flush A s4 = (Inr (), s5)" "app p ?all s5" by blast
  from aio_seek_law [OF five(2)] obtain s6 where six: "aio_seek A 0 s5 = (Inr 0, s6)" "rdp p ?all 0 s6"
    by blast
  have "aio_read_inv rdp p b [] s6" using six(2) by (simp add: aio_read_inv_def)
  from aio_reads.gather_shared [OF this, of rs] assms(2) obtain ks s7 where seven:
    "gather rs (replicate batch_size [\<lambda>_. aio_read A (int (length b))]) (Bytes []) s6 =
       Some (Inr (replicate batch_size (Bytes b)), s7)" "aio_read_inv rdp p b ks s7"
    unfolding map_replicate_const by auto
  from aio_close_law [OF seven(2) [unfolded aio_read_inv_def]] obtain fs8 h8 where
    "aio_close A s7 = (Inr (), (fs8, h8))" "fs8 p = Some ?all" by blast
  with one(1) two(1) three(1) four(1) five(1) six(1) seven(1) show ?thesis
    by (simp add: run_aiofiles_benchmark_def aiofiles_body_def bio_bind_def awaited_def
        map_replicate_const io_return_def)
qed

end

section \<open>CPython's own files behind the interface\<close>

definition cp_state :: "fs \<times> native_file \<times> cpbuf \<Rightarrow> cpstate" where
  "cp_state = (\<lambda>(fs, f, x). ((fs, f), x))"

definition on_file :: "(cpstate, 'a) io \<Rightarrow> (fs \<times> native_file \<times> cpbuf, 'a) io" where
  "on_file m st = (case m (cp_state st) of (r, ((fs, f), x)) \<Rightarrow> (r, (fs, f, x)))"

definition cp_aio :: "(native_file \<times> cpbuf) aio_ops" where
  "cp_aio = \<lparr>
     aio_open = (\<lambda>path mode fs.
       case py_open_flags mode of
         None \<Rightarrow> (Inl (ValueError ''invalid mode''), fs)
       | Some fl \<Rightarrow>
           (case os_open fl path fs of
              (Inl er, fs') \<Rightarrow> (Inl er, fs')
            | (Inr _, fs') \<Rightarrow> (Inr (nf_new path mode fl, cp_new default_buffer_size (of_access fl)), fs'))),
     aio_write = (\<lambda>d. on_file (cp_write d)), aio_flush = on_file cp_flush,
     aio_seek = (\<lambda>n. on_file (cp_seek n 0)), aio_read = (\<lambda>n. on_file (cp_read n)),
     aio_close = on_file cp_close\<rparr>"

definition cpa_app :: "string \<Rightarrow> bytes \<Rightarrow> fs \<times> native_file \<times> cpbuf \<Rightarrow> bool" where
  "cpa_app p c st = cp_app p c (cp_state st)"

definition cpa_rdp :: "string \<Rightarrow> bytes \<Rightarrow> nat \<Rightarrow> fs \<times> native_file \<times> cpbuf \<Rightarrow> bool" where
  "cpa_rdp p c k st = cp_rdp p c k (cp_state st)"

lemma on_file_law:
  assumes "\<exists>st'. m (cp_state st) = (Inr r, st') \<and> Q st'"
  shows "\<exists>st'. on_file m st = (Inr r, st') \<and> Q (cp_state st')"
  using assms by (fastforce simp: on_file_def cp_state_def)

interpretation aio_cp: aio_file cp_aio cpa_app cpa_rdp
proof
  fix p fs
  let ?fl = "\<lparr>of_access = RdWr, of_append = False, of_creat = True, of_trunc = True, of_excl = False\<rparr>"
  have "os_open ?fl p fs = (Inr (), fs(p \<mapsto> []))" by (auto simp: os_open_def split: option.split)
  moreover have "cp_app p [] ((fs(p \<mapsto> []), nf_new p ''w+b'' ?fl), cp_new default_buffer_size RdWr)"
    by (simp add: cp_app_def nf_new_def cp_new_def pool_defs)
  ultimately show "\<exists>h fs'. aio_open cp_aio p ''w+b'' fs = (Inr h, fs') \<and> cpa_app p [] (fs', h)"
    by (simp add: cp_aio_def py_flags_wb cpa_app_def cp_state_def)
next
  fix p c b and st :: "fs \<times> native_file \<times> cpbuf"
  assume "cpa_app p c st"
  then have st: "cp_app p c (cp_state st)" by (simp add: cpa_app_def)
  from on_file_law [where st = st and m = "cp_write (Bytes b)" and Q = "cp_app p (c @ b)",
      OF cp_write_law [where b = b, OF st]]
  show "\<exists>st'. aio_write cp_aio (Bytes b) st = (Inr (int (length b)), st') \<and> cpa_app p (c @ b) st'"
    by (simp add: cp_aio_def cpa_app_def)
  from on_file_law [where st = st and m = cp_flush and Q = "cp_app p c", OF cp_flush_law [OF st]]
  show "\<exists>st'. aio_flush cp_aio st = (Inr (), st') \<and> cpa_app p c st'"
    by (simp add: cp_aio_def cpa_app_def)
  from on_file_law [where st = st and m = "cp_seek 0 0" and Q = "cp_rdp p c 0", OF cp_seek_law [OF st]]
  show "\<exists>st'. aio_seek cp_aio 0 st = (Inr 0, st') \<and> cpa_rdp p c 0 st'"
    by (simp add: cp_aio_def cpa_rdp_def)
next
  fix p c k n and st :: "fs \<times> native_file \<times> cpbuf"
  assume "cpa_rdp p c k st"
  then have st: "cp_rdp p c k (cp_state st)" by (simp add: cpa_rdp_def)
  from on_file_law [where st = st and m = "cp_read (int n)" and
      Q = "cp_rdp p c (k + length (take n (drop k c)))",
      OF cp_read_law [where n = n, OF st]]
  show "\<exists>st'. aio_read cp_aio (int n) st = (Inr (Bytes (take n (drop k c))), st') \<and>
      cpa_rdp p c (k + length (take n (drop k c))) st'"
    by (simp add: cp_aio_def cpa_rdp_def del: length_take)
  from cp_close_law [OF st] show "\<exists>fs h. aio_close cp_aio st = (Inr (), (fs, h)) \<and> fs p = Some c"
    by (auto simp: cp_aio_def on_file_def)
qed

end
