(* ===== verification/Batch_Script.thy ===== *)
theory Batch_Script
  imports Aiofiles Std_Out
begin

text \<open>
  \<open>main()\<close> of \<open>examples/01_sync_and_async_file_io.py\<close>: its five runs on five temporary files, its
  assertions, and what it prints, with \<open>print\<close> and at last with a \<open>gather\<close> of \<open>aprint\<close>s.  Clocks are
  left out: the numbers and lines that are formatted from them are arguments.
\<close>

section \<open>The script\<close>

text \<open>Computations on one half of the state.\<close>

definition bio_fst :: "('s, 'a) blocking_io \<Rightarrow> ('s \<times> 't, 'a) blocking_io" where
  "bio_fst m = (\<lambda>(s, t). case m s of None \<Rightarrow> None | Some (r, s') \<Rightarrow> Some (r, (s', t)))"

definition bio_snd :: "('t, 'a) blocking_io \<Rightarrow> ('s \<times> 't, 'a) blocking_io" where
  "bio_snd m = (\<lambda>(s, t). case m t of None \<Rightarrow> None | Some (r, t') \<Rightarrow> Some (r, (s, t')))"

record batch_files =
  os_sync_filename :: string
  builtin_sync_filename :: string
  aiofiles_filename :: string
  async_filename :: string
  batch_filename :: string

text \<open>How the event loop orders the tasks of the five \<open>gather\<close>s.\<close>

record batch_scheds =
  sc_aio_writes :: "nat list"
  sc_aio_reads :: "nat list"
  sc_writes :: "nat list"
  sc_reads :: "nat list"
  sc_prints :: "nat list"

text \<open>The lines of \<open>speedup_prints\<close>; \<open>speed\<close> gives the formatted percentages.\<close>

definition speedup_prints :: "bool \<Rightarrow> (nat \<Rightarrow> pstr) \<Rightarrow> pstr list" where
  "speedup_prints has_aiofiles speed =
     [[10] @ ascii ''Async Batch vs Built-in Sync Write Speedup: '' @ speed 0 @ ascii ''%'',
      ascii ''Async Batch vs Built-in Sync Read Speedup:  '' @ speed 1 @ ascii ''%''] @
     (if has_aiofiles
      then [ascii ''Async Batch vs aiofiles Write Speedup:       '' @ speed 2 @ ascii ''%'',
            ascii ''Async Batch vs aiofiles Read Speedup:        '' @ speed 3 @ ascii ''%'']
      else []) @
     [ascii ''Success: All batch benchmark operations completed successfully!'' @ [10]]"

text \<open>The assertions, on what the runs returned.\<close>

definition batch_asserts ::
  "bool \<Rightarrow> bytes list \<Rightarrow> pydata list \<Rightarrow> int list \<times> pydata list \<Rightarrow> int list \<times> pydata list
     \<Rightarrow> int list \<times> pydata list \<Rightarrow> bool" where
  "batch_asserts has_aiofiles os_reads builtin_reads aio piped batch =
     (list_all (\<lambda>n. n = batch_size)
        [length os_reads, length builtin_reads, length (snd piped), length (snd batch)] \<and>
      (has_aiofiles \<longrightarrow> length (snd aio) = batch_size \<and> length (fst aio) = batch_size) \<and>
      length (fst piped) = batch_size \<and> length (fst batch) = batch_size)"

text \<open>
  The state is the files with the variables of the script, and the output; the result, which the
  script does not return, is what was read.
\<close>

definition batch_main ::
  "engine_choice \<Rightarrow> 'h aio_ops option \<Rightarrow> batch_scheds \<Rightarrow> int \<Rightarrow> batch_files \<Rightarrow> pstr \<Rightarrow> pstr list
     \<Rightarrow> (nat \<Rightarrow> pstr)
     \<Rightarrow> (world \<times> pstr, bytes list \<times> pydata list \<times> pydata list \<times> pydata list \<times> pydata list) blocking_io" where
  "batch_main e aiofiles sc arg files title tables speed =
     (let payload = main_payload arg in
      bio_bind (bio_snd (awaited (print_lines [title]))) (\<lambda>_.
      bio_bind (bio_fst (bio_fst (awaited (run_os_sync_benchmark (os_sync_filename files) payload))))
        (\<lambda>os_sync_reads.
      bio_bind (bio_fst (bio_fst (awaited (run_builtin_sync_benchmark (builtin_sync_filename files) payload))))
        (\<lambda>builtin_sync_reads.
      bio_bind (bio_fst (bio_fst (run_aiofiles_benchmark aiofiles (sc_aio_writes sc) (sc_aio_reads sc)
                                    (aiofiles_filename files) payload))) (\<lambda>aio.
      bio_bind (bio_fst (run_async_pipelined_benchmark e (sc_writes sc) (sc_reads sc)
                           (async_filename files) payload)) (\<lambda>piped.
      bio_bind (bio_fst (awaited (run_async_batch_api_benchmark e (batch_filename files) payload))) (\<lambda>batch.
      if batch_asserts (aiofiles \<noteq> None) os_sync_reads builtin_sync_reads aio piped batch
      then
        bio_bind (bio_snd (awaited (print_lines tables))) (\<lambda>_.
        bio_bind (bio_snd (gather (sc_prints sc) (aprint_tasks (speedup_prints (aiofiles \<noteq> None) speed)) ()))
          (\<lambda>_. awaited (io_return (os_sync_reads, builtin_sync_reads, snd aio, snd piped, snd batch))))
      else awaited (io_raise (RuntimeError ''AssertionError'')))))))))"

section \<open>Its result\<close>

lemma scalar_speedups:
  "\<forall>i. list_all scalar (speed i) \<Longrightarrow> list_all (list_all scalar) (speedup_prints b speed)"
  by (auto simp: speedup_prints_def scalar_ascii scalar_def surrogate_def)

lemma length_speedups: "length (speedup_prints b speed) = (if b then 5 else 3)"
  by (simp add: speedup_prints_def)

text \<open>The package is missing, or it keeps the laws and the tasks on its file get their turns.\<close>

definition aio_ok ::
  "'h aio_ops option \<Rightarrow> (string \<Rightarrow> bytes \<Rightarrow> fs \<times> 'h \<Rightarrow> bool) \<Rightarrow> (string \<Rightarrow> bytes \<Rightarrow> nat \<Rightarrow> fs \<times> 'h \<Rightarrow> bool)
     \<Rightarrow> nat list \<Rightarrow> nat list \<Rightarrow> bytes \<Rightarrow> bool" where
  "aio_ok aiofiles app rdp ws rs b =
     (case aiofiles of
        None \<Rightarrow> True
      | Some A \<Rightarrow>
          aio_file A app rdp \<and> complete ws (replicate batch_size [\<lambda>_. aio_write A (Bytes b)]) \<and>
          complete rs (replicate batch_size [\<lambda>_. aio_read A (int (length b))]))"

lemma aio_run:
  assumes "aio_ok aiofiles app rdp ws rs b"
  shows "\<exists>fs'. run_aiofiles_benchmark aiofiles ws rs p b fs =
     Some (Inr (if aiofiles = None then ([], [])
                else (replicate batch_size (int (length b)), replicate batch_size (Bytes b))), fs')"
proof (cases aiofiles)
  case None
  then show ?thesis by (simp add: run_aiofiles_benchmark_def)
next
  case (Some A)
  with assms have "aio_file A app rdp" "complete ws (replicate batch_size [\<lambda>_. aio_write A (Bytes b)])"
    "complete rs (replicate batch_size [\<lambda>_. aio_read A (int (length b))])"
    by (simp_all add: aio_ok_def)
  from aio_file.aiofiles_benchmark [OF this, of p fs] Some show ?thesis by auto
qed

text \<open>The five runs, one after the other.\<close>

definition batch_result :: "bytes \<Rightarrow> int list \<times> pydata list" where
  "batch_result b = (replicate batch_size (int (length b)), replicate batch_size (Bytes b))"

lemma five_runs:
  assumes "length b < 2 ^ 32" and "aio_ok aiofiles app rdp (sc_aio_writes sc) (sc_aio_reads sc) b"
    and "complete (sc_writes sc) (replicate batch_size [\<lambda>_. at 0 (ob_awrite (Bytes b))])"
    and "complete (sc_reads sc) (replicate batch_size [\<lambda>_. at 0 (ob_aread (int (length b)))])"
  shows "\<exists>fs1 fs2 fs3 w4 w5.
     run_os_sync_benchmark (os_sync_filename files) b fs = (Inr (replicate batch_size b), fs1) \<and>
     run_builtin_sync_benchmark (builtin_sync_filename files) b fs1 =
       (Inr (replicate batch_size (Bytes b)), fs2) \<and>
     run_aiofiles_benchmark aiofiles (sc_aio_writes sc) (sc_aio_reads sc) (aiofiles_filename files) b fs2 =
       Some (Inr (if aiofiles = None then ([], []) else batch_result b), fs3) \<and>
     run_async_pipelined_benchmark e (sc_writes sc) (sc_reads sc) (async_filename files) b (fs3, H) =
       Some (Inr (batch_result b), w4) \<and>
     run_async_batch_api_benchmark e (batch_filename files) b w4 = (Inr (batch_result b), w5)"
  using os_benchmark [of "os_sync_filename files" b] builtin_benchmark [of "builtin_sync_filename files" b]
    aio_run [OF assms(2), of "aiofiles_filename files"]
    pipelined_any_engine [OF assms(1,3,4), of e "async_filename files"]
    batch_any_engine [OF assms(1), of e "batch_filename files"]
  unfolding batch_result_def by metis



end
