(* ===== verification/Script_Output.thy ===== *)
theory Script_Output
  imports Example_Streams Package_Init
begin

text \<open>
  \<open>main()\<close> of examples 02 to 06 with what they print: the objects of \<open>Example_Files\<close> and
  \<open>Example_Streams\<close> on one side of the state, the output on the other.  Each section proves which
  text the script leaves on the terminal.
\<close>

section \<open>Printing scripts\<close>

text \<open>\<open>print\<close> of one object.\<close>

definition say :: "pstr \<Rightarrow> ('s \<times> pstr, unit) io" where
  "say t = on_snd (py_print [t] [32] [10])"

text \<open>A part of a script that works on an object of its own.\<close>

definition with_object :: "'a \<Rightarrow> ('a \<times> pstr, 'r) io \<Rightarrow> ('s \<times> pstr, 'r) io" where
  "with_object x m = (\<lambda>(s, out). case m (x, out) of (r, (_, out')) \<Rightarrow> (r, (s, out')))"

text \<open>\<open>.decode("utf-8")\<close>; \<open>repr()\<close> of bytes, with \<open>str_repr\<close> for that of a string; \<open>print\<close> of either.\<close>

definition decode_text :: "pydata \<Rightarrow> ('s, pstr) io" where
  "decode_text d =
     (case d of
        Bytes b \<Rightarrow> (case utf8_decode b of Inl er \<Rightarrow> io_raise er | Inr t \<Rightarrow> io_return t)
      | Str t \<Rightarrow> io_raise (AttributeError ''decode''))"

definition repr_bytes :: "bytes \<Rightarrow> pstr" where
  "repr_bytes b = ascii (bytes_repr (map (\<lambda>x. char_of (unat x)) b))"

definition repr_data :: "(pstr \<Rightarrow> pstr) \<Rightarrow> pydata \<Rightarrow> pstr" where
  "repr_data str_repr d = (case d of Bytes b \<Rightarrow> repr_bytes b | Str t \<Rightarrow> str_repr t)"

definition say_data :: "pydata \<Rightarrow> ('s \<times> pstr, unit) io" where
  "say_data d = (case d of Str t \<Rightarrow> say t | Bytes b \<Rightarrow> say (repr_bytes b))"

lemma say_text: "list_all scalar t \<Longrightarrow> say t (s, out) = (Inr (), (s, out @ t @ [10]))"
  using print_text [of "[t]" "[32]" "[10]" out]
  by (simp add: say_def aprint_output_def scalar_def surrogate_def)

lemma scalar_repr: "list_all scalar (repr_bytes b)"
  by (simp add: repr_bytes_def scalar_ascii)

lemma scalar_newline: "scalar 10" "scalar 39"
  by (simp_all add: scalar_def surrogate_def)

lemmas scalar_text = scalar_ascii scalar_repr scalar_newline list_all_append

text \<open>What a part prints, after \<open>out\<close>, and how it ends.\<close>

definition prints :: "('a \<times> pstr, 'r) io \<Rightarrow> 'a \<Rightarrow> pstr \<Rightarrow> (py_error + 'r) \<times> pstr" where
  "prints m x out = (case m (x, out) of (r, (_, out')) \<Rightarrow> (r, out'))"

lemma printed_then:
  "io_bind (with_object x m) k (s, out) =
     (case prints m x out of (Inl er, out') \<Rightarrow> (Inl er, (s, out')) | (Inr r, out') \<Rightarrow> k r (s, out'))"
  "with_object x m (s, out) = (case prints m x out of (r, out') \<Rightarrow> (r, (s, out')))"
  by (simp_all add: io_bind_apply with_object_def prints_def split: prod.split sum.split)

text \<open>The steps of a script, one rule each.\<close>

lemma say_then: "list_all scalar t \<Longrightarrow> io_bind (say t) k (s, out) = k () (s, out @ t @ [10])"
  by (simp add: io_bind_apply say_text)

lemma part_then:
  "io_bind (on_fst m) k (s, out) =
     (case m s of (Inl er, s') \<Rightarrow> (Inl er, (s', out)) | (Inr x, s') \<Rightarrow> k x (s', out))"
  by (simp add: io_bind_apply split: prod.split sum.split)

lemma assert_then: "io_bind (py_assert True) k = k ()"
  by (simp add: fun_eq_iff py_assert_def io_bind_apply io_return_def)

lemmas script_steps = say_then part_then assert_then scalar_text

text \<open>The steps of a computation that has succeeded.\<close>

lemma io_bind_InrE:
  assumes "io_bind m k s = (Inr y, s'')"
  obtains x s' where "m s = (Inr x, s')" and "k x s' = (Inr y, s'')"
  using assms by (auto simp: io_bind_apply split: prod.splits sum.splits)

section \<open>Example 05\<close>

definition initial_payload :: bytes where
  "initial_payload = ascii_bytes ''Initial Binary Payload''"

definition memory_bytes_part :: "(bytesio \<times> pstr, unit) io" where
  "memory_bytes_part =
     io_bind (on_fst (abytesio_aread 14)) (\<lambda>initial_bytes.
     io_bind (say (ascii ''Async Read Bytes: '' @ repr_data id initial_bytes)) (\<lambda>_.
     io_bind (on_fst (bytesio_seek 0 0)) (\<lambda>_.
     io_bind (on_fst (abytesio_awrite (Bytes (ascii_bytes ''Updated Memory Ring'')))) (\<lambda>_.
     io_bind (on_fst (mem_getvalue Bytes)) (\<lambda>v.
     io_bind (say (ascii ''BytesIO getvalue(): '' @ repr_data id v)) (\<lambda>_.
     on_fst mem_close))))))"

definition text_line1 :: pstr where
  "text_line1 = ascii ''Line 1: Async Text Write'' @ [10]"

definition text_line2 :: pstr where
  "text_line2 = ascii ''Line 2: Another Async Line'' @ [10]"

definition memory_text_part :: "pstr \<Rightarrow> pstr \<Rightarrow> (stringio \<times> pstr, unit) io" where
  "memory_text_part line1 line2 =
     io_bind (on_fst (astringio_awrite (Str line1))) (\<lambda>_.
     io_bind (on_fst (astringio_awrite (Str line2))) (\<lambda>_.
     io_bind (on_fst (stringio_seek 0 0)) (\<lambda>_.
     io_bind (on_fst (astringio_aread (-1))) (\<lambda>full_text.
     io_bind (say (ascii ''--- StringIO getvalue() ---'')) (\<lambda>_.
     io_bind (say_data full_text) (\<lambda>_.
     on_fst mem_close))))))"

definition memory_main :: "py_env \<Rightarrow> ('s \<times> pstr, unit) io" where
  "memory_main env =
     io_bind (say (ascii ''=== Example 05: In-Memory Async Streams (AsyncBytesIO & AsyncStringIO) ==='')) (\<lambda>_.
     io_bind (py_assert (io_names env N_BytesIO = Some AsyncBytesIO)) (\<lambda>_.
     io_bind (with_object (new_memfile initial_payload) memory_bytes_part) (\<lambda>_.
     io_bind (py_assert (io_names env N_StringIO = Some AsyncStringIO)) (\<lambda>_.
     with_object (new_memfile (ascii ''Header Line'' @ [10]))
       (memory_text_part text_line1 text_line2)))))"

lemma bytes_steps:
  assumes "length b \<noteq> 0"
  shows "abytesio_aread 14 (new_memfile initial) =
      (Inr (Bytes (take 14 initial)), \<lparr>m_buf = initial, m_pos = min (length initial) 14, m_closed = False\<rparr>)"
    and "bytesio_seek 0 0 \<lparr>m_buf = initial, m_pos = k, m_closed = False\<rparr> = (Inr 0, new_memfile initial)"
    and "abytesio_awrite (Bytes b) (new_memfile initial) = (Inr (int (length b)),
      \<lparr>m_buf = b @ drop (length b) initial, m_pos = length b, m_closed = False\<rparr>)"
  using assms by (auto simp: mem_defs new_memfile_def io_defs overwrite_def Let_def)

lemma getvalue_step:
  "mem_getvalue Bytes \<lparr>m_buf = d, m_pos = k, m_closed = False\<rparr> =
     (Inr (Bytes d), \<lparr>m_buf = d, m_pos = k, m_closed = False\<rparr>)"
  by (simp add: mem_defs)

lemma close_step: "mem_close s = (Inr (), s\<lparr>m_buf := [], m_closed := True\<rparr>)"
  by (simp add: mem_defs)

lemma text_steps:
  "t \<noteq> [] \<Longrightarrow> mem_open (mem_put 0 t) \<lparr>m_buf = d, m_pos = k, m_closed = False\<rparr> =
      (Inr (int (length t)), \<lparr>m_buf = overwrite 0 k t d, m_pos = k + length t, m_closed = False\<rparr>)"
  "astringio_awrite (Str t) = mem_open (mem_put 0 t)"
  "stringio_seek 0 0 \<lparr>m_buf = d, m_pos = k, m_closed = False\<rparr> = (Inr 0, \<lparr>m_buf = d, m_pos = 0, m_closed = False\<rparr>)"
  "astringio_aread (-1) \<lparr>m_buf = d, m_pos = 0, m_closed = False\<rparr> = (Inr (Str d), \<lparr>m_buf = d, m_pos = length d, m_closed = False\<rparr>)"
  by (auto simp: mem_defs new_memfile_def io_defs Let_def)

lemma bytes_part_prints:
  "prints memory_bytes_part (new_memfile initial) out = (Inr (), out @
     (ascii ''Async Read Bytes: '' @ repr_bytes (take 14 initial)) @ [10] @
     (ascii ''BytesIO getvalue(): '' @
       repr_bytes (ascii_bytes ''Updated Memory Ring'' @ drop 19 initial)) @ [10])"
proof -
  let ?b = "ascii_bytes ''Updated Memory Ring''"
  have b: "length ?b = 19" by (simp add: ascii_bytes_def)
  then have "length ?b \<noteq> 0" by simp
  note steps = bytes_steps [OF this, of initial, unfolded b]
  show ?thesis
    by (simp add: prints_def memory_bytes_part_def script_steps steps getvalue_step close_step repr_data_def
        del: ascii_simps)
qed

lemma memory_text_prints:
  assumes "length h \<le> length (l1 @ l2)" and "l1 \<noteq> []" and "l2 \<noteq> []" and "list_all scalar (l1 @ l2)"
  shows "prints (memory_text_part l1 l2) (new_memfile h) out =
      (Inr (), out @ ascii ''--- StringIO getvalue() ---'' @ [10] @ l1 @ l2 @ [10])"
  using assms
  by (simp add: prints_def memory_text_part_def script_steps text_steps close_step
      new_memfile_def [of h] overwrite_def say_data_def del: ascii_simps)

lemma reprs:
  "repr_bytes (take 14 initial_payload) = ascii ''b'' @ [39] @ ascii ''Initial Binary'' @ [39]"
  "repr_bytes (ascii_bytes ''Updated Memory Ring'' @ drop 19 initial_payload) =
     ascii ''b'' @ [39] @ ascii ''Updated Memory Ringoad'' @ [39]"
  by code_simp+

text \<open>
  The update has overwritten the beginning of the payload, of which the end remains; of the header
  of the text stream, which is shorter than the two lines, nothing is left.  Where the names of
  \<open>io\<close> are not patched the first assertion fails.
\<close>

lemma memory_main_prints:
  assumes "io_names env N_BytesIO = Some AsyncBytesIO" and "io_names env N_StringIO = Some AsyncStringIO"
  shows "memory_main env (s, out) = (Inr (), (s, out @ concat (map (\<lambda>l. l @ [10])
     [ascii ''=== Example 05: In-Memory Async Streams (AsyncBytesIO & AsyncStringIO) ==='',
      ascii ''Async Read Bytes: b'' @ [39] @ ascii ''Initial Binary'' @ [39],
      ascii ''BytesIO getvalue(): b'' @ [39] @ ascii ''Updated Memory Ringoad'' @ [39],
      ascii ''--- StringIO getvalue() ---'', text_line1 @ text_line2])))"
proof -
  have lines: "length (ascii ''Header Line'' @ [10]) \<le> length (text_line1 @ text_line2)"
    "text_line1 \<noteq> []" "text_line2 \<noteq> []"
    by (simp_all add: text_line1_def text_line2_def ascii_def)
  have "list_all scalar (text_line1 @ text_line2)"
    by (simp add: text_line1_def text_line2_def scalar_text del: ascii_simps)
  note lines_printed = memory_text_prints [OF lines this]
  show ?thesis
    unfolding memory_main_def assms
    by (simp only: simp_thms say_then assert_then scalar_ascii printed_then bytes_part_prints lines_printed reprs prod.case sum.case)
      (simp add: ascii_def)
qed

lemma memory_main_unpatched:
  "io_names env N_BytesIO \<noteq> Some AsyncBytesIO \<Longrightarrow>
   fst (memory_main env (s, out)) = Inl (RuntimeError ''AssertionError'')"
  by (simp add: memory_main_def say_text scalar_ascii py_assert_def io_bind_apply io_raise_def del: ascii_simps)

section \<open>Example 03\<close>

definition socket_request :: bytes where
  "socket_request = ascii_bytes (''GET / HTTP/1.1'' @ [CHR 0x0D, CHR 0x0A, CHR 0x0D, CHR 0x0A])"

text \<open>
  The state is the connected socket of the client, and the output; the server is \<open>handle_client\<close>.  Closing
  the socket and the server prints nothing.
\<close>

definition socket_main :: "bytes list \<Rightarrow> (sock \<times> pstr, unit) io" where
  "socket_main segs =
     io_bind (say (ascii ''=== Example 03: Async Socket Stream via socket.makefile() ==='')) (\<lambda>_.
     io_bind (\<lambda>(s, out). case patched_socket_makefile (\<lambda>_ _. True) s ''r+b'' (-1) None None None s of
                (r, s') \<Rightarrow> (r, (s', out))) (\<lambda>l.
       case l of
         RawLayer stream \<Rightarrow>
           io_bind (py_assert (conforms lib_classes AsyncSocketIO)) (\<lambda>_.
           io_bind (on_fst (asocket_awrite (Bytes socket_request))) (\<lambda>_.
           io_bind (\<lambda>(s, out). (Inr (), (handle_client segs s, out))) (\<lambda>_.
           io_bind (on_fst (asocket_aread 256)) (\<lambda>response.
           io_bind (say (ascii ''Received Response:'')) (\<lambda>_.
           io_bind (decode_text response) (\<lambda>t.
           io_bind (say t) (\<lambda>_.
           on_fst asocket_close)))))))
       | _ \<Rightarrow> io_raise (AttributeError ''buffered'')))"

lemma class_asserts:
  "conforms lib_classes AsyncSocketIO" "conforms lib_classes AsyncTextIOWrapper"
  using library_classes_conform by (simp_all add: stream_classes_def)

text \<open>Only the first segment of the response is printed, if it can be decoded.\<close>

lemma socket_main_prints:
  assumes "concat segs = socket_response" and "[] \<notin> set segs"
    and "sk_fd client \<noteq> -1" and "sk_in client = []" and "sk_sent client = []"
    and "utf8_decode (hd segs) = Inr t"
  shows "\<exists>s'. socket_main segs (client, out) = (Inr (), (s', out @ concat (map (\<lambda>l. l @ [10])
     [ascii ''=== Example 03: Async Socket Stream via socket.makefile() ==='',
      ascii ''Received Response:'', t])))"
proof -
  have "socket_request \<noteq> []" by (simp add: socket_request_def ascii_bytes_def)
  from socket_steps(1) [OF assms(1-5) this] obtain c1 c2 k where
    "asocket_awrite (Bytes socket_request) client = (Inr k, c1)"
    "asocket_aread 256 (handle_client segs c1) = (Inr (Bytes (hd segs)), c2)" by blast
  with assms(6) utf8_decode_scalar [OF assms(6)] show ?thesis
    by (auto simp: socket_main_def script_steps class_asserts patched_socket_makefile_def is_binary_def io_bind_apply [of "\<lambda>(s, out). P s out" for P]
        decode_text_def io_return_def asocket_close_def sock_close_def simp del: ascii_simps)
qed

section \<open>Example 04\<close>

definition splice_main ::
  "(int \<Rightarrow> pydata \<Rightarrow> (world, int) io) \<Rightarrow> engine_choice \<Rightarrow> string \<Rightarrow> string \<Rightarrow> (world \<times> pstr, unit) io" where
  "splice_main osw e src_name dst_name =
     io_bind (say (ascii ''=== Example 04: Zero-Copy Kernel Transfer via asplice() ==='')) (\<lambda>_.
     io_bind (\<lambda>((fs, H), out). (Inr (), ((fs(src_name \<mapsto> splice_source, dst_name \<mapsto> []), H), out))) (\<lambda>_.
     io_bind (on_fst (w_open e 0 src_name ''rb'')) (\<lambda>_.
     io_bind (on_fst (w_open e 1 dst_name ''w+b'')) (\<lambda>_.
     io_bind (on_fst (w_asplice osw 0 1 splice_size)) (\<lambda>bytes_spliced.
     io_bind (say (ascii ''Transferred '' @ ascii (int_str bytes_spliced) @
                   ascii '' bytes via kernel splice ring.'')) (\<lambda>_.
     io_bind (on_fst (at 1 (ob_seek 0 0))) (\<lambda>_.
     io_bind (on_fst (at 1 (ob_read (-1)))) (\<lambda>copied_data.
     io_bind (say (ascii ''Copied Data Preview:'')) (\<lambda>_.
     io_bind (decode_text (case copied_data of Bytes b \<Rightarrow> Bytes (take 100 b) | Str t \<Rightarrow> Str (take 100 t)))
       (\<lambda>t.
     io_bind (say t) (\<lambda>_.
     io_bind (on_fst (at 0 ob_close)) (\<lambda>_.
     on_fst (at 1 ob_close)))))))))))))"

definition splice_preview :: pstr where
  "splice_preview =
     take 100 (concat (replicate 10 (ascii ''Zero-Copy Kernel Splice Data Pipeline Payload'' @ [10])))"

lemma splice_source_facts:
  "length splice_source = 460" "utf8_decode (take 100 splice_source) = Inr splice_preview"
  "list_all scalar splice_preview"
proof -
  let ?line = "ascii ''Zero-Copy Kernel Splice Data Pipeline Payload'' @ [10]"
  show "length splice_source = 460"
    unfolding splice_source_def length_repeat by (simp add: ascii_bytes_def)
  have src: "splice_source = map word_of_nat (concat (replicate 10 ?line))"
    unfolding splice_source_def map_concat map_replicate by (simp add: ascii_bytes_def ascii_def)
  have "set splice_preview \<subseteq> set ?line"
    unfolding splice_preview_def by (rule subset_trans [OF set_take_subset]) auto
  moreover have "list_all (\<lambda>c. c < 0x80) ?line" by (simp add: ascii_def)
  ultimately have low: "list_all (\<lambda>c. c < 0x80) splice_preview" unfolding list_all_iff by blast
  have "take 100 splice_source = map word_of_nat splice_preview"
    unfolding src take_map splice_preview_def ..
  with encode_ascii [OF low] have "utf8_encode splice_preview = Inr (take 100 splice_source)" by simp
  then show "utf8_decode (take 100 splice_source) = Inr splice_preview" by (rule decode_encode)
  show "list_all scalar splice_preview"
    using low by (auto simp: list_all_iff scalar_def surrogate_def)
qed

lemma splice_main_runs:
  assumes run: "splice_example osw e src dst splice_size (fs(src \<mapsto> splice_source, dst \<mapsto> []), H) =
      (Inr (460, Bytes splice_source), w')"
  shows "splice_main osw e src dst ((fs, H), out) = (Inr (), (w', out @ concat (map (\<lambda>l. l @ [10])
       [ascii ''=== Example 04: Zero-Copy Kernel Transfer via asplice() ==='',
        ascii ''Transferred 460 bytes via kernel splice ring.'', ascii ''Copied Data Preview:'',
        splice_preview])))"
  using run unfolding splice_example_def
proof (elim io_bind_InrE, goal_cases)
  case (1 _ w1 _ w2 k w3 x w4 d w5 _ w6 _ w7)
  then have last: "k = 460" "d = Bytes splice_source" "w7 = w'" by (simp_all add: io_return_def)
  have t: "ascii ''Transferred '' @ ascii (int_str 460) @ ascii '' bytes via kernel splice ring.'' =
      ascii ''Transferred 460 bytes via kernel splice ring.''" by code_simp
  show ?case
    using 1(1-7) splice_source_facts(2,3) unfolding last
    by (simp add: splice_main_def script_steps decode_text_def io_return_def io_bind_apply [of "\<lambda>(s, out). P s out" for P] t del: ascii_simps)
qed

text \<open>On every engine the source is copied, and its first hundred characters are shown.\<close>

lemma splice_main_prints:
  assumes "src \<noteq> dst"
  shows "\<exists>w'. splice_main osw e src dst ((fs, H), out) = (Inr (), (w', out @ concat (map (\<lambda>l. l @ [10])
       [ascii ''=== Example 04: Zero-Copy Kernel Transfer via asplice() ==='',
        ascii ''Transferred 460 bytes via kernel splice ring.'', ascii ''Copied Data Preview:'',
        splice_preview]))) \<and>
     fst w' = fs(src \<mapsto> splice_source, dst \<mapsto> splice_source)"
proof -
  let ?fs = "fs(src \<mapsto> splice_source, dst \<mapsto> [])"
  have all: "take (nat splice_size) splice_source = splice_source" "0 < splice_size" "splice_size < 2 ^ 32"
    using splice_source_facts(1) by (simp_all add: splice_size_def)
  have src: "fst (?fs, H) src = Some splice_source" using assms by simp
  have "\<exists>w'. splice_example osw e src dst splice_size (?fs, H) = (Inr (460, Bytes splice_source), w') \<and>
      fst w' = fs(src \<mapsto> splice_source, dst \<mapsto> splice_source)"
  proof (rule engine_cases [where e = e], goal_cases)
    case (1 ring)
    from pool.splice_example_law [OF src assms all(2,3), of osw ring] show ?case
      unfolding all(1) splice_source_facts(1) fst_conv fun_upd_upd of_nat_numeral .
  next
    case (2 ring)
    from native.splice_example_law [OF src assms all(2,3), of osw ring] show ?case
      unfolding all(1) splice_source_facts(1) fst_conv fun_upd_upd of_nat_numeral .
  qed
  then show ?thesis using splice_main_runs by blast
qed

section \<open>Example 06\<close>

definition bool_text :: "bool \<Rightarrow> pstr" where
  "bool_text b = (if b then ascii ''True'' else ascii ''False'')"

definition patching_main ::
  "(pstr \<Rightarrow> pstr) \<Rightarrow> cname \<Rightarrow> py_env \<Rightarrow> engine_choice \<Rightarrow> (world \<times> pstr, unit) io" where
  "patching_main str_repr default_cls env e =
     io_bind (say (ascii ''=== Example 06: Systemwide io Module Replacement ==='')) (\<lambda>_.
     io_bind (say (ascii ''builtins.open is patched: '' @ bool_text (builtins_open env = PatchedOpen))) (\<lambda>_.
     io_bind (say (ascii ''io.open is patched:       '' @ bool_text (io_open env = PatchedOpen))) (\<lambda>_.
     io_bind (say (ascii ''io.FileIO is patched:     '' @ bool_text (io_names env N_FileIO = Some default_cls))) (\<lambda>_.
     io_bind (say (ascii ''io.BytesIO is patched:    '' @ bool_text (io_names env N_BytesIO = Some AsyncBytesIO))) (\<lambda>_.
     io_bind (say (ascii ''io.StringIO is patched:   '' @ bool_text (io_names env N_StringIO = Some AsyncStringIO))) (\<lambda>_.
     io_bind (on_fst (w_open e 0 ''examples/06_systemwide_io_patching.py'' ''r'')) (\<lambda>_.
     io_bind (py_assert (conforms lib_classes AsyncTextIOWrapper)) (\<lambda>_.
     io_bind (on_fst (text_aread utf8_decode (\<lambda>k. at 0 (ob_read k)) (Some (\<lambda>k. at 0 (ob_aread k))) 40))
       (\<lambda>first_line.
     io_bind (say (ascii ''First Line of Script: '' @ repr_data str_repr first_line)) (\<lambda>_.
     on_fst (at 0 ob_close)))))))))))"

text \<open>Once the package is imported the five checks are true, whatever the interpreter was before.\<close>

lemma patching_main_prints:
  assumes "fs ''examples/06_systemwide_io_patching.py'' = Some c" and "utf8_decode (take 40 c) = Inr t"
    and "list_all scalar (str_repr t)"
  shows "\<exists>w'. patching_main str_repr default_cls env e ((fs, H), out) = (Inr (), (w', out @ concat (map (\<lambda>l. l @ [10])
       [ascii ''=== Example 06: Systemwide io Module Replacement ==='',
        ascii ''builtins.open is patched: '' @ bool_text (builtins_open env = PatchedOpen),
        ascii ''io.open is patched:       '' @ bool_text (io_open env = PatchedOpen),
        ascii ''io.FileIO is patched:     '' @ bool_text (io_names env N_FileIO = Some default_cls),
        ascii ''io.BytesIO is patched:    '' @ bool_text (io_names env N_BytesIO = Some AsyncBytesIO),
        ascii ''io.StringIO is patched:   '' @ bool_text (io_names env N_StringIO = Some AsyncStringIO),
        ascii ''First Line of Script: '' @ str_repr t]))) \<and>
     fst w' = fs"
proof -
  let ?p = "''examples/06_systemwide_io_patching.py''"
  have b: "list_all scalar (bool_text x)" for x by (simp add: bool_text_def scalar_ascii del: ascii_simps)
  from first_line_example_reads [where fs = fs and p = ?p and c = c and n = 40 and t = t and e = e and H = H]
    assms(1,2) obtain w' where
    run: "first_line_example e ?p 40 (fs, H) = (Inr (Str t), w')" and files: "fst w' = fs" by auto
  from run show ?thesis unfolding first_line_example_def
  proof (elim io_bind_InrE, goal_cases)
    case (1 _ w1 d w2 _ w3)
    then have last: "d = Str t" "w3 = w'" by (simp_all add: io_return_def)
    show ?case
      using 1(1-3) files b assms(3) unfolding last
      by (simp add: patching_main_def script_steps class_asserts repr_data_def del: ascii_simps)
  qed
qed

lemma patching_main_after_import:
  assumes "fs ''examples/06_systemwide_io_patching.py'' = Some c" and "utf8_decode (take 40 c) = Inr t"
    and "list_all scalar (str_repr t)" and "builtins_orig_open env = None"
  shows "\<exists>w'. patching_main str_repr d (patch_python_io d env) e ((fs, H), out) =
     (Inr (), (w', out @ concat (map (\<lambda>l. l @ [10])
       [ascii ''=== Example 06: Systemwide io Module Replacement ==='',
        ascii ''builtins.open is patched: True'', ascii ''io.open is patched:       True'',
        ascii ''io.FileIO is patched:     True'', ascii ''io.BytesIO is patched:    True'',
        ascii ''io.StringIO is patched:   True'', ascii ''First Line of Script: '' @ str_repr t]))) \<and>
     fst w' = fs"
proof -
  have "replicate 5 True = patch_checks d (patch_python_io d env)"
    using patch_checks_after_import [OF assms(4)] by simp
  then have checks: "builtins_open (patch_python_io d env) = PatchedOpen"
    "io_open (patch_python_io d env) = PatchedOpen" "io_names (patch_python_io d env) N_FileIO = Some d"
    "io_names (patch_python_io d env) N_BytesIO = Some AsyncBytesIO"
    "io_names (patch_python_io d env) N_StringIO = Some AsyncStringIO"
    by (simp_all add: patch_checks_def numeral_eq_Suc)
  have append: "ascii s @ ascii t = ascii (s @ t)" for s t by (simp add: ascii_def)
  from patching_main_prints [where fs = fs and c = c and t = t and str_repr = str_repr and default_cls = d
      and env = "patch_python_io d env" and e = e and H = H and out = out, OF assms(1-3)]
  show ?thesis unfolding checks bool_text_def simp_thms if_True append by simp
qed

section \<open>Example 02\<close>

definition fileio_part :: "bytes \<Rightarrow> bytes \<Rightarrow> bytes \<Rightarrow> bytes \<Rightarrow> (rstate \<times> pstr, unit) io" where
  "fileio_part l1 l2 l3 l4 =
     io_bind (on_fst (rw_write (Bytes l1))) (\<lambda>_.
     io_bind (on_fst (rw_awrite (Bytes l2))) (\<lambda>_.
     io_bind (on_fst (rw_write (Bytes l3))) (\<lambda>_.
     io_bind (on_fst (rw_awrite (Bytes l4))) (\<lambda>_.
     io_bind (on_fst (rw_seek 0 0)) (\<lambda>_.
     io_bind (on_fst (rw_aread (-1))) (\<lambda>content.
     io_bind (say (ascii ''--- File Stream Content ---'')) (\<lambda>_.
     io_bind (decode_text content) (\<lambda>t.
     io_bind (say t) (\<lambda>_.
     on_fst rw_close)))))))))"

definition stringio_part :: "pstr \<Rightarrow> pstr \<Rightarrow> (stringio \<times> pstr, unit) io" where
  "stringio_part lineA lineB =
     io_bind (on_fst (stringio_write (Str lineA))) (\<lambda>_.
     io_bind (on_fst (astringio_awrite (Str lineB))) (\<lambda>_.
     io_bind (on_fst (stringio_seek 0 0)) (\<lambda>_.
     io_bind (on_fst (astringio_aread (-1))) (\<lambda>string_content.
     io_bind (say (ascii ''--- StringIO Content ---'')) (\<lambda>_.
     io_bind (say_data string_content) (\<lambda>_.
     on_fst mem_close))))))"

definition header_line :: pstr where
  "header_line = ascii ''Initial Header'' @ [10]"

definition lineA :: pstr where
  "lineA = ascii ''Line A: Text write.'' @ [10]"

definition lineB :: pstr where
  "lineB = ascii ''Line B: Async text write.'' @ [10]"

definition file_line :: "string \<Rightarrow> bytes" where
  "file_line s = ascii_bytes (s @ [CHR 0x0A])"

text \<open>
  \<open>default_cls\<close> is the class that \<open>io.FileIO\<close> names after patching.  \<open>ensure_async_stream\<close> and
  \<open>patch_stream\<close> return the two objects as they are, which conform already.
\<close>

definition existing_main :: "cname \<Rightarrow> engine_choice \<Rightarrow> string \<Rightarrow> (fs \<times> pstr, unit) io" where
  "existing_main default_cls e filename =
     io_bind (say (ascii ''=== Example 02: Patching Existing io.FileIO & io.StringIO Streams ==='')) (\<lambda>_.
     io_bind (on_fst (\<lambda>fs. (Inr (), fs(filename \<mapsto> [])))) (\<lambda>_.
     io_bind (on_fst (patched_FileIO e filename ''w+'')) (\<lambda>raw_file.
     io_bind (py_assert (conforms lib_classes default_cls)) (\<lambda>_.
     io_bind (\<lambda>(fs, out).
         case raw_object (en_ring e) raw_file of
           None \<Rightarrow> (Inl (TypeError ''write() argument must be str, not bytes''), (fs, out))
         | Some ro \<Rightarrow> (case fileio_part
               (file_line ''Line 1: Synchronous write.'') (file_line ''Line 2: Asynchronous write via ring.'')
               (file_line ''Line 3: Successive sync write.'') (file_line ''Line 4: Successive async write.'')
               ((fs, ro), out) of (x, ((fs', _), out')) \<Rightarrow> (x, (fs', out'))))
       (\<lambda>_. with_object (new_memfile header_line) (stringio_part lineA lineB))))))"

lemma fileio_part_prints:
  assumes "fileio_body l1 l2 l3 l4 s = (Inr (Bytes b), s')" and "utf8_decode b = Inr t"
  shows "fileio_part l1 l2 l3 l4 (s, out) =
     (Inr (), (s', out @ ascii ''--- File Stream Content ---'' @ [10] @ t @ [10]))"
  using assms(1) unfolding fileio_body_def
proof (elim io_bind_InrE, goal_cases)
  case (1 _ s1 _ s2 _ s3 _ s4 _ s5 c s6 _ s7)
  then have last: "c = Bytes b" "s7 = s'" by (simp_all add: io_return_def)
  show ?case
    using 1(1-7) assms(2) utf8_decode_scalar [OF assms(2)] unfolding last
    by (simp add: fileio_part_def script_steps decode_text_def io_return_def
        io_bind_apply [of "\<lambda>(s, out). P s out" for P] del: ascii_simps)
qed

lemma stringio_part_prints:
  assumes "length h \<le> length (l1 @ l2)" and "l1 \<noteq> []" and "l2 \<noteq> []" and "list_all scalar (l1 @ l2)"
  shows "prints (stringio_part l1 l2) (new_memfile h) out =
      (Inr (), out @ ascii ''--- StringIO Content ---'' @ [10] @ l1 @ l2 @ [10])"
  using assms
  by (simp add: prints_def stringio_part_def script_steps text_steps close_step
      new_memfile_def [of h] overwrite_def say_data_def del: ascii_simps)

lemma decode_ascii: "list_all (\<lambda>c. c < 0x80) (ascii s) \<Longrightarrow> utf8_decode (ascii_bytes s) = Inr (ascii s)"
  using decode_encode [OF encode_ascii [of "ascii s"]] by (simp add: ascii_bytes_def ascii_def comp_def)

text \<open>What the file contains when it is read, with and without a ring.\<close>

definition existing_content :: "bool \<Rightarrow> string" where
  "existing_content ring =
     (if ring then
        ''Line 1: Synchronous write.'' @ [CHR 0x0A] @ ''Line 2: Asynchronous write via ring.'' @ [CHR 0x0A] @
        ''Line 3: Successive sync write.'' @ [CHR 0x0A] @ ''Line 4: Successive async write.'' @ [CHR 0x0A]
      else
        ''Line 1: Synchronous write.'' @ [CHR 0x0A] @ ''Line 3: Successive sync write.'' @ [CHR 0x0A] @
        ''ring.'' @ [CHR 0x0A] @ ''Line 4: Successive async write.'' @ [CHR 0x0A])"

lemma existing_content_decoded: "utf8_decode (ascii_bytes (existing_content ring)) = Inr (ascii (existing_content ring))"
  by (rule decode_ascii) (simp add: existing_content_def ascii_def)

lemma existing_body:
  "fst (fileio_body (file_line ''Line 1: Synchronous write.'') (file_line ''Line 2: Asynchronous write via ring.'')
       (file_line ''Line 3: Successive sync write.'') (file_line ''Line 4: Successive async write.'')
       (fs(p \<mapsto> []), NativeObj ring (fileio_desc p 0))) = Inr (Bytes (ascii_bytes (existing_content ring)))"
proof -
  let ?l1 = "file_line ''Line 1: Synchronous write.''" and ?l2 = "file_line ''Line 2: Asynchronous write via ring.''"
  let ?l3 = "file_line ''Line 3: Successive sync write.''" and ?l4 = "file_line ''Line 4: Successive async write.''"
  have len: "length (?l1 @ ?l2 @ ?l3 @ ?l4) \<le> 65536" by (simp add: file_line_def ascii_bytes_def)
  have "?l1 @ ?l2 @ ?l3 @ ?l4 = ascii_bytes (existing_content True)"
    "?l1 @ ?l3 @ drop (length ?l3) ?l2 @ ?l4 = ascii_bytes (existing_content False)"
    by (simp_all add: file_line_def existing_content_def ascii_bytes_def)
  with fileio_body_ring [OF len, of fs p] fileio_body_no_ring [OF len, of fs p] show ?thesis
    by (cases ring) (simp_all only:)
qed

text \<open>
  The four lines come out as written only with a ring; without one the third has overwritten the
  second, and on the thread-pool engine the script stops at its first write.
\<close>

lemma existing_main_prints:
  assumes "default_cls \<in> set stream_classes"
  shows "\<exists>fs'. existing_main default_cls e p (fs, out) =
     (if en_native e
      then (Inr (), (fs', out @ concat (map (\<lambda>l. l @ [10])
        [ascii ''=== Example 02: Patching Existing io.FileIO & io.StringIO Streams ==='',
         ascii ''--- File Stream Content ---'', ascii (existing_content (en_ring e)),
         ascii ''--- StringIO Content ---'', lineA @ lineB])))
      else (Inl (TypeError ''write() argument must be str, not bytes''),
        (fs', out @ ascii ''=== Example 02: Patching Existing io.FileIO & io.StringIO Streams ==='' @ [10])))"
proof -
  have async: "conforms lib_classes default_cls"
    using library_classes_conform assms by (simp add: list_all_iff)
  show ?thesis
  proof (cases "en_native e")
    case False
    then show ?thesis
      by (simp add: existing_main_def async script_steps say_text io_bind_apply open_FileIO is_binary_def py_flags_wp native_flags_wp
          del: ascii_simps)
  next
    case True
    have lines: "length header_line \<le> length (lineA @ lineB)" "lineA \<noteq> []" "lineB \<noteq> []"
      by (simp_all add: header_line_def lineA_def lineB_def ascii_def)
    have "list_all scalar (lineA @ lineB)"
      by (simp add: lineA_def lineB_def scalar_text del: ascii_simps)
    note strings = stringio_part_prints [OF lines this]
    obtain s' where "fileio_body (file_line ''Line 1: Synchronous write.'')
        (file_line ''Line 2: Asynchronous write via ring.'') (file_line ''Line 3: Successive sync write.'')
        (file_line ''Line 4: Successive async write.'') (fs(p \<mapsto> []), NativeObj (en_ring e) (fileio_desc p 0)) =
        (Inr (Bytes (ascii_bytes (existing_content (en_ring e)))), s')"
      using existing_body by (metis eq_fst_iff)
    note part = fileio_part_prints [OF this existing_content_decoded]
    from True show ?thesis
      by (cases s') (simp add: existing_main_def async script_steps say_text io_bind_apply open_FileIO native_desc_wp part
          printed_then strings del: ascii_simps)
  qed
qed

end
