(* ===== verification/Test_Suite.thy ===== *)
theory Test_Suite
  imports Example_Streams Package_Init Stream_Patch
begin

text \<open>
  Tests of the repository (\<open>tests/test_aprint.py\<close>, \<open>tests/test_cpython_io.py\<close>, \<open>tests/test_patch.py\<close>) as
  programs over the model, on any engine and in any directory; a failed \<open>assert\<close> raises.  Left
  out are those that use \<open>readline\<close> and sync writes to text files, which are not modelled.
\<close>

section \<open>Opening\<close>

text \<open>\<open>with\<close>: the object is closed in the end, whatever has happened.\<close>

definition with_raw :: "raw_obj \<Rightarrow> (rstate, unit) io \<Rightarrow> (fs, unit) io" where
  "with_raw r m = (\<lambda>fs.
     case m (fs, r) of
       (x, s) \<Rightarrow> (case rw_close s of (Inl er, (fs', _)) \<Rightarrow> (Inl er, fs') | (Inr _, (fs', _)) \<Rightarrow> (x, fs')))"

definition with_buf :: "obuf \<times> raw_obj \<Rightarrow> (hstate, unit) io \<Rightarrow> (fs, unit) io" where
  "with_buf ob m = (\<lambda>fs.
     case m (fst ob, (fs, snd ob)) of
       (x, s) \<Rightarrow> (case ob_close s of (Inl er, (_, (fs', _))) \<Rightarrow> (Inl er, fs')
                  | (Inr _, (_, (fs', _))) \<Rightarrow> (x, fs')))"

definition open_layer :: "engine_choice \<Rightarrow> string \<Rightarrow> string \<Rightarrow> int \<Rightarrow> (fs, opened layered) io" where
  "open_layer e path mode buffering =
     fs_patched_open (en_native e) (\<lambda>_ _. io_raise (OSError ''not a path'')) (StrPath path)
       (plain_args mode buffering)"

text \<open>\<open>isinstance(f, py_native_io.DefaultFileIO)\<close>\<close>

fun is_default :: "engine_choice \<Rightarrow> opened \<Rightarrow> bool" where
  "is_default e (NativeStream p fm) = en_native e"
| "is_default e (FallbackStream src) = (\<not> en_native e)"

definition open_raw_file :: "engine_choice \<Rightarrow> string \<Rightarrow> string \<Rightarrow> (fs, raw_obj) io" where
  "open_raw_file e path mode =
     io_bind (open_layer e path mode 0) (\<lambda>l.
       case l of
         RawLayer r \<Rightarrow> io_bind (py_assert (is_default e r)) (\<lambda>_.
           case raw_object (en_ring e) r of
             Some ro \<Rightarrow> io_return ro
           | None \<Rightarrow> io_raise (OSError ''not a binary file''))
       | _ \<Rightarrow> io_raise (OSError ''not raw''))"

definition open_buf_file ::
  "engine_choice \<Rightarrow> string \<Rightarrow> string \<Rightarrow> int \<Rightarrow> buf_kind list \<Rightarrow> (fs, obuf \<times> raw_obj) io" where
  "open_buf_file e path mode buffering kinds =
     io_bind (open_layer e path mode buffering) (\<lambda>l.
       case l of
         BufLayer kind bs r \<Rightarrow> io_bind (py_assert (kind \<in> set kinds)) (\<lambda>_.
           case raw_object (en_ring e) r of
             Some ro \<Rightarrow> io_return (new_obuf kind bs 3, ro)
           | None \<Rightarrow> io_raise (OSError ''not a binary file''))
       | _ \<Rightarrow> io_raise (OSError ''not buffered''))"

text \<open>Members of a raw object that only the tests use.\<close>

definition rw_tell :: "(rstate, int) io" where
  "rw_tell = the (s_tell raw_view)"

definition rw_readinto :: "nat \<Rightarrow> (rstate, bytes) io" where
  "rw_readinto n = dispatch (\<lambda>_. nf_readinto n) (fallback_readinto py_file n)"

definition rw_readable :: "(rstate, bool) io" where
  "rw_readable = dispatch (\<lambda>_ st. (Inr (nf_readable st), st)) (fallback_readable py_file)"

definition rw_writable :: "(rstate, bool) io" where
  "rw_writable = dispatch (\<lambda>_ st. (Inr (nf_writable st), st)) (fallback_writable py_file)"

definition rw_seekable :: "(rstate, bool) io" where
  "rw_seekable = dispatch (\<lambda>_ st. (Inr (nf_seekable st), st)) (fallback_seekable py_file)"

text \<open>\<open>m\<close> returns \<open>a\<close>.\<close>

definition expect :: "('s, 'a) io \<Rightarrow> 'a \<Rightarrow> ('s, unit) io" where
  "expect m a = io_bind m (\<lambda>x. py_assert (x = a))"

section \<open>Raw files\<close>

definition test_fileio_compliance :: "engine_choice \<Rightarrow> (fs, unit) io" where
  "test_fileio_compliance e =
     (let payload = ascii_bytes ''Raw Binary Payload'' in
      io_bind (open_raw_file e ''raw.bin'' ''wb'') (\<lambda>f.
      io_bind (with_raw f
        (io_bind (expect rw_writable True) (\<lambda>_.
         io_bind (expect rw_readable False) (\<lambda>_.
         expect (rw_write (Bytes payload)) 18)))) (\<lambda>_.
      io_bind (open_raw_file e ''raw.bin'' ''rb'') (\<lambda>f.
      with_raw f
        (io_bind (expect rw_readable True) (\<lambda>_.
         io_bind (expect rw_writable False) (\<lambda>_.
         io_bind (expect rw_seekable True) (\<lambda>_.
         io_bind (expect rw_tell 0) (\<lambda>_.
         io_bind (expect (rw_readinto 18) payload) (\<lambda>_.
         io_bind (rw_seek 4 0) (\<lambda>_.
         io_bind (expect rw_tell 4) (\<lambda>_.
         expect (rw_read 6) (Bytes (ascii_bytes ''Binary''))))))))))))))"

definition test_async_cpython_streams :: "engine_choice \<Rightarrow> (fs, unit) io" where
  "test_async_cpython_streams e =
     io_bind (open_raw_file e ''async_cpython.txt'' ''wb'') (\<lambda>f.
     io_bind (with_raw f
       (io_bind (rw_awrite (Bytes (ascii_bytes ''Async Raw Stream''))) (\<lambda>_. io_return ()))) (\<lambda>_.
     io_bind (open_raw_file e ''async_cpython.txt'' ''rb'') (\<lambda>f.
     with_raw f
       (io_bind (expect (rw_aread 9) (Bytes (ascii_bytes ''Async Raw''))) (\<lambda>_.
        io_bind rw_close (\<lambda>_.
        (\<lambda>s. py_assert (rw_closed s) s)))))))"

section \<open>Splicing to a pipe\<close>

text \<open>The pipe is what it holds; the ring's splice and \<open>os.write\<close> put bytes into it.\<close>

definition pipe_put :: "bytes \<Rightarrow> (bytes, nat) io" where
  "pipe_put d = (\<lambda>pipe. (Inr (length d), pipe @ d))"

definition rw_asplice :: "int \<Rightarrow> (rstate \<times> bytes, int) io" where
  "rw_asplice n = (\<lambda>((fs, r), pipe).
     case r of
       NativeObj ring f \<Rightarrow>
         (case nf_asplice (if ring then Some pipe_put else None) (\<lambda>d. io_bind (pipe_put d) (\<lambda>_. io_return ()))
                 (Some (nat n)) ((fs, f), pipe) of
            (x, ((fs', f'), pipe')) \<Rightarrow> (map_sum id int x, ((fs', NativeObj ring f'), pipe')))
     | PoolObj f b \<Rightarrow>
         (case base_asplice
                 (\<lambda>_ d. on_snd (case d of Bytes c \<Rightarrow> io_bind (pipe_put c) (\<lambda>k. io_return (int k))
                                | Str _ \<Rightarrow> io_raise (TypeError ''bytes'')))
                 None (\<lambda>k. on_fst (fallback_read py_file False k)) (FdTarget 4) n (((fs, f), b), pipe) of
            (x, (((fs', f'), b'), pipe')) \<Rightarrow> (x, ((fs', PoolObj f' b'), pipe'))))"

definition test_zero_copy_splice :: "engine_choice \<Rightarrow> (fs, unit) io" where
  "test_zero_copy_splice e =
     (let payload = ascii_bytes ''Splice Zero Copy Kernel Payload'' in
      io_bind (\<lambda>fs. (Inr (), fs(''splice_src.bin'' \<mapsto> payload))) (\<lambda>_.
      io_bind (open_raw_file e ''splice_src.bin'' ''rb'') (\<lambda>src_stream.
      with_raw src_stream (\<lambda>s.
        case rw_asplice 31 (s, []) of
          (Inl er, (s', _)) \<Rightarrow> (Inl er, s')
        | (Inr copied, (s', pipe_data)) \<Rightarrow> py_assert (copied = 31 \<and> pipe_data = payload) s'))))"

section \<open>Buffered files\<close>

definition test_sync_read_write :: "engine_choice \<Rightarrow> (fs, unit) io" where
  "test_sync_read_write e =
     io_bind (open_buf_file e ''sync.txt'' ''wb'' (-1) [BufWriter]) (\<lambda>f.
     io_bind (with_buf f (io_bind (ob_write (Bytes (ascii_bytes ''Hello Native IO''))) (\<lambda>_. io_return ()))) (\<lambda>_.
     io_bind (open_buf_file e ''sync.txt'' ''rb'' (-1) [BufReader]) (\<lambda>f.
     with_buf f (expect (ob_read 15) (Bytes (ascii_bytes ''Hello Native IO''))))))"

definition test_async_aread :: "engine_choice \<Rightarrow> (fs, unit) io" where
  "test_async_aread e =
     io_bind (\<lambda>fs. (Inr (), fs(''async.txt'' \<mapsto> ascii_bytes ''Async Test''))) (\<lambda>_.
     io_bind (open_buf_file e ''async.txt'' ''rb'' (-1) [BufReader]) (\<lambda>f.
     with_buf f (expect (ob_aread 10) (Bytes (ascii_bytes ''Async Test'')))))"

definition test_buffered_binary_open :: "engine_choice \<Rightarrow> (fs, unit) io" where
  "test_buffered_binary_open e =
     io_bind (open_buf_file e ''buffered.bin'' ''wb'' 1024 [BufWriter, BufRandom]) (\<lambda>f.
     io_bind (with_buf f (io_bind (ob_write (Bytes (ascii_bytes ''Buffered Data''))) (\<lambda>_. io_return ()))) (\<lambda>_.
     io_bind (open_buf_file e ''buffered.bin'' ''rb'' 1024 [BufReader]) (\<lambda>f.
     with_buf f (expect (ob_read (-1)) (Bytes (ascii_bytes ''Buffered Data''))))))"

section \<open>Streams of other classes\<close>

text \<open>\<open>CustomLegacyStream\<close> has \<open>read\<close>, \<open>close\<close> and \<open>closed\<close>.\<close>

record legacy =
  lg_data :: bytes
  lg_pos :: nat
  lg_closed_flag :: bool

definition legacy_new :: "bytes \<Rightarrow> legacy" where
  "legacy_new d = \<lparr>lg_data = d, lg_pos = 0, lg_closed_flag = False\<rparr>"

definition legacy_read :: "int \<Rightarrow> (legacy, pydata) io" where
  "legacy_read n = (\<lambda>s.
     if n < 0 then (Inr (Bytes (drop (lg_pos s) (lg_data s))), s\<lparr>lg_pos := length (lg_data s)\<rparr>)
     else (Inr (Bytes (take (nat n) (drop (lg_pos s) (lg_data s)))), s\<lparr>lg_pos := lg_pos s + nat n\<rparr>))"

definition legacy_close :: "(legacy, unit) io" where
  "legacy_close = (\<lambda>s. (Inr (), s\<lparr>lg_closed_flag := True\<rparr>))"

definition legacy_stream :: "legacy file_stream" where
  "legacy_stream = \<lparr>
     s_write = None, s_awrite = None, s_fileno = None,
     s_read = Some (\<lambda>_. legacy_read), s_close = Some legacy_close, s_flush = None,
     s_aread = None, s_aclose = None, s_aflush = None,
     s_aread_batch = None, s_awrite_batch = None, s_asplice = None,
     s_readinto = None, s_seek = None, s_tell = None,
     s_readable = None, s_writable = None, s_seekable = None, s_isatty = None,
     s_closed = Some (\<lambda>s. (Inr (lg_closed_flag s), s))\<rparr>"

text \<open>Its members as \<open>wrap_stream\<close> and \<open>patch_stream\<close> see them.\<close>

definition legacy_obj :: obj_state where
  "legacy_obj =
     (\<lparr>pc_attrs = [M_init \<mapsto> Own M_init, M_read \<mapsto> Own M_read, M_close \<mapsto> Own M_close, M_closed \<mapsto> Own M_closed],
       pc_mutable = True\<rparr>, \<lparr>po_attrs = Map.empty, po_dict = True\<rparr>)"

definition legacy_closed_after :: "(legacy, unit) io" where
  "legacy_closed_after = expect (the (s_closed legacy_stream)) True"

definition test_wrap_stream :: "py_error + unit" where
  "test_wrap_stream =
     (let data = ascii_bytes ''Legacy Payload Data'' in
      fst (io_bind (py_assert (\<not> obj_is_async legacy_obj)) (\<lambda>_.
           io_bind (py_assert (fst (wrap_stream legacy_obj) = Inr AdapterAround \<and>
                               conforms lib_classes AsyncStreamAdapter)) (\<lambda>_.
           io_bind (expect (adapter_aread legacy_stream 14) (Bytes (ascii_bytes ''Legacy Payload''))) (\<lambda>_.
           io_bind (adapter_aclose legacy_stream) (\<lambda>_.
           expect (adapter_closed legacy_stream) True)))) (legacy_new data)))"

text \<open>What a call on the patched object does; \<open>st\<close> are its attributes.\<close>

definition patched_aread :: "obj_state \<Rightarrow> int \<Rightarrow> (legacy, pydata) io" where
  "patched_aread st n = attr_call ''aread'' (obj_aread legacy_stream (getattr st)) (\<lambda>f. f n)"

definition patched_aclose :: "obj_state \<Rightarrow> (legacy, unit) io" where
  "patched_aclose st = attr_call ''aclose'' (obj_aclose legacy_stream (getattr st)) (\<lambda>f. f)"

definition test_patch_stream :: "py_error + unit" where
  "test_patch_stream =
     (case patch_stream legacy_obj of
        (Inl er, st) \<Rightarrow> Inl er
      | (Inr r, st) \<Rightarrow>
          fst (io_bind (py_assert (\<not> obj_is_async legacy_obj \<and> r = SameStream \<and> obj_is_async st)) (\<lambda>_.
               io_bind (expect (patched_aread st 8) (Bytes (ascii_bytes ''In-place''))) (\<lambda>_.
               io_bind (patched_aclose st) (\<lambda>_. legacy_closed_after)))
               (legacy_new (ascii_bytes ''In-place Patched Stream''))))"

definition test_ensure_async_stream :: "py_error + unit" where
  "test_ensure_async_stream =
     (case (ensure_async_stream True legacy_obj, ensure_async_stream False legacy_obj) of
        ((Inr SameStream, st), (Inr AdapterAround, _)) \<Rightarrow>
          fst (io_bind (py_assert (obj_is_async st \<and> conforms lib_classes AsyncStreamAdapter)) (\<lambda>_.
               io_bind (expect (patched_aread st 6) (Bytes (ascii_bytes ''Facade''))) (\<lambda>_.
               (\<lambda>_. expect (adapter_aread legacy_stream 6) (Bytes (ascii_bytes ''Facade''))
                      (legacy_new (ascii_bytes ''Facade Wrapped Data'')))))
               (legacy_new (ascii_bytes ''Facade In-Place Data'')))
      | _ \<Rightarrow> Inl (RuntimeError ''AssertionError''))"

section \<open>Memory streams, sockets, printing, names\<close>

definition test_async_bytes_io :: "py_error + unit" where
  "test_async_bytes_io = fst (
     io_bind (expect (abytesio_aread 9) (Bytes (ascii_bytes ''In-Memory''))) (\<lambda>_.
     io_bind (bytesio_seek 0 0) (\<lambda>_.
     io_bind (expect (abytesio_awrite (Bytes (ascii_bytes ''Overwritten Payload''))) 19) (\<lambda>_.
     expect (mem_getvalue Bytes) (Bytes (ascii_bytes ''Overwritten Payloade Stream'')))))
     (new_memfile (ascii_bytes ''In-Memory Async Byte Stream'')))"

definition test_async_string_io :: "py_error + unit" where
  "test_async_string_io = fst (
     io_bind (expect (astringio_aread 9) (Str (ascii ''In-Memory''))) (\<lambda>_.
     io_bind (stringio_seek 0 0) (\<lambda>_.
     io_bind (expect (astringio_awrite (Str (ascii ''Overwritten Payload''))) 19) (\<lambda>_.
     expect (mem_getvalue Str) (Str (ascii ''Overwritten Payloadt Stream'')))))
     (new_memfile (ascii ''In-Memory Async Text Stream'')))"

definition test_memory_updated :: "py_error + unit" where
  "test_memory_updated = fst (
     io_bind (expect (abytesio_aread 6) (Bytes (ascii_bytes ''Memory''))) (\<lambda>_.
     io_bind (bytesio_seek 0 2) (\<lambda>_.
     io_bind (abytesio_awrite (Bytes (ascii_bytes '' Updated''))) (\<lambda>_.
     io_bind (bytesio_seek 0 0) (\<lambda>_.
     io_bind (expect (bytesio_read (-1)) (Bytes (ascii_bytes ''Memory Stream Data Updated''))) (\<lambda>_.
     mem_close)))))
     (new_memfile (ascii_bytes ''Memory Stream Data'')))"

text \<open>A pair of connected sockets: what the first has sent arrives at the second.\<close>

definition fresh_sock :: "int \<Rightarrow> sock" where
  "fresh_sock fd = \<lparr>sk_in = [], sk_eof = False, sk_sent = [], sk_room = [], sk_fd = fd\<rparr>"

definition test_socket_makefile_patched :: "py_error + unit" where
  "test_socket_makefile_patched =
     (case (fst (patched_socket_makefile (\<lambda>_ _. True) (fresh_sock 3) ''wb'' 0 None None None ()),
            fst (patched_socket_makefile (\<lambda>_ _. True) (fresh_sock 4) ''rb'' 0 None None None ())) of
        (Inr (RawLayer wr), Inr (RawLayer rd)) \<Rightarrow>
          (case asocket_awrite (Bytes (ascii_bytes ''Socket Stream Data'')) (as_sock wr) of
             (Inl er, _) \<Rightarrow> Inl er
           | (Inr _, s1) \<Rightarrow>
               fst (expect (asocket_aread 18) (Bytes (ascii_bytes ''Socket Stream Data''))
                      ((as_sock rd)\<lparr>sk_in := [sk_sent s1]\<rparr>)))
      | _ \<Rightarrow> Inl (RuntimeError ''AssertionError''))"

definition test_aprint_default_stdout :: "py_error + unit" where
  "test_aprint_default_stdout = fst (
     io_bind (aprint stdout_stream False [ascii ''Hello'', ascii ''Async'', ascii ''World!''] [32] [10]) (\<lambda>_.
     (\<lambda>out. py_assert (out = ascii ''Hello Async World!'' @ [10]) out))
     [])"

definition test_aprint_sync_fallback :: "py_error + unit" where
  "test_aprint_sync_fallback = fst (
     io_bind (aprint astringio_stream False [ascii ''Sync'', ascii ''fallback'', ascii ''test''] [45] [33]) (\<lambda>_.
     expect (mem_getvalue Str) (Str (ascii ''Sync-fallback-test!'')))
     (new_memfile []))"

text \<open>A raw object as the \<open>file\<close> of \<open>aprint\<close>.\<close>

definition raw_stream :: "rstate file_stream" where
  "raw_stream = raw_view\<lparr>s_aflush := Some (dispatch (\<lambda>_. nf_aflush) (fallback_flush py_file))\<rparr>"

definition test_aprint_async_file :: "engine_choice \<Rightarrow> (fs, unit) io" where
  "test_aprint_async_file e =
     (let path = ''tmp'' in
      io_bind (\<lambda>fs. (Inr (), fs(path \<mapsto> []))) (\<lambda>_.
      io_bind (patched_FileIO e path ''w+b'') (\<lambda>r.
      io_bind (case raw_object (en_ring e) r of
          None \<Rightarrow> io_raise (OSError ''not a binary file'')
        | Some ro \<Rightarrow> with_raw ro
            (aprint raw_stream True [ascii ''High-performance'', ascii ''kernel'', ascii ''ring''] [32] [10])) (\<lambda>_.
      io_bind (open_buf_file e path ''rb'' (-1) [BufReader]) (\<lambda>r.
      with_buf r (expect (ob_read (-1)) (Bytes (ascii_bytes ''High-performance kernel ring'' @ [10]))))))))"

definition test_builtins_open_is_patched :: "bool option \<Rightarrow> string \<Rightarrow> py_env \<Rightarrow> py_error + unit" where
  "test_builtins_open_is_patched ext platform e =
     fst (case import_package True ext platform \<lparr>it_loaded = False, it_env = e\<rparr> of
        None \<Rightarrow> io_raise (RuntimeError ''ImportError'') ()
      | Some s \<Rightarrow> py_assert
          (builtins_orig_open (it_env s) \<noteq> None \<and> io_open (it_env s) = builtins_open (it_env s) \<and>
           io_names (it_env s) N_AsyncIOBase \<noteq> None \<and>
           io_names (it_env s) N_FileIO = Some (fst (default_file_io ext platform))) ())"

section \<open>Evaluation\<close>

definition raw_desc :: "engine_choice \<Rightarrow> string \<Rightarrow> string \<Rightarrow> raw_obj" where
  "raw_desc e p mode =
     (if en_native e then NativeObj (en_ring e) (native_desc p (file_mode_parse mode))
      else PoolObj (nf_new p mode (the (py_open_flags mode)))
             (cp_new default_buffer_size (of_access (the (py_open_flags mode)))))"

lemma raw_w: "open_raw (en_native e) (\<lambda>_. ''object'') (StrPath p) ''wb'' True None fs =
     (Inr (if en_native e then NativeStream p (file_mode_parse ''wb'')
           else FallbackStream (OrigOpen (StrPath p) ''wb'' None None)), fs(p \<mapsto> []))"
  using open_raw_result [of "StrPath p" p "''wb''", OF _ py_flags_w, of "en_native e" "\<lambda>_. ''object''" True fs]
  by (simp add: native_flags_eq py_flags_w os_open_def split: option.splits)

lemma raw_r: "fs p = Some c \<Longrightarrow> open_raw (en_native e) (\<lambda>_. ''object'') (StrPath p) ''rb'' True None fs =
     (Inr (if en_native e then NativeStream p (file_mode_parse ''rb'')
           else FallbackStream (OrigOpen (StrPath p) ''rb'' None None)), fs)"
  using open_raw_result [of "StrPath p" p "''rb''", OF _ py_flags_rb, of "en_native e" "\<lambda>_. ''object''" True fs]
  by (simp add: native_flags_eq py_flags_rb os_open_def)

lemma open_raw_w: "open_raw_file e p ''wb'' fs = (Inr (raw_desc e p ''wb''), fs(p \<mapsto> []))"
  by (simp add: open_raw_file_def open_layer_def patched_open_path raw_mode_def is_binary_def raw_w
      io_defs py_assert_def py_flags_w raw_desc_def)

lemma open_raw_r: "fs p = Some c \<Longrightarrow> open_raw_file e p ''rb'' fs = (Inr (raw_desc e p ''rb''), fs)"
  by (simp add: open_raw_file_def open_layer_def patched_open_path raw_mode_def is_binary_def raw_r
      io_defs py_assert_def py_flags_rb raw_desc_def)

text \<open>Calls on an object of either engine.\<close>

definition on_native :: "(nstate, 'a) io \<Rightarrow> bool \<Rightarrow> nstate \<Rightarrow> (py_error + 'a) \<times> rstate" where
  "on_native m ring st = (case m st of (x, (fs, f)) \<Rightarrow> (x, (fs, NativeObj ring f)))"

definition on_pool :: "(cpstate, 'a) io \<Rightarrow> cpstate \<Rightarrow> (py_error + 'a) \<times> rstate" where
  "on_pool m st = (case m st of (x, ((fs, f), b)) \<Rightarrow> (x, (fs, PoolObj f b)))"

lemma rw_native:
  "rw_write d (fs, NativeObj ring f) = on_native (nf_write d) ring (fs, f)"
  "rw_awrite d (fs, NativeObj ring f) = on_native (nf_awrite ring d) ring (fs, f)"
  "rw_read n (fs, NativeObj ring f) = on_native (nf_read n) ring (fs, f)"
  "rw_aread n (fs, NativeObj ring f) = on_native (nf_aread ring n) ring (fs, f)"
  "rw_seek off wh (fs, NativeObj ring f) = on_native (nf_seek off wh) ring (fs, f)"
  "rw_tell (fs, NativeObj ring f) = on_native nf_tell ring (fs, f)"
  "rw_flush (fs, NativeObj ring f) = (Inr (), (fs, NativeObj ring f))"
  "rw_close (fs, NativeObj ring f) = on_native nf_close ring (fs, f)"
  "rw_readinto k (fs, NativeObj ring f) = on_native (nf_readinto k) ring (fs, f)"
  "rw_readable (fs, NativeObj ring f) = (Inr (nf_readable (fs, f)), (fs, NativeObj ring f))"
  "rw_writable (fs, NativeObj ring f) = (Inr (nf_writable (fs, f)), (fs, NativeObj ring f))"
  "rw_seekable (fs, NativeObj ring f) = (Inr True, (fs, NativeObj ring f))"
  by (simp_all add: rw_simps rw_async_simps dispatch_def on_native_def rw_tell_def raw_view_def
      rw_readinto_def rw_readable_def rw_writable_def rw_seekable_def nf_seekable_def
      nf_flush_def io_return_def)

lemma rw_pool:
  "rw_write d (fs, PoolObj f b) = on_pool (cp_write d) ((fs, f), b)"
  "rw_awrite d (fs, PoolObj f b) = on_pool (cp_write d) ((fs, f), b)"
  "rw_read n (fs, PoolObj f b) = on_pool (cp_read n) ((fs, f), b)"
  "rw_aread n (fs, PoolObj f b) = on_pool (cp_read n) ((fs, f), b)"
  "rw_seek off wh (fs, PoolObj f b) = on_pool (cp_seek off wh) ((fs, f), b)"
  "rw_tell (fs, PoolObj f b) = on_pool cp_tell ((fs, f), b)"
  "rw_flush (fs, PoolObj f b) = on_pool cp_flush ((fs, f), b)"
  "rw_close (fs, PoolObj f b) = on_pool cp_close ((fs, f), b)"
  "rw_readinto k (fs, PoolObj f b) = on_pool (cp_readinto k) ((fs, f), b)"
  "rw_readable (fs, PoolObj f b) = on_pool (cp_check (\<lambda>st. (Inr (cp_readable (snd st)), st))) ((fs, f), b)"
  "rw_writable (fs, PoolObj f b) = on_pool (cp_check (\<lambda>st. (Inr (cp_writable (snd st)), st))) ((fs, f), b)"
  "rw_seekable (fs, PoolObj f b) = on_pool (cp_check (io_return True)) ((fs, f), b)"
  by (simp_all add: rw_simps rw_async_simps dispatch_def on_pool_def rw_tell_def raw_view_def
      rw_readinto_def rw_readable_def rw_writable_def rw_seekable_def fallback_tell_def
      fallback_readinto_def fallback_readable_def fallback_writable_def fallback_seekable_def cp_stream_def)

lemma expect_apply: "expect m a s = (case m s of (Inl er, s') \<Rightarrow> (Inl er, s')
    | (Inr x, s') \<Rightarrow> if x = a then (Inr (), s') else (Inl (RuntimeError ''AssertionError''), s'))"
  by (simp add: expect_def io_bind_apply py_assert_def io_return_def io_raise_def
      split: prod.split sum.split)

lemmas nf_eval = nf_write_def nf_awrite_def nf_read_def nf_aread_def nf_seek_def nf_tell_def nf_close_def
  nf_readinto_def nf_readable_def nf_writable_def to_seek_from_def sys_seek_def nf_defs can_write_def can_read_def

lemmas cp_eval = cp_write_def cp_read_def cp_seek_def cp_tell_def cp_close_def cp_readinto_def cp_check_def
  cp_flush_def cp_flush_pending_def cp_unread_def cp_flush_if_over_def cp_append_def cp_readall_def cp_fill_def
  os_lseek_def os_call_def to_seek_from_def sys_seek_def nf_defs can_write_def can_read_def

lemma desc_native:
  "en_native e \<Longrightarrow> raw_desc e p ''wb'' = NativeObj (en_ring e) \<lparr>nf_open = True, nf_path = p,
     nf_mode = file_mode_parse ''wb'', nf_pos = 0, nf_access = WrOnly, nf_append = False\<rparr>"
  "en_native e \<Longrightarrow> raw_desc e p ''rb'' = NativeObj (en_ring e) \<lparr>nf_open = True, nf_path = p,
     nf_mode = file_mode_parse ''rb'', nf_pos = 0, nf_access = RdOnly, nf_append = False\<rparr>"
  by (simp_all add: raw_desc_def native_desc_def mode_defs Let_def file_mode_parse_def
      configure_open_options_def open_options_new_def)

lemma desc_pool:
  "\<not> en_native e \<Longrightarrow> raw_desc e p ''wb'' = PoolObj \<lparr>nf_open = True, nf_path = p,
     nf_mode = file_mode_parse ''wb'', nf_pos = 0, nf_access = WrOnly, nf_append = False\<rparr>
     (cp_new default_buffer_size WrOnly)"
  "\<not> en_native e \<Longrightarrow> raw_desc e p ''rb'' = PoolObj \<lparr>nf_open = True, nf_path = p,
     nf_mode = file_mode_parse ''rb'', nf_pos = 0, nf_access = RdOnly, nf_append = False\<rparr>
     (cp_new default_buffer_size RdOnly)"
  by (simp_all add: raw_desc_def nf_new_def py_flags_w py_flags_rb)


lemmas raw_eval = Let_def io_bind_apply open_raw_w open_raw_r with_raw_def expect_apply io_defs
  ascii_bytes_def py_assert_def

lemmas native_eval = default_buffer_size_def raw_eval desc_native rw_native on_native_def nf_eval file_mode_parse_def

lemmas pool_eval = raw_eval desc_pool rw_pool on_pool_def cp_eval cp_new_def default_buffer_size_def

lemma fileio_compliance: "fst (test_fileio_compliance e fs) = Inr ()"
proof (cases "en_native e")
  case True
  then show ?thesis by (simp add: test_fileio_compliance_def native_eval overwrite_def)
next
  case False
  then show ?thesis by (simp add: test_fileio_compliance_def pool_eval overwrite_def)
qed

lemma async_cpython_streams: "fst (test_async_cpython_streams e fs) = Inr ()"
proof (cases "en_native e")
  case True
  then show ?thesis by (cases "en_ring e") (simp_all add: test_async_cpython_streams_def native_eval overwrite_def as_u32_id)
next
  case False
  then show ?thesis by (simp add: test_async_cpython_streams_def pool_eval overwrite_def)
qed

lemma zero_copy_splice: "fst (test_zero_copy_splice e fs) = Inr ()"
proof (cases "en_native e")
  case True
  then show ?thesis by (cases "en_ring e") (simp_all add: test_zero_copy_splice_def native_eval
     rw_asplice_def nf_asplice_def pipe_put_def as_u32_id)
next
  case False
  then show ?thesis by (simp add: test_zero_copy_splice_def pool_eval rw_asplice_def base_asplice_def
    pipe_put_def chunk_size_def fallback_py_file truthy_def)
qed


lemma open_buf_w:
  "BufWriter \<in> set kinds \<Longrightarrow> buffering \<noteq> 0 \<Longrightarrow> open_buf_file e p ''wb'' buffering kinds fs =
     (Inr (new_obuf BufWriter (buffer_size buffering) 3, raw_desc e p ''wb''), fs(p \<mapsto> []))"
  by (simp add: open_buf_file_def open_layer_def patched_open_path raw_mode_def is_binary_def raw_w
      open_kind_def io_defs py_assert_def py_flags_w raw_desc_def opened_caps_def need_def
      mode_readable_def mode_writable_def file_mode_parse_def)

lemma open_buf_r:
  "fs p = Some c \<Longrightarrow> BufReader \<in> set kinds \<Longrightarrow> buffering \<noteq> 0 \<Longrightarrow>
   open_buf_file e p ''rb'' buffering kinds fs =
     (Inr (new_obuf BufReader (buffer_size buffering) 3, raw_desc e p ''rb''), fs)"
  by (simp add: open_buf_file_def open_layer_def patched_open_path raw_mode_def is_binary_def raw_r
      open_kind_def io_defs py_assert_def py_flags_rb raw_desc_def opened_caps_def need_def
      mode_readable_def mode_writable_def file_mode_parse_def)

text \<open>One raw call is enough for each loop of the buffered classes.\<close>

lemma flush_once:
  "flush_loop raw_view True pend s =
     (if pend = [] then Some (Inr (), [], s)
      else (case rw_write (Bytes pend) s of
          (Inl er, s') \<Rightarrow> Some (Inl er, pend, s')
        | (Inr n, s') \<Rightarrow> Some (Inr (), [], s')))"
proof (cases "pend = []")
  case True
  then show ?thesis by (simp add: flush_loop.simps)
next
  case False
  have none: "flush_loop raw_view True [] t = Some (Inr (), [], t)" for t by (simp add: flush_loop.simps)
  obtain x s' where one: "rw_write (Bytes pend) s = (x, s')" by (metis surj_pair)
  note raw = one [unfolded rw_simps]
  show ?thesis
  proof (cases x)
    case (Inl er)
    with one raw False show ?thesis by (subst flush_loop.simps) (simp add: raw_view_simps)
  next
    case (Inr n)
    from raw_write_all [OF raw [unfolded Inr]] have "n = int (length pend)" .
    with Inr one raw False none show ?thesis by (subst flush_loop.simps) (simp add: raw_view_simps)
  qed
qed

lemma fill_once:
  "fill_loop raw_view True miss k acc s =
     (if miss = 0 then (Inr acc, s)
      else (case rw_read (int k) s of
          (Inl er, s') \<Rightarrow> (Inl er, s')
        | (Inr (Str t), s') \<Rightarrow> (Inl (TypeError ''read() should return bytes''), s')
        | (Inr (Bytes c), s') \<Rightarrow>
            if c = [] then (Inr acc, s')
            else fill_loop raw_view True (miss - length c) k (acc @ c) s'))"
  by (subst fill_loop.simps) (simp add: raw_view_simps rw_simps)

lemma read_all_more:
  "read_all_loop raw_view True acc s =
     (case rw_read (-1) s of
        (Inl er, s') \<Rightarrow> Some (Inl er, s')
      | (Inr (Str t), s') \<Rightarrow> Some (Inl (TypeError ''read() should return bytes''), s')
      | (Inr (Bytes c), s') \<Rightarrow>
          if c = [] then Some (Inr acc, s') else read_all_loop raw_view True (acc @ c) s')"
  by (subst read_all_loop.simps) (simp add: raw_view_simps rw_simps)

lemma aread_view: "s_aread raw_view = Some rw_aread"
  by (simp add: raw_view_simps rw_async_simps fun_eq_iff)

lemmas buf_eval = open_buf_w open_buf_r with_buf_def new_obuf_def buffer_size_def flush_once fill_once
  read_all_more ob_read_def ob_write_def ob_close_def ob_flush_def ob_aread_def by_kind_def unless_closed_def
  with_rbuf_def with_wbuf_def writer_write_def writer_flush_if_over_def writer_add_def writer_flush_def
  reader_read_def reader_read_upto_def reader_read_all_def areader_aread_def prefer_raw_def
  aread_view overwrite_def sys_read_to_end_def

lemma sync_read_write: "fst (test_sync_read_write e fs) = Inr ()"
proof (cases "en_native e")
  case True
  then show ?thesis by (simp add: test_sync_read_write_def native_eval buf_eval)
next
  case False
  then show ?thesis by (simp add: test_sync_read_write_def pool_eval buf_eval)
qed

lemma buffered_binary_open: "fst (test_buffered_binary_open e fs) = Inr ()"
proof (cases "en_native e")
  case True
  then show ?thesis by (simp add: test_buffered_binary_open_def native_eval buf_eval)
next
  case False
  then show ?thesis by (simp add: test_buffered_binary_open_def pool_eval buf_eval)
qed

lemma async_aread: "fst (test_async_aread e fs) = Inr ()"
proof (cases "en_native e")
  case True
  then show ?thesis by (cases "en_ring e") (simp_all add: test_async_aread_def native_eval buf_eval as_u32_id)
next
  case False
  then show ?thesis by (simp add: test_async_aread_def pool_eval buf_eval)
qed

lemma desc_random:
  "en_native e \<Longrightarrow> raw_object (en_ring e) (NativeStream p (file_mode_parse ''w+b'')) =
     Some (NativeObj (en_ring e) \<lparr>nf_open = True, nf_path = p,
     nf_mode = file_mode_parse ''w+b'', nf_pos = 0, nf_access = RdWr, nf_append = False\<rparr>)"
  "raw_object r (FallbackStream (OrigOpen (StrPath p) ''w+b'' None None)) =
     Some (PoolObj \<lparr>nf_open = True, nf_path = p,
     nf_mode = file_mode_parse ''w+b'', nf_pos = 0, nf_access = RdWr, nf_append = False\<rparr>
     (cp_new default_buffer_size RdWr))"
  by (simp_all add: native_desc_def mode_defs Let_def file_mode_parse_def
      configure_open_options_def open_options_new_def nf_new_def py_flags_wb is_binary_def)

lemma open_default_wb:
  "patched_FileIO e p ''w+b'' fs =
     (Inr (if en_native e then NativeStream p (file_mode_parse ''w+b'')
           else FallbackStream (OrigOpen (StrPath p) ''w+b'' None None)), fs(p \<mapsto> []))"
  by (auto simp: patched_FileIO_def native_file_new_def fallback_file_new_def fallback_init_def
      py_open_path_def py_flags_wb native_flags_eq os_open_def io_defs Let_def split: option.split)

lemma raw_stream_simps:
  "s_awrite raw_stream = Some rw_awrite"
  "s_aflush raw_stream = Some (dispatch (\<lambda>_. nf_aflush) cp_flush)"
  by (simp_all add: raw_stream_def raw_view_simps rw_async_simps fun_eq_iff fallback_flush_def cp_stream_def)

lemma aprint_async_file: "fst (test_aprint_async_file e fs) = Inr ()"
proof (cases "en_native e")
  case True
  then show ?thesis
    by (cases "en_ring e") (simp_all add: test_aprint_async_file_def native_eval buf_eval open_default_wb desc_random aprint_def
      aprint_output_def encode_ascii ascii_def raw_stream_simps dispatch_def nf_aflush_def as_u32_id
      native_desc_def mode_defs configure_open_options_def open_options_new_def)
next
  case False
  then show ?thesis
    by (simp add: test_aprint_async_file_def pool_eval buf_eval open_default_wb aprint_def
      py_flags_wb is_binary_def nf_new_def aprint_output_def encode_ascii ascii_def raw_stream_simps dispatch_def)
qed

lemma adapter_is_async: "conforms lib_classes AsyncStreamAdapter"
  by (simp add: conforms_def resolve_lib)

lemmas legacy_eval = io_defs expect_apply py_assert_def legacy_obj_def obj_is_async_def async_members_def
  hasattr_def getattr_def cls_hasattr_def legacy_stream_def legacy_read_def legacy_close_def
  legacy_new_def ascii_bytes_def legacy_closed_after_def

lemmas adapter_eval = wrap_stream_def adapter_aread_def adapter_aclose_def adapter_closed_def attr_call_def

lemmas patch_eval = patch_stream_def add_methods_def add_method_def add_stubs_def add_stub_def
  set_cls_def set_obj_def patched_aread_def patched_aclose_def obj_aread_def obj_aclose_def

lemma legacy_streams:
  "test_wrap_stream = Inr ()" "test_patch_stream = Inr ()" "test_ensure_async_stream = Inr ()"
  using adapter_is_async
  by (simp_all add: test_wrap_stream_def test_patch_stream_def test_ensure_async_stream_def
      ensure_async_stream_def legacy_eval adapter_eval patch_eval Let_def)

lemma memory_streams:
  "test_async_bytes_io = Inr ()" "test_async_string_io = Inr ()" "test_memory_updated = Inr ()"
  by code_simp+

lemma printing: "test_aprint_default_stdout = Inr ()" "test_aprint_sync_fallback = Inr ()"
  by (simp_all add: test_aprint_default_stdout_def test_aprint_sync_fallback_def aprint_def aprint_output_def
      encode_ascii ascii_def stdout_stream_def stdout_write_def scalar_def surrogate_def astringio_stream_def
      mem_defs new_memfile_def call_flush_def expect_apply py_assert_def io_defs overwrite_def Let_def)

lemma socket_makefile: "test_socket_makefile_patched = Inr ()"
  by (simp add: test_socket_makefile_patched_def patched_socket_makefile_def raw_mode_def is_binary_def
      asocket_init_def fresh_sock_def io_defs expect_apply sock_defs ascii_bytes_def Let_def)

lemma names_patched:
  "test_builtins_open_is_patched ext platform (env\<lparr>builtins_orig_open := None\<rparr>) = Inr ()"
  by (simp add: test_builtins_open_is_patched_def import_package_def patch_python_io_def py_assert_def
      io_return_def Let_def split: option.split)

section \<open>The suite\<close>

definition file_tests :: "engine_choice \<Rightarrow> (fs, unit) io list" where
  "file_tests e =
     [test_fileio_compliance e, test_async_cpython_streams e, test_zero_copy_splice e,
      test_sync_read_write e, test_async_aread e, test_buffered_binary_open e, test_aprint_async_file e]"

definition stream_tests :: "(py_error + unit) list" where
  "stream_tests =
     [test_wrap_stream, test_patch_stream, test_ensure_async_stream, test_async_bytes_io,
      test_async_string_io, test_memory_updated, test_socket_makefile_patched,
      test_aprint_default_stdout, test_aprint_sync_fallback]"


end
