(* ===== verification/Spec2Isabelle.thy ===== *)
theory Spec2Isabelle
  imports Class_Model Memory_Streams Socket_Stream File_Mode File_Streams Fallback_Stream
    Buffered_Streams Open_Patch System_Patch Stream_Patch Async_Print Native_File Ring_Files
    Example_Streams Package_Init
    Platform_Engines Extension_Module Batch_Script Script_Output Test_Suite
begin

text \<open>
  This development verifies \<open>py-native-io\<close>: Python stream classes with matching sync and async
  methods, an \<open>open\<close> and a \<open>socket.makefile\<close> that return them, tools that give any stream the
  async methods, and \<open>aprint\<close>; below them two file engines, a thread pool in Python and a
  compiled one in Rust, on Linux over \<open>io_uring\<close>; and the example scripts that use all of it.

  \<^bold>\<open>Conventions.\<close>  \<open>bytes\<close> are lists of 8-bit words, \<open>str\<close> lists of code points, Python's integers
  \<open>int\<close>; the fields of a ring request have their width.  A method is a function of the state that
  returns the new state and either a value or an exception (\<open>('s, 'a) io\<close> in \<open>Stream_Prelude\<close>); an
  \<open>async\<close> method is its effect when awaited to completion.  What may never return is an option
  (\<open>blocking_io\<close>): \<open>None\<close> stands for not returning (\<open>recv_loop\<close>, \<open>flush_loop\<close>, \<open>read_all_loop\<close>,
  \<open>poll_completion_for_id\<close>, \<open>gather\<close>).  A sync method has an argument for whether an event loop is
  running in its thread.  An object is a record of its methods (\<open>stream\<close>, \<open>file_stream\<close>); an
  attribute that may be missing is an option.  Operating system calls that the code hands data to
  (\<open>os.write\<close>), codecs other than UTF-8, constructors, the \<open>io-uring\<close> crate, the Windows API and the
  package \<open>aiofiles\<close> are arguments.

  \<^bold>\<open>The Python package\<close>, in the order of the code.

  \<^item> \<open>Stream_Prelude\<close>: values, exceptions, the \<open>io\<close> computations and their laws, buffers with
    overwriting.  \<open>Utf8\<close>: the strict UTF-8 codec; decoding inverts encoding.

  \<^item> \<open>Stream_Core\<close> (\<open>base.py\<close>): the protocol \<open>AsyncIOStream\<close>, the methods of \<open>AsyncIOBase\<close>
    (\<open>base_aread\<close> ... \<open>base_asplice\<close>), and the mutual recursion of \<open>read\<close> and \<open>aread\<close> (\<open>run_sync\<close>,
    \<open>run_async\<close>).  The fuel of these counts nested calls: two are enough as soon as a class
    overrides one half (\<open>run_sync_returns\<close>), and no number is if it overrides neither.

  \<^item> \<open>Class_Model\<close> (\<open>base.py\<close> and all class headers): \<open>AsyncIOBaseMeta.__new__\<close>, Python's C3
    method resolution order, the class table, and what each interface member of each class
    resolves to.

  \<^item> \<open>Stream_Contracts\<close>: the interfaces between streams and what drives them, as locales:
    sources and sinks that may move less than asked (\<open>chunk_source\<close>, \<open>chunk_sink\<close>) or exactly what is
    asked (\<open>exact_source\<close>, \<open>exact_sink\<close>), and their combinations in a splice (\<open>pipe\<close>,
    \<open>exact_pipe\<close>).  Batches and splices are treated once here and inherited by each stream
    through an interpretation.

  \<^item> \<open>Memory_Streams\<close> (\<open>memory.py\<close>), \<open>Socket_Stream\<close> (\<open>socket.py\<close>), \<open>Fallback_Stream\<close>
    (\<open>FallbackFileIO\<close> of \<open>file.py\<close>): the streams, over models of \<open>io.BytesIO\<close>, \<open>io.StringIO\<close>, a
    stream socket and a binary file of the standard library.

  \<^item> \<open>Buffered_Streams\<close> (\<open>buffered.py\<close>): the buffered and text classes, over the standard
    library's buffering.  The locales \<open>raw_source\<close> and \<open>raw_sink\<close> extend the contracts by the two
    ways of calling a raw stream and are interpreted for files and sockets.

  \<^item> \<open>File_Mode\<close> (\<open>src/file_mode.rs\<close>), \<open>File_Streams\<close> (\<open>file.py\<close>, \<open>NativeFileIO::new\<close> of
    \<open>src/file_io.rs\<close>): engine selection, open modes down to system call flags, and opening on a
    file system of named files with the silent fallback from the native engine.

  \<^item> \<open>Open_Patch\<close> and \<open>System_Patch\<close> (\<open>patch.py\<close>, first half): \<open>patched_open\<close>,
    \<open>patched_socket_makefile\<close> and \<open>patch_python_io\<close>, against specifications of CPython's \<open>open\<close>
    (\<open>cpython_open\<close>) and \<open>makefile\<close> (\<open>cpython_makefile\<close>).  \<open>Package_Init\<close> (\<open>__init__.py\<close>,
    \<open>sitecustomize.py\<close>): exported names, and the patching on the first import.

  \<^item> \<open>Stream_Patch\<close> (\<open>patch.py\<close>, second half): \<open>AsyncStreamAdapter\<close>, \<open>patch_stream\<close>,
    \<open>wrap_stream\<close>, \<open>ensure_async_stream\<close>.  Patching is a step on the attributes of an object and of
    its class, refined by a specification on lookup tables (\<open>patched_tbl\<close>).

  \<^item> \<open>Async_Print\<close> (\<open>print.py\<close>): \<open>aprint\<close>, \<open>get_async_stdout\<close>, \<open>get_async_stderr\<close>.  \<open>Std_Out\<close>: its default
    target \<open>sys.stdout\<close>, where \<open>aprint\<close> does what \<open>print\<close> does, and several \<open>aprint\<close>s under one \<open>gather\<close>.

  \<^bold>\<open>The Rust engine.\<close>

  \<^item> \<open>Native_File\<close> (\<open>src/file_io.rs\<close>, \<open>src/seek_whence.rs\<close>): every method of \<open>NativeFileIO\<close> on Linux,
    a handle with a position over the file system; whether ring operations succeed is a flag.
    \<open>Platform_Engines\<close> (\<open>engines/windows.rs\<close>, \<open>engines/macos.rs\<close>): its branches for other platforms.
    \<open>Extension_Module\<close> (\<open>src/lib.rs\<close>, class statements of \<open>file.py\<close>): the class as Python sees it, and
    the platform classes that are derived from it or, without the extension, from a dummy.

  \<^item> \<open>Ring_Config\<close> (\<open>engines/mod.rs\<close>, first part of \<open>engines/linux.rs\<close>): ring size, kernel version and
    probe.

  \<^item> \<open>Ring_Engine\<close> (\<open>engines/linux.rs\<close>): numbered requests, the submission and completion queues, the
    table of completions, the polling loop, the single and batch operations, over the operations of
    the \<open>io-uring\<close> crate as a record of arguments.  \<open>Ring_Kernel\<close>: a kernel that completes requests in
    the order a schedule says and may fail to wait, and the locale \<open>uring\<close> with the laws the engine
    relies on.  \<open>Ring_Files\<close>: rings over files.  Under every schedule a poll returns the answer to its
    own request and loses no other, a batch gives each caller its own data, and the single
    operations refine the system calls by which \<open>Native_File\<close> models them; an interrupted wait makes a
    write happen twice, and the writes of a batch may be reordered.

  \<^bold>\<open>The layers together.\<close>

  \<^item> \<open>CPython_File\<close>: the buffered binary files of the standard library, which \<open>FallbackFileIO\<close> wraps.
    \<open>File_Objects\<close>: the objects that \<open>open\<close> returns, a buffered object over a \<open>NativeFileIO\<close> or a
    \<open>FallbackFileIO\<close> over such a file; their sync methods return.

  \<^item> \<open>Open_Files\<close>: \<open>open\<close> itself on a chosen engine (\<open>py_open\<close>), a table of open objects (\<open>world\<close>), and
    the locale \<open>raw_file\<close>, the contract that the engines share: what is written to a file opened
    with \<open>w+b\<close> is collected, can be read after \<open>seek(0)\<close>, and is on disk after \<open>close\<close>; one file does not
    disturb another.  It leaves open where the engines differ, in whether an async read moves
    on.  It is interpreted for the thread pool (\<open>pool\<close>) and the native engine (\<open>native\<close>, with a ring
    and without).

  \<^item> \<open>File_Tasks\<close>: tasks as lists of steps between their suspensions, and \<open>asyncio.gather\<close> under a schedule,
    an arbitrary list of task numbers that is long enough (\<open>complete\<close>).  The locale \<open>local_tasks\<close> is
    for tasks that keep what the others rely on, \<open>shared_tasks\<close> for calls on one object in any
    order; both are interpreted, inside \<open>raw_file\<close>, for the tasks of the examples.

  \<^item> \<open>Aiofiles\<close>: the file methods of the package \<open>aiofiles\<close> as a record, the locale \<open>aio_file\<close> with the
    laws that a program needs of them, and the run of example 01 that is proved from these laws;
    interpreted on the files of the standard library, which \<open>aiofiles\<close> wraps.

  \<^item> \<open>Example_Scale\<close> (example 07), \<open>Example_Batch\<close> and \<open>Batch_Script\<close> (the runs and the \<open>main\<close> of example
    01), \<open>Example_Files\<close> (examples 04 and 08), \<open>Example_Streams\<close> (examples 02, 03, 05 and 06),
    \<open>Script_Output\<close> (the \<open>main\<close> of examples 02 to 06, with what is on the terminal afterwards): the
    scripts, with the theorems that they do what they are for on every engine and under every
    schedule, or what they do instead.

  \<^item> \<open>Test_Suite\<close> (\<open>tests/\<close>): tests of the repository as programs over the model; they pass on every engine.

  This theory: the stream records agree with the class table.

  \<^bold>\<open>What is shown.\<close>  Where the package behaves as intended: patched \<open>open\<close> and \<open>makefile\<close> agree with
  CPython's in the modes named in \<open>patched_open_like_cpython\<close> and \<open>makefile_like_cpython\<close>; patching
  the interpreter is idempotent, happens once and never loses the original \<open>open\<close>; the metaclass and
  \<open>patch_stream\<close> do exactly what their specifications say, conform when they can and never rebind
  anything; splices and batches move data in order; buffered sync access is exact over sockets
  that deliver and accept piecemeal; text survives a round trip, also through \<open>aprint\<close> and a file;
  concurrent and sequential runs over files agree; the ring answers each request.  Where it does
  not, a theorem or lemma says what happens instead: exclusive creation and \<open>r+\<close>, an explicit \<open>t\<close>,
  line buffering, \<open>bytes\<close> paths and descriptors on the native engine, async access past a non-empty
  buffer, flushes that stop at the inner buffer of the thread pool, native reads that restart and
  writes that ignore mode and position, splices to memory streams, descriptors, sockets that accept
  less than a chunk and on other platforms than Linux, stubs that stay on a class, \<open>AsyncIOBase\<close>
  without overrides.

  \<^bold>\<open>Bounds.\<close>  A length in a ring request is 32 bits wide, so results about single reads and writes assume
  lengths below 2^32; an \<open>aread()\<close> without a size on the native engine returns at most 65536 bytes with a
  ring, and the examples' data are below that.  Schedules are of any length; \<open>complete\<close> asks that each
  task gets as many turns as it has steps.

  \<^bold>\<open>Not modelled:\<close> logging; clocks and argument parsing of the examples, and what example 07 prints;
  directories, links and permissions of the file system; two open handles on
  one path through different names; \<open>readline\<close> and the sync methods of text streams, which the package
  takes from the standard library, with the tests that use them; the shell script.  Each await on a file is one step of its task: that the kernel may
  take part of a request, and the order of completions, is treated in \<open>Ring_Kernel\<close> and \<open>Ring_Files\<close>,
  not again in \<open>File_Tasks\<close>.  Sync buffering follows the standard library's Python implementation
  \<open>_pyio\<close>.
\<close>

section \<open>The stream records and the class table\<close>

text \<open>
  \<open>follows_class c osw x\<close>: each async member of the object \<open>x\<close> that class \<open>c\<close> takes from the
  metaclass or from \<open>AsyncIOBase\<close> is the function found there, applied to \<open>x\<close>.  A member that
  the class defines itself, or takes from elsewhere, is modelled on its own.
\<close>

definition taken :: "meth option \<Rightarrow> mname \<Rightarrow> bool \<Rightarrow> bool \<Rightarrow> bool" where
  "taken r m auto_ok base_ok =
     (case r of
        None \<Rightarrow> False
      | Some (Def c m') \<Rightarrow> if c = AsyncIOBase \<and> m' = m then base_ok else True
      | Some _ \<Rightarrow> auto_ok)"

definition follows_class ::
  "cname \<Rightarrow> (int \<Rightarrow> pydata \<Rightarrow> ('s, int) io) \<Rightarrow> ('s, 'x) stream_scheme \<Rightarrow> bool" where
  "follows_class c osw x =
     (taken (resolve lib_classes c M_aread) M_aread
        (s_aread x = map_option (\<lambda>r. r False) (s_read x)) (s_aread x = Some (base_aread x)) \<and>
      taken (resolve lib_classes c M_awrite) M_awrite
        (s_awrite x = map_option (\<lambda>w. w False) (s_write x)) (s_awrite x = Some (base_awrite x)) \<and>
      taken (resolve lib_classes c M_aclose) M_aclose
        (s_aclose x = s_close x) (s_aclose x = Some (base_aclose x)) \<and>
      taken (resolve lib_classes c M_aflush) M_aflush
        (s_aflush x = s_flush x) (s_aflush x = Some (base_aflush x)) \<and>
      taken (resolve lib_classes c M_aread_batch) M_aread_batch
        (s_aread_batch x = map_option loop_aread (s_aread x))
        (s_aread_batch x = Some (base_aread_batch None x)) \<and>
      taken (resolve lib_classes c M_awrite_batch) M_awrite_batch
        (s_awrite_batch x = map_option loop_awrite (s_awrite x))
        (s_awrite_batch x = Some (base_awrite_batch None x)) \<and>
      taken (resolve lib_classes c M_asplice) M_asplice True
        (s_asplice x = map_option (base_asplice osw None) (s_aread x)))"

lemma base_batches:
  "s_aread x = Some f \<Longrightarrow> base_aread_batch None x = loop_aread f"
  "s_awrite x = Some g \<Longrightarrow> base_awrite_batch None x = loop_awrite g"
  by (simp_all add: base_aread_batch_def base_awrite_batch_def fun_eq_iff)

lemma base_unit_methods:
  "s_close x = Some c \<Longrightarrow> base_aclose x = c" "s_flush x = Some f \<Longrightarrow> base_aflush x = f"
  by (simp_all add: base_aclose_def base_aflush_def)


end
